theory Spec2Isabelle
  imports Complex_Main "HOL-Library.Char_ord"
begin

section \<open>Errors\<close>

text \<open>
  Go errors are values. The client builds them with \<^verbatim>\<open>fmt.Errorf\<close>, either as a plain
  message or around a cause (the verb \<^verbatim>\<open>%w\<close>), and with \<^verbatim>\<open>&OllamaError{...}\<close>. The
  format string and its arguments are kept as they are in the source; the cause of a
  wrapping error is its last component. The remaining constructors are the errors that
  the libraries hand to the client: the two context errors, the scanner's
  \<^verbatim>\<open>bufio.ErrTooLong\<close>, the two kinds of failure of \<^verbatim>\<open>json.Unmarshal\<close>, and any other
  library or transport error, named by its message.
\<close>

datatype arg = S string | I int

datatype error =
    Errorf string "arg list"
  | Wrapf string "arg list" error
  | OllamaError int string
  | Canceled
  | DeadlineExceeded
  | ErrTooLong
  | SyntaxError
  | UnmarshalTypeError
  | External string






section \<open>The JSON library\<close>

text \<open>
  \<^verbatim>\<open>encoding/json\<close> is not part of the repository. What follows is a model of the part
  of it that the client reaches through \<^verbatim>\<open>json.Unmarshal\<close>: the byte-level scanner that
  accepts exactly the JSON texts (RFC 8259, at most 10000 nested containers), and the
  rules by which a JSON value is stored into a Go struct. A document is kept as a tree;
  strings and numbers keep their literal text, which is interpreted when it is stored.
\<close>

datatype json =
    JNull
  | JBool bool
  | JNumber string
  | JString string
  | JArray "json list"
  | JObject "(string \<times> json) list"

datatype frame =
    ArrayFrame "json list"
  | ObjectFrame "(string \<times> json) list" "string option"

datatype step =
    stateBeginValue
  | stateBeginValueOrEmpty
  | stateBeginStringOrEmpty
  | stateBeginString
  | stateEndValue
  | stateEndTop
  | stateInString string
  | stateInStringEsc string
  | stateInStringEscU nat string
  | stateNeg string
  | state0 string
  | state1 string
  | stateDot string
  | stateDot0 string
  | stateE string
  | stateESign string
  | stateE0 string
  | stateLit string json

text \<open>The scanner: the step function to apply to the next byte, the stack of open
  containers (innermost first, members in reverse order), and the finished top-level
  value.\<close>

type_synonym scanner = "step \<times> frame list \<times> json option"

definition maxNestingDepth :: nat where
  "maxNestingDepth = 10000"

definition isSpace :: "char \<Rightarrow> bool" where
  "isSpace c = (c = CHR '' '' \<or> c = CHR 0x09 \<or> c = CHR 0x0D \<or> c = CHR 0x0A)"

definition isDigit :: "char \<Rightarrow> bool" where
  "isDigit c = (CHR ''0'' \<le> c \<and> c \<le> CHR ''9'')"

definition isHex :: "char \<Rightarrow> bool" where
  "isHex c = (isDigit c \<or> (CHR ''a'' \<le> c \<and> c \<le> CHR ''f'') \<or> (CHR ''A'' \<le> c \<and> c \<le> CHR ''F''))"

text \<open>A value is finished: it becomes the top-level value, the next element of the open
  array, the pending key of the open object, or the value of the pending key.\<close>

fun complete :: "json \<Rightarrow> frame list \<Rightarrow> json option \<Rightarrow> scanner option" where
  "complete v [] tv = Some (stateEndValue, [], Some v)"
| "complete v (ArrayFrame vs # fs) tv = Some (stateEndValue, ArrayFrame (v # vs) # fs, tv)"
| "complete v (ObjectFrame ms None # fs) tv =
     (case v of JString k \<Rightarrow> Some (stateEndValue, ObjectFrame ms (Some k) # fs, tv)
      | _ \<Rightarrow> None)"
| "complete v (ObjectFrame ms (Some k) # fs) tv =
     Some (stateEndValue, ObjectFrame ((k, v) # ms) None # fs, tv)"

fun endValue :: "char \<Rightarrow> frame list \<Rightarrow> json option \<Rightarrow> scanner option" where
  "endValue c [] tv = (if isSpace c then Some (stateEndTop, [], tv) else None)"
| "endValue c (ObjectFrame ms (Some k) # fs) tv =
     (if isSpace c then Some (stateEndValue, ObjectFrame ms (Some k) # fs, tv)
      else if c = CHR '':'' then Some (stateBeginValue, ObjectFrame ms (Some k) # fs, tv)
      else None)"
| "endValue c (ObjectFrame ms None # fs) tv =
     (if isSpace c then Some (stateEndValue, ObjectFrame ms None # fs, tv)
      else if c = CHR '','' then Some (stateBeginString, ObjectFrame ms None # fs, tv)
      else if c = CHR ''}'' then complete (JObject (rev ms)) fs tv
      else None)"
| "endValue c (ArrayFrame vs # fs) tv =
     (if isSpace c then Some (stateEndValue, ArrayFrame vs # fs, tv)
      else if c = CHR '','' then Some (stateBeginValue, ArrayFrame vs # fs, tv)
      else if c = CHR '']'' then complete (JArray (rev vs)) fs tv
      else None)"

definition endNumber :: "string \<Rightarrow> char \<Rightarrow> frame list \<Rightarrow> json option \<Rightarrow> scanner option" where
  "endNumber acc c fs tv =
     (case complete (JNumber (rev acc)) fs tv of
        None \<Rightarrow> None
      | Some (st, fs', tv') \<Rightarrow> endValue c fs' tv')"

definition pushParseState :: "step \<Rightarrow> frame \<Rightarrow> frame list \<Rightarrow> json option \<Rightarrow> scanner option" where
  "pushParseState st f fs tv =
     (if length fs + 1 \<le> maxNestingDepth then Some (st, f # fs, tv) else None)"

definition beginString :: "char \<Rightarrow> frame list \<Rightarrow> json option \<Rightarrow> scanner option" where
  \<open>beginString c fs tv =
     (if isSpace c then Some (stateBeginString, fs, tv)
      else if c = CHR ''"'' then Some (stateInString [], fs, tv)
      else None)\<close>

definition beginValue :: "char \<Rightarrow> frame list \<Rightarrow> json option \<Rightarrow> scanner option" where
  \<open>beginValue c fs tv =
     (if isSpace c then Some (stateBeginValue, fs, tv)
      else if c = CHR ''{'' then pushParseState stateBeginStringOrEmpty (ObjectFrame [] None) fs tv
      else if c = CHR ''['' then pushParseState stateBeginValueOrEmpty (ArrayFrame []) fs tv
      else if c = CHR ''"'' then Some (stateInString [], fs, tv)
      else if c = CHR ''-'' then Some (stateNeg [c], fs, tv)
      else if c = CHR ''0'' then Some (state0 [c], fs, tv)
      else if c = CHR ''t'' then Some (stateLit ''rue'' (JBool True), fs, tv)
      else if c = CHR ''f'' then Some (stateLit ''alse'' (JBool False), fs, tv)
      else if c = CHR ''n'' then Some (stateLit ''ull'' JNull, fs, tv)
      else if isDigit c then Some (state1 [c], fs, tv)
      else None)\<close>

fun json_step :: "char \<Rightarrow> scanner \<Rightarrow> scanner option" where
  "json_step c (stateBeginValue, fs, tv) = beginValue c fs tv"
| "json_step c (stateBeginValueOrEmpty, fs, tv) =
     (if isSpace c then Some (stateBeginValueOrEmpty, fs, tv)
      else if c = CHR '']'' then endValue c fs tv
      else beginValue c fs tv)"
| "json_step c (stateBeginStringOrEmpty, fs, tv) =
     (if isSpace c then Some (stateBeginStringOrEmpty, fs, tv)
      else if c = CHR ''}'' then endValue c fs tv
      else beginString c fs tv)"
| "json_step c (stateBeginString, fs, tv) = beginString c fs tv"
| "json_step c (stateEndValue, fs, tv) = endValue c fs tv"
| "json_step c (stateEndTop, fs, tv) =
     (if isSpace c then Some (stateEndTop, fs, tv) else None)"
| \<open>json_step c (stateInString acc, fs, tv) =
     (if c = CHR ''"'' then complete (JString (rev acc)) fs tv
      else if c = CHR 0x5C then Some (stateInStringEsc (c # acc), fs, tv)
      else if c < CHR 0x20 then None
      else Some (stateInString (c # acc), fs, tv))\<close>
| \<open>json_step c (stateInStringEsc acc, fs, tv) =
     (if c \<in> set ''bfnrt/"'' \<or> c = CHR 0x5C then Some (stateInString (c # acc), fs, tv)
      else if c = CHR ''u'' then Some (stateInStringEscU 0 (c # acc), fs, tv)
      else None)\<close>
| "json_step c (stateInStringEscU n acc, fs, tv) =
     (if isHex c
      then (if n < 3 then Some (stateInStringEscU (Suc n) (c # acc), fs, tv)
            else Some (stateInString (c # acc), fs, tv))
      else None)"
| "json_step c (stateNeg acc, fs, tv) =
     (if c = CHR ''0'' then Some (state0 (c # acc), fs, tv)
      else if isDigit c then Some (state1 (c # acc), fs, tv)
      else None)"
| "json_step c (state1 acc, fs, tv) =
     (if isDigit c then Some (state1 (c # acc), fs, tv)
      else if c = CHR ''.'' then Some (stateDot (c # acc), fs, tv)
      else if c = CHR ''e'' \<or> c = CHR ''E'' then Some (stateE (c # acc), fs, tv)
      else endNumber acc c fs tv)"
| "json_step c (state0 acc, fs, tv) =
     (if c = CHR ''.'' then Some (stateDot (c # acc), fs, tv)
      else if c = CHR ''e'' \<or> c = CHR ''E'' then Some (stateE (c # acc), fs, tv)
      else endNumber acc c fs tv)"
| "json_step c (stateDot acc, fs, tv) =
     (if isDigit c then Some (stateDot0 (c # acc), fs, tv) else None)"
| "json_step c (stateDot0 acc, fs, tv) =
     (if isDigit c then Some (stateDot0 (c # acc), fs, tv)
      else if c = CHR ''e'' \<or> c = CHR ''E'' then Some (stateE (c # acc), fs, tv)
      else endNumber acc c fs tv)"
| "json_step c (stateE acc, fs, tv) =
     (if c = CHR ''+'' \<or> c = CHR ''-'' then Some (stateESign (c # acc), fs, tv)
      else if isDigit c then Some (stateE0 (c # acc), fs, tv)
      else None)"
| "json_step c (stateESign acc, fs, tv) =
     (if isDigit c then Some (stateE0 (c # acc), fs, tv) else None)"
| "json_step c (stateE0 acc, fs, tv) =
     (if isDigit c then Some (stateE0 (c # acc), fs, tv)
      else endNumber acc c fs tv)"
| "json_step c (stateLit [] v, fs, tv) = None"
| "json_step c (stateLit [l] v, fs, tv) =
     (if c = l then complete v fs tv else None)"
| "json_step c (stateLit (l # m # ls) v, fs, tv) =
     (if c = l then Some (stateLit (m # ls) v, fs, tv) else None)"

fun json_scan :: "string \<Rightarrow> scanner \<Rightarrow> scanner option" where
  "json_scan [] s = Some s"
| "json_scan (c # cs) s =
     (case json_step c s of None \<Rightarrow> None | Some s' \<Rightarrow> json_scan cs s')"

text \<open>At the end of the input the scanner is fed one space, which ends a number, and the
  text is valid when that leaves a finished top-level value.\<close>

definition json_parse :: "string \<Rightarrow> json option" where
  "json_parse data =
     (case json_scan data (stateBeginValue, [], None) of
        None \<Rightarrow> None
      | Some s \<Rightarrow>
          (case json_step (CHR '' '') s of
             Some (stateEndTop, fs, tv) \<Rightarrow> tv
           | _ \<Rightarrow> None))"


subsection \<open>String literals\<close>

text \<open>
  \<^verbatim>\<open>unquote\<close> turns the text between the quotes of a string literal into the Go string:
  it resolves the escapes (a \<^verbatim>\<open>\u\<close> escape to the UTF-8 encoding of its code point, a
  surrogate pair to one code point, a lone surrogate to U+FFFD) and replaces each byte
  that does not start a well-formed UTF-8 sequence by U+FFFD.
\<close>

definition hexval :: "char \<Rightarrow> nat" where
  "hexval c =
     (if isDigit c then of_char c - 48
      else if CHR ''a'' \<le> c \<and> c \<le> CHR ''f'' then of_char c - 87
      else of_char c - 55)"

definition getu4 :: "char \<Rightarrow> char \<Rightarrow> char \<Rightarrow> char \<Rightarrow> nat" where
  "getu4 a b c d = ((hexval a * 16 + hexval b) * 16 + hexval c) * 16 + hexval d"

definition ReplacementChar :: nat where
  "ReplacementChar = 0xFFFD"

definition IsSurrogate :: "nat \<Rightarrow> bool" where
  "IsSurrogate r = (0xD800 \<le> r \<and> r < 0xE000)"

definition utf16_DecodeRune :: "nat \<Rightarrow> nat \<Rightarrow> nat" where
  "utf16_DecodeRune r1 r2 =
     (if 0xD800 \<le> r1 \<and> r1 < 0xDC00 \<and> 0xDC00 \<le> r2 \<and> r2 < 0xE000
      then (r1 - 0xD800) * 1024 + (r2 - 0xDC00) + 0x10000
      else ReplacementChar)"

definition EncodeRune :: "nat \<Rightarrow> string" where
  "EncodeRune r =
     (if r < 0x80 then [char_of r]
      else if r < 0x800 then [char_of (0xC0 + r div 64), char_of (0x80 + r mod 64)]
      else if IsSurrogate r \<or> 0x10FFFF < r then [CHR 0xEF, CHR 0xBF, CHR 0xBD]
      else if r < 0x10000
        then [char_of (0xE0 + r div 4096), char_of (0x80 + (r div 64) mod 64),
              char_of (0x80 + r mod 64)]
      else [char_of (0xF0 + r div 262144), char_of (0x80 + (r div 4096) mod 64),
            char_of (0x80 + (r div 64) mod 64), char_of (0x80 + r mod 64)])"

definition isCont :: "char \<Rightarrow> bool" where
  "isCont c = (CHR 0x80 \<le> c \<and> c \<le> CHR 0xBF)"

text \<open>The number of bytes of the well-formed UTF-8 sequence that starts the text; 0 when
  there is none (\<^verbatim>\<open>utf8.DecodeRune\<close> then yields the error rune, of width 1).\<close>

fun utf8_width :: "string \<Rightarrow> nat" where
  "utf8_width [] = 0"
| "utf8_width (a # rest) =
     (if a < CHR 0x80 then 1
      else if a < CHR 0xC2 then 0
      else if a \<le> CHR 0xDF then
        (case rest of b # _ \<Rightarrow> if isCont b then 2 else 0 | _ \<Rightarrow> 0)
      else if a \<le> CHR 0xEF then
        (case rest of
           b # c # _ \<Rightarrow>
             if (if a = CHR 0xE0 then CHR 0xA0 else CHR 0x80) \<le> b
                \<and> b \<le> (if a = CHR 0xED then CHR 0x9F else CHR 0xBF) \<and> isCont c
             then 3 else 0
         | _ \<Rightarrow> 0)
      else if a \<le> CHR 0xF4 then
        (case rest of
           b # c # d # _ \<Rightarrow>
             if (if a = CHR 0xF0 then CHR 0x90 else CHR 0x80) \<le> b
                \<and> b \<le> (if a = CHR 0xF4 then CHR 0x8F else CHR 0xBF) \<and> isCont c \<and> isCont d
             then 4 else 0
         | _ \<Rightarrow> 0)
      else 0)"

definition unescape :: "char \<Rightarrow> char" where
  "unescape e =
     (if e = CHR ''b'' then CHR 0x08
      else if e = CHR ''f'' then CHR 0x0C
      else if e = CHR ''n'' then CHR 0x0A
      else if e = CHR ''r'' then CHR 0x0D
      else if e = CHR ''t'' then CHR 0x09
      else e)"

fun unquote :: "string \<Rightarrow> string" where
  "unquote [] = []"
| "unquote (c # cs) =
     (if c = CHR 0x5C then
        (case cs of
           [] \<Rightarrow> []
         | e # rest \<Rightarrow>
             if e = CHR ''u'' then
               (case rest of
                  h1 # h2 # h3 # h4 # rest' \<Rightarrow>
                    if IsSurrogate (getu4 h1 h2 h3 h4) then
                      (case rest' of
                         b # u # g1 # g2 # g3 # g4 # rest'' \<Rightarrow>
                           if b = CHR 0x5C \<and> u = CHR ''u''
                              \<and> isHex g1 \<and> isHex g2 \<and> isHex g3 \<and> isHex g4
                              \<and> utf16_DecodeRune (getu4 h1 h2 h3 h4) (getu4 g1 g2 g3 g4)
                                  \<noteq> ReplacementChar
                           then EncodeRune
                                  (utf16_DecodeRune (getu4 h1 h2 h3 h4) (getu4 g1 g2 g3 g4))
                                @ unquote rest''
                           else EncodeRune ReplacementChar @ unquote rest'
                       | _ \<Rightarrow> EncodeRune ReplacementChar @ unquote rest')
                    else EncodeRune (getu4 h1 h2 h3 h4) @ unquote rest'
                | _ \<Rightarrow> [])
             else unescape e # unquote rest)
      else if c < CHR 0x80 then c # unquote cs
      else if utf8_width (c # cs) = 2 then
        (case cs of b # rest \<Rightarrow> c # b # unquote rest | _ \<Rightarrow> [])
      else if utf8_width (c # cs) = 3 then
        (case cs of b # d # rest \<Rightarrow> c # b # d # unquote rest | _ \<Rightarrow> [])
      else if utf8_width (c # cs) = 4 then
        (case cs of b # d # e # rest \<Rightarrow> c # b # d # e # unquote rest | _ \<Rightarrow> [])
      else EncodeRune ReplacementChar @ unquote cs)"

subsection \<open>Storing a value into a struct\<close>

text \<open>
  An object key selects the field whose name it equals when letter case is ignored.
  \<^verbatim>\<open>foldName\<close> maps a name to its representative: ASCII letters to upper case, and the
  two other characters that fold to an ASCII letter, U+017F to S and U+212A to K. All
  field names of this client are ASCII, so no other character of a key matters.
\<close>

definition toUpper :: "char \<Rightarrow> char" where
  "toUpper c =
     (case map_of (zip ''abcdefghijklmnopqrstuvwxyz'' ''ABCDEFGHIJKLMNOPQRSTUVWXYZ'') c of
        Some u \<Rightarrow> u
      | None \<Rightarrow> c)"

fun foldName :: "string \<Rightarrow> string" where
  "foldName [] = []"
| "foldName (c # cs) =
     (if CHR ''a'' \<le> c \<and> c \<le> CHR ''z'' then toUpper c # foldName cs
      else if c = CHR 0xC5 then
        (case cs of
           d # rest \<Rightarrow> if d = CHR 0xBF then CHR ''S'' # foldName rest else c # foldName cs
         | _ \<Rightarrow> c # foldName cs)
      else if c = CHR 0xE2 then
        (case cs of
           d # e # rest \<Rightarrow>
             if d = CHR 0x84 \<and> e = CHR 0xAA then CHR ''K'' # foldName rest else c # foldName cs
         | _ \<Rightarrow> c # foldName cs)
      else c # foldName cs)"

definition matchField :: "string \<Rightarrow> string \<Rightarrow> bool" where
  "matchField key name = (foldName (unquote key) = foldName name)"


text \<open>
  Storing a JSON value into a field of a given Go type. \<^verbatim>\<open>null\<close> leaves a field of these
  types as it is; a value of another JSON kind is an \<^verbatim>\<open>UnmarshalTypeError\<close>. An integer
  field takes a number literal without fraction and exponent that fits in 64 bits
  (\<^verbatim>\<open>int\<close> is taken as 64 bits wide, as on the platforms Go supports by default).
\<close>

definition storeString :: "json \<Rightarrow> string \<Rightarrow> string option" where
  "storeString v cur =
     (case v of JString raw \<Rightarrow> Some (unquote raw) | JNull \<Rightarrow> Some cur | _ \<Rightarrow> None)"

definition storeBool :: "json \<Rightarrow> bool \<Rightarrow> bool option" where
  "storeBool v cur =
     (case v of JBool b \<Rightarrow> Some b | JNull \<Rightarrow> Some cur | _ \<Rightarrow> None)"

definition digitsValue :: "string \<Rightarrow> int" where
  "digitsValue ds = foldl (\<lambda>n c. n * 10 + (int (of_char c) - 48)) 0 ds"

definition ParseInt :: "string \<Rightarrow> int option" where
  "ParseInt lit =
     (let neg = (lit \<noteq> [] \<and> hd lit = CHR ''-'');
          ds = (if neg then tl lit else lit);
          n = (if neg then - digitsValue ds else digitsValue ds)
      in if ds \<noteq> [] \<and> list_all isDigit ds \<and> - (2 ^ 63) \<le> n \<and> n < 2 ^ 63
         then Some n else None)"

definition storeInt :: "json \<Rightarrow> int \<Rightarrow> int option" where
  "storeInt v cur =
     (case v of JNumber lit \<Rightarrow> ParseInt lit | JNull \<Rightarrow> Some cur | _ \<Rightarrow> None)"

text \<open>The members of an object are stored one after the other, in the order of the text,
  so the last occurrence of a key wins; a key that matches no field is skipped. The
  first failure makes the whole \<^verbatim>\<open>Unmarshal\<close> fail.\<close>

fun storeMembers ::
  "(string \<Rightarrow> json \<Rightarrow> 'a \<Rightarrow> 'a option) \<Rightarrow> (string \<times> json) list \<Rightarrow> 'a \<Rightarrow> 'a option" where
  "storeMembers field [] r = Some r"
| "storeMembers field ((k, v) # ms) r =
     (case field k v r of None \<Rightarrow> None | Some r' \<Rightarrow> storeMembers field ms r')"

definition storeStruct ::
  "(string \<Rightarrow> json \<Rightarrow> 'a \<Rightarrow> 'a option) \<Rightarrow> json \<Rightarrow> 'a \<Rightarrow> 'a option" where
  "storeStruct field v r =
     (case v of JObject ms \<Rightarrow> storeMembers field ms r | JNull \<Rightarrow> Some r | _ \<Rightarrow> None)"

text \<open>\<^verbatim>\<open>json.Unmarshal(data, &x)\<close> for a struct \<^verbatim>\<open>x\<close> that holds \<^verbatim>\<open>zero\<close>: the text is
  checked first, then stored.\<close>

definition Unmarshal ::
  "(string \<Rightarrow> json \<Rightarrow> 'a \<Rightarrow> 'a option) \<Rightarrow> 'a \<Rightarrow> string \<Rightarrow> error + 'a" where
  "Unmarshal field zero data =
     (case json_parse data of
        None \<Rightarrow> Inl SyntaxError
      | Some v \<Rightarrow>
          (case storeStruct field v zero of
             None \<Rightarrow> Inl UnmarshalTypeError
           | Some r \<Rightarrow> Inr r))"

section \<open>The error model of the client\<close>

text \<open>\<^verbatim>\<open>type ErrorResponse struct { Error string `json:"error"` }\<close>\<close>

record ErrorResponse =
  Error :: string

definition ErrorResponse_field :: "string \<Rightarrow> json \<Rightarrow> ErrorResponse \<Rightarrow> ErrorResponse option" where
  "ErrorResponse_field k v r =
     (if matchField k ''error'' then map_option (\<lambda>x. r\<lparr>Error := x\<rparr>) (storeString v (Error r))
      else Some r)"

definition Unmarshal_ErrorResponse :: "string \<Rightarrow> error + ErrorResponse" where
  "Unmarshal_ErrorResponse = Unmarshal ErrorResponse_field \<lparr>Error = []\<rparr>"

definition parseErrorResponse :: "int \<Rightarrow> string \<Rightarrow> error" where
  "parseErrorResponse statusCode body =
     (case Unmarshal_ErrorResponse body of
        Inl err \<Rightarrow> OllamaError statusCode body
      | Inr errorResp \<Rightarrow> OllamaError statusCode (Error errorResp))"


section \<open>Strings, readers and the line scanner\<close>

text \<open>
  \<^verbatim>\<open>strings.TrimSpace\<close> removes the leading and the trailing white space of a string, as
  Unicode defines it. A Go string is a sequence of bytes, read as UTF-8: the white-space
  characters are six ASCII bytes, U+0085 and U+00A0 (two bytes each), and U+1680,
  U+2000 to U+200A, U+2028, U+2029, U+202F, U+205F and U+3000 (three bytes each).
\<close>

definition isAsciiSpace :: "char \<Rightarrow> bool" where
  "isAsciiSpace c = (c = CHR 0x09 \<or> c = CHR 0x0A \<or> c = CHR 0x0B \<or> c = CHR 0x0C
                     \<or> c = CHR 0x0D \<or> c = CHR 0x20)"

definition isSpace2 :: "char \<Rightarrow> char \<Rightarrow> bool" where
  "isSpace2 a b = (a = CHR 0xC2 \<and> (b = CHR 0x85 \<or> b = CHR 0xA0))"

definition isSpace3 :: "char \<Rightarrow> char \<Rightarrow> char \<Rightarrow> bool" where
  "isSpace3 a b c =
     ((a = CHR 0xE1 \<and> b = CHR 0x9A \<and> c = CHR 0x80)
      \<or> (a = CHR 0xE2 \<and> b = CHR 0x80
          \<and> ((CHR 0x80 \<le> c \<and> c \<le> CHR 0x8A) \<or> c = CHR 0xA8 \<or> c = CHR 0xA9 \<or> c = CHR 0xAF))
      \<or> (a = CHR 0xE2 \<and> b = CHR 0x81 \<and> c = CHR 0x9F)
      \<or> (a = CHR 0xE3 \<and> b = CHR 0x80 \<and> c = CHR 0x80))"

fun trimFront ::
  "(char \<Rightarrow> char \<Rightarrow> bool) \<Rightarrow> (char \<Rightarrow> char \<Rightarrow> char \<Rightarrow> bool) \<Rightarrow> string \<Rightarrow> string" where
  "trimFront sp2 sp3 (a # b # c # rest) =
     (if isAsciiSpace a then trimFront sp2 sp3 (b # c # rest)
      else if sp2 a b then trimFront sp2 sp3 (c # rest)
      else if sp3 a b c then trimFront sp2 sp3 rest
      else a # b # c # rest)"
| "trimFront sp2 sp3 [a, b] =
     (if isAsciiSpace a then trimFront sp2 sp3 [b]
      else if sp2 a b then []
      else [a, b])"
| "trimFront sp2 sp3 [a] = (if isAsciiSpace a then [] else [a])"
| "trimFront sp2 sp3 [] = []"

definition TrimLeft :: "string \<Rightarrow> string" where
  "TrimLeft s = trimFront isSpace2 isSpace3 s"

definition TrimRight :: "string \<Rightarrow> string" where
  "TrimRight s = rev (trimFront (\<lambda>b a. isSpace2 a b) (\<lambda>c b a. isSpace3 a b c) (rev s))"

definition TrimSpace :: "string \<Rightarrow> string" where
  "TrimSpace s = TrimRight (TrimLeft s)"

text \<open>
  A response body is an \<^verbatim>\<open>io.Reader\<close>: it delivers some bytes and then ends, with
  \<^verbatim>\<open>io.EOF\<close> (\<open>None\<close>) or with the error of a failed read.
\<close>

record Reader =
  bytes :: string
  failure :: "error option"

definition ReadAll :: "Reader \<Rightarrow> error + string" where
  "ReadAll b = (case failure b of None \<Rightarrow> Inr (bytes b) | Some e \<Rightarrow> Inl e)"

text \<open>
  \<^verbatim>\<open>bufio.Scanner\<close> with its default split function \<^verbatim>\<open>ScanLines\<close> and its default buffer,
  which holds at most \<^verbatim>\<open>MaxScanTokenSize\<close> bytes. \<^verbatim>\<open>Scan\<close> returns the next line without
  its end (\<^verbatim>\<open>\n\<close>, with one \<^verbatim>\<open>\r\<close> before it dropped). When the reader ends, the
  bytes after the last line end are one more line if there are any, and the error of
  the reader, unless it is \<^verbatim>\<open>io.EOF\<close>, is what \<^verbatim>\<open>Err\<close> returns from then on. A line
  that does not fit into the buffer together with its end stops the scanner with
  \<^verbatim>\<open>ErrTooLong\<close>. A read is taken to return bytes or an error, not both.
\<close>

record Scanner =
  buf :: string
  srcErr :: "error option"
  scanErr :: "error option"

definition NewScanner :: "Reader \<Rightarrow> Scanner" where
  "NewScanner b = \<lparr>buf = bytes b, srcErr = failure b, scanErr = None\<rparr>"

definition MaxScanTokenSize :: nat where
  "MaxScanTokenSize = 64 * 1024"

fun IndexByte :: "string \<Rightarrow> char \<Rightarrow> nat option" where
  "IndexByte [] c = None"
| "IndexByte (x # xs) c = (if x = c then Some 0 else map_option Suc (IndexByte xs c))"

definition dropCR :: "string \<Rightarrow> string" where
  "dropCR data = (if data \<noteq> [] \<and> last data = CHR 0x0D then butlast data else data)"

definition Scan :: "Scanner \<Rightarrow> string option \<times> Scanner" where
  "Scan s =
     (case IndexByte (buf s) (CHR 0x0A) of
        Some i \<Rightarrow>
          if MaxScanTokenSize \<le> i then (None, s\<lparr>scanErr := Some ErrTooLong\<rparr>)
          else (Some (dropCR (take i (buf s))), s\<lparr>buf := drop (Suc i) (buf s)\<rparr>)
      | None \<Rightarrow>
          if MaxScanTokenSize \<le> length (buf s) then (None, s\<lparr>scanErr := Some ErrTooLong\<rparr>)
          else if buf s = [] then (None, s\<lparr>scanErr := srcErr s\<rparr>)
          else (Some (dropCR (buf s)), s\<lparr>buf := [], scanErr := srcErr s\<rparr>))"


section \<open>The data model\<close>

text \<open>
  The structs of the client, one record each, with the fields and the JSON names of the
  source. Two fields hold Go values that this development does not look into: a
  \<^verbatim>\<open>time.Time\<close> is an instant, and the \<^verbatim>\<open>map[string]interface{}\<close> of options is given by
  what \<^verbatim>\<open>json.Marshal\<close> makes of it, an error when it holds a value that JSON cannot
  express and its members in key order otherwise (none for a nil or empty map).
\<close>

datatype Time = Instant int

type_synonym Options = "error + (string \<times> json) list"

record Message =
  Role :: string
  Content :: string

record ModelDetails =
  ParameterSize :: string
  QuantizationLevel :: string
  Family :: string
  ParentModel :: string
  Format :: string

record ModelResponse =
  Name :: string
  ModifiedAt :: Time
  Size :: int
  Digest :: string
  Details :: ModelDetails

record ListModelsResponse =
  Models :: "ModelResponse list"

record GenerateRequest =
  Model :: string
  Prompt :: string
  Stream :: bool
  Options :: Options

record GenerateResponse =
  Model :: string
  CreatedAt :: Time
  Response :: string
  Done :: bool
  Context :: "int list"
  TotalDuration :: int
  LoadDuration :: int
  PromptEvalCount :: int
  PromptEvalDuration :: int
  EvalCount :: int
  EvalDuration :: int

record ChatRequest =
  Model :: string
  Messages :: "Message list"
  Stream :: bool
  Options :: Options

record ChatResponse =
  Model :: string
  CreatedAt :: Time
  Message :: Message
  Done :: bool
  TotalDuration :: int
  LoadDuration :: int
  PromptEvalCount :: int
  PromptEvalDuration :: int
  EvalCount :: int
  EvalDuration :: int

record EmbeddingRequest =
  Model :: string
  Prompt :: string

record EmbeddingResponse =
  Embedding :: "real list"

record ShowRequest =
  Model :: string

record CopyRequest =
  Source :: string
  Destination :: string

record DeleteRequest =
  Model :: string

record PullRequest =
  Model :: string

record PullProgress =
  Status :: string
  Digest :: string
  Total :: int
  Completed :: int

record CreateRequest =
  Model :: string
  Modelfile :: string

record CreateProgress =
  Status :: string

record PushRequest =
  Model :: string

record PushProgress =
  Status :: string
  Digest :: string
  Total :: int
  Completed :: int

record PSResponse =
  Models :: "ModelResponse list"

section \<open>The libraries around the client\<close>

text \<open>
  What the client calls and this development does not define is a parameter of the
  model: \<^verbatim>\<open>url.JoinPath\<close>; whether \<^verbatim>\<open>http.NewRequestWithContext\<close> refuses a method and
  a URL; the JSON encoding of a Go string (the text between the quotes); the parsing of
  an RFC 3339 time, from the text between the quotes, by \<^verbatim>\<open>Time.UnmarshalJSON\<close>; and
  the parsing of a number literal as a \<^verbatim>\<open>float64\<close>.
\<close>

record lib =
  JoinPath :: "string \<Rightarrow> string \<Rightarrow> error + string"
  NewRequestErr :: "string \<Rightarrow> string \<Rightarrow> error option"
  quote :: "string \<Rightarrow> string"
  ParseTime :: "string \<Rightarrow> Time option"
  ParseFloat :: "string \<Rightarrow> real option"

subsection \<open>Encoding the requests\<close>

text \<open>\<^verbatim>\<open>json.Marshal\<close> of each request struct: one member per field, under the name of its
  tag; a field tagged \<^verbatim>\<open>omitempty\<close> is left out when it is false or empty. The value
  given to \<^verbatim>\<open>json.Marshal\<close> as an \<^verbatim>\<open>interface{}\<close> is one of the request structs.\<close>

definition jstr :: "lib \<Rightarrow> string \<Rightarrow> json" where
  "jstr L s = JString (quote L s)"

definition Marshal_Message :: "lib \<Rightarrow> Message \<Rightarrow> json" where
  "Marshal_Message L m =
     JObject [(''role'', jstr L (Role m)), (''content'', jstr L (Content m))]"

definition omitempty_stream :: "bool \<Rightarrow> (string \<times> json) list" where
  "omitempty_stream b = (if b then [(''stream'', JBool True)] else [])"

definition omitempty_options :: "(string \<times> json) list \<Rightarrow> (string \<times> json) list" where
  "omitempty_options os = (if os = [] then [] else [(''options'', JObject os)])"

definition Marshal_GenerateRequest :: "lib \<Rightarrow> GenerateRequest \<Rightarrow> error + json" where
  "Marshal_GenerateRequest L r =
     (case GenerateRequest.Options r of
        Inl e \<Rightarrow> Inl e
      | Inr os \<Rightarrow>
          Inr (JObject ([(''model'', jstr L (GenerateRequest.Model r)),
                         (''prompt'', jstr L (GenerateRequest.Prompt r))]
                        @ omitempty_stream (GenerateRequest.Stream r) @ omitempty_options os)))"

definition Marshal_ChatRequest :: "lib \<Rightarrow> ChatRequest \<Rightarrow> error + json" where
  "Marshal_ChatRequest L r =
     (case ChatRequest.Options r of
        Inl e \<Rightarrow> Inl e
      | Inr os \<Rightarrow>
          Inr (JObject ([(''model'', jstr L (ChatRequest.Model r)),
                         (''messages'',
                          if ChatRequest.Messages r = [] then JNull
                          else JArray (map (Marshal_Message L) (ChatRequest.Messages r)))]
                        @ omitempty_stream (ChatRequest.Stream r) @ omitempty_options os)))"

datatype payload =
    ShowRequestV ShowRequest
  | CopyRequestV CopyRequest
  | DeleteRequestV DeleteRequest
  | PullRequestV PullRequest
  | CreateRequestV CreateRequest
  | PushRequestV PushRequest
  | GenerateRequestV GenerateRequest
  | ChatRequestV ChatRequest
  | EmbeddingRequestV EmbeddingRequest

fun Marshal :: "lib \<Rightarrow> payload \<Rightarrow> error + json" where
  "Marshal L (ShowRequestV r) = Inr (JObject [(''model'', jstr L (ShowRequest.Model r))])"
| "Marshal L (CopyRequestV r) =
     Inr (JObject [(''source'', jstr L (Source r)), (''destination'', jstr L (Destination r))])"
| "Marshal L (DeleteRequestV r) = Inr (JObject [(''model'', jstr L (DeleteRequest.Model r))])"
| "Marshal L (PullRequestV r) = Inr (JObject [(''model'', jstr L (PullRequest.Model r))])"
| "Marshal L (CreateRequestV r) =
     Inr (JObject [(''name'', jstr L (CreateRequest.Model r)),
                   (''modelfile'', jstr L (Modelfile r))])"
| "Marshal L (PushRequestV r) = Inr (JObject [(''name'', jstr L (PushRequest.Model r))])"
| "Marshal L (GenerateRequestV r) = Marshal_GenerateRequest L r"
| "Marshal L (ChatRequestV r) = Marshal_ChatRequest L r"
| "Marshal L (EmbeddingRequestV r) =
     Inr (JObject [(''model'', jstr L (EmbeddingRequest.Model r)),
                   (''prompt'', jstr L (EmbeddingRequest.Prompt r))])"


subsection \<open>Decoding the responses\<close>

text \<open>The remaining field types: a \<^verbatim>\<open>time.Time\<close> takes a string, a \<^verbatim>\<open>float64\<close> a number,
  a struct an object, and a slice an array.

  A slice is decoded in place. Element \<open>i\<close> of the array is stored into element \<open>i\<close> of
  the backing array of the slice, so into the value that is there: an element of the
  slice, or, beyond its length, what an earlier array for the same member has left
  there (the slice is cut to the length of the array, never cleared). Beyond those the
  backing array is grown and the element is stored into a zero value. So the decoder
  sees a slice as its elements together with the earlier elements that follow them in
  the backing array. An empty array makes a new empty slice and \<^verbatim>\<open>null\<close> makes the
  slice nil; both forget the backing array. The structs are decoded from zero values,
  so the backing arrays start empty, and the structs handed to the caller hold the
  elements of their slices.\<close>

definition storeTime :: "lib \<Rightarrow> json \<Rightarrow> Time \<Rightarrow> Time option" where
  "storeTime L v cur =
     (case v of JString raw \<Rightarrow> ParseTime L raw | JNull \<Rightarrow> Some cur | _ \<Rightarrow> None)"

definition storeFloat :: "lib \<Rightarrow> json \<Rightarrow> real \<Rightarrow> real option" where
  "storeFloat L v cur =
     (case v of JNumber lit \<Rightarrow> ParseFloat L lit | JNull \<Rightarrow> Some cur | _ \<Rightarrow> None)"

fun storeElems :: "(json \<Rightarrow> 'a \<Rightarrow> 'a option) \<Rightarrow> 'a \<Rightarrow> json list \<Rightarrow> 'a list \<Rightarrow> 'a list option" where
  "storeElems elem zero [] backing = Some []"
| "storeElems elem zero (v # vs) backing =
     (case elem v (case backing of [] \<Rightarrow> zero | x # xs \<Rightarrow> x) of
        None \<Rightarrow> None
      | Some y \<Rightarrow> map_option ((#) y) (storeElems elem zero vs (tl backing)))"

definition storeList ::
  "(json \<Rightarrow> 'a \<Rightarrow> 'a option) \<Rightarrow> 'a \<Rightarrow> json \<Rightarrow> 'a list \<times> 'a list \<Rightarrow> ('a list \<times> 'a list) option" where
  "storeList elem zero v cur =
     (case v of
        JArray vs \<Rightarrow>
          map_option
            (\<lambda>xs. (xs, if vs = [] then [] else drop (length vs) (fst cur @ snd cur)))
            (storeElems elem zero vs (fst cur @ snd cur))
      | JNull \<Rightarrow> Some ([], [])
      | _ \<Rightarrow> None)"

definition Message_field :: "string \<Rightarrow> json \<Rightarrow> Message \<Rightarrow> Message option" where
  "Message_field k v r =
     (if matchField k ''role''
        then map_option (\<lambda>x. r\<lparr>Message.Role := x\<rparr>) (storeString v (Message.Role r))
      else if matchField k ''content''
        then map_option (\<lambda>x. r\<lparr>Message.Content := x\<rparr>) (storeString v (Message.Content r))
      else Some r)"

definition Message_zero :: Message where
  "Message_zero = \<lparr>Role = [], Content = []\<rparr>"

definition ModelDetails_field :: "string \<Rightarrow> json \<Rightarrow> ModelDetails \<Rightarrow> ModelDetails option" where
  "ModelDetails_field k v r =
     (if matchField k ''parameter_size''
        then map_option (\<lambda>x. r\<lparr>ModelDetails.ParameterSize := x\<rparr>) (storeString v (ModelDetails.ParameterSize r))
      else if matchField k ''quantization_level''
        then map_option (\<lambda>x. r\<lparr>ModelDetails.QuantizationLevel := x\<rparr>) (storeString v (ModelDetails.QuantizationLevel r))
      else if matchField k ''family''
        then map_option (\<lambda>x. r\<lparr>ModelDetails.Family := x\<rparr>) (storeString v (ModelDetails.Family r))
      else if matchField k ''parent_model''
        then map_option (\<lambda>x. r\<lparr>ModelDetails.ParentModel := x\<rparr>) (storeString v (ModelDetails.ParentModel r))
      else if matchField k ''format''
        then map_option (\<lambda>x. r\<lparr>ModelDetails.Format := x\<rparr>) (storeString v (ModelDetails.Format r))
      else Some r)"

definition ModelDetails_zero :: ModelDetails where
  "ModelDetails_zero =
     \<lparr>ParameterSize = [], QuantizationLevel = [], Family = [], ParentModel = [], Format = []\<rparr>"

definition ModelResponse_field :: "lib \<Rightarrow> string \<Rightarrow> json \<Rightarrow> ModelResponse \<Rightarrow> ModelResponse option" where
  "ModelResponse_field L k v r =
     (if matchField k ''name''
        then map_option (\<lambda>x. r\<lparr>ModelResponse.Name := x\<rparr>) (storeString v (ModelResponse.Name r))
      else if matchField k ''modified_at''
        then map_option (\<lambda>x. r\<lparr>ModelResponse.ModifiedAt := x\<rparr>) (storeTime L v (ModelResponse.ModifiedAt r))
      else if matchField k ''size''
        then map_option (\<lambda>x. r\<lparr>ModelResponse.Size := x\<rparr>) (storeInt v (ModelResponse.Size r))
      else if matchField k ''digest''
        then map_option (\<lambda>x. r\<lparr>ModelResponse.Digest := x\<rparr>) (storeString v (ModelResponse.Digest r))
      else if matchField k ''details''
        then map_option (\<lambda>x. r\<lparr>ModelResponse.Details := x\<rparr>) (storeStruct ModelDetails_field v (ModelResponse.Details r))
      else Some r)"

definition ModelResponse_zero :: ModelResponse where
  "ModelResponse_zero =
     \<lparr>Name = [], ModifiedAt = Instant 0, Size = 0, Digest = [], Details = ModelDetails_zero\<rparr>"

definition storeModels ::
  "lib \<Rightarrow> json \<Rightarrow> ModelResponse list \<times> ModelResponse list
     \<Rightarrow> (ModelResponse list \<times> ModelResponse list) option" where
  "storeModels L = storeList (storeStruct (ModelResponse_field L)) ModelResponse_zero"

text \<open>The field functions of the structs with a slice work on the struct together with
  the earlier elements in the backing array of that slice.\<close>

definition ListModelsResponse_field ::
  "lib \<Rightarrow> string \<Rightarrow> json \<Rightarrow> ListModelsResponse \<times> ModelResponse list
     \<Rightarrow> (ListModelsResponse \<times> ModelResponse list) option" where
  "ListModelsResponse_field L k v st =
     (case st of (r, spare) \<Rightarrow>
        if matchField k ''models''
        then map_option (\<lambda>x. (r\<lparr>ListModelsResponse.Models := fst x\<rparr>, snd x))
               (storeModels L v (ListModelsResponse.Models r, spare))
        else Some (r, spare))"

definition PSResponse_field ::
  "lib \<Rightarrow> string \<Rightarrow> json \<Rightarrow> PSResponse \<times> ModelResponse list
     \<Rightarrow> (PSResponse \<times> ModelResponse list) option" where
  "PSResponse_field L k v st =
     (case st of (r, spare) \<Rightarrow>
        if matchField k ''models''
        then map_option (\<lambda>x. (r\<lparr>PSResponse.Models := fst x\<rparr>, snd x))
               (storeModels L v (PSResponse.Models r, spare))
        else Some (r, spare))"

definition EmbeddingResponse_field ::
  "lib \<Rightarrow> string \<Rightarrow> json \<Rightarrow> EmbeddingResponse \<times> real list
     \<Rightarrow> (EmbeddingResponse \<times> real list) option" where
  "EmbeddingResponse_field L k v st =
     (case st of (r, spare) \<Rightarrow>
        if matchField k ''embedding''
        then map_option (\<lambda>x. (r\<lparr>EmbeddingResponse.Embedding := fst x\<rparr>, snd x))
               (storeList (storeFloat L) 0 v (EmbeddingResponse.Embedding r, spare))
        else Some (r, spare))"

definition GenerateResponse_field ::
  "lib \<Rightarrow> string \<Rightarrow> json \<Rightarrow> GenerateResponse \<times> int list
     \<Rightarrow> (GenerateResponse \<times> int list) option" where
  "GenerateResponse_field L k v st =
     (case st of (r, spare) \<Rightarrow>
      if matchField k ''model''
        then map_option (\<lambda>x. (r\<lparr>GenerateResponse.Model := x\<rparr>, spare)) (storeString v (GenerateResponse.Model r))
      else if matchField k ''created_at''
        then map_option (\<lambda>x. (r\<lparr>GenerateResponse.CreatedAt := x\<rparr>, spare)) (storeTime L v (GenerateResponse.CreatedAt r))
      else if matchField k ''response''
        then map_option (\<lambda>x. (r\<lparr>GenerateResponse.Response := x\<rparr>, spare)) (storeString v (GenerateResponse.Response r))
      else if matchField k ''done''
        then map_option (\<lambda>x. (r\<lparr>GenerateResponse.Done := x\<rparr>, spare)) (storeBool v (GenerateResponse.Done r))
      else if matchField k ''context''
        then map_option (\<lambda>x. (r\<lparr>GenerateResponse.Context := fst x\<rparr>, snd x))
               (storeList storeInt 0 v (GenerateResponse.Context r, spare))
      else if matchField k ''total_duration''
        then map_option (\<lambda>x. (r\<lparr>GenerateResponse.TotalDuration := x\<rparr>, spare)) (storeInt v (GenerateResponse.TotalDuration r))
      else if matchField k ''load_duration''
        then map_option (\<lambda>x. (r\<lparr>GenerateResponse.LoadDuration := x\<rparr>, spare)) (storeInt v (GenerateResponse.LoadDuration r))
      else if matchField k ''prompt_eval_count''
        then map_option (\<lambda>x. (r\<lparr>GenerateResponse.PromptEvalCount := x\<rparr>, spare)) (storeInt v (GenerateResponse.PromptEvalCount r))
      else if matchField k ''prompt_eval_duration''
        then map_option (\<lambda>x. (r\<lparr>GenerateResponse.PromptEvalDuration := x\<rparr>, spare)) (storeInt v (GenerateResponse.PromptEvalDuration r))
      else if matchField k ''eval_count''
        then map_option (\<lambda>x. (r\<lparr>GenerateResponse.EvalCount := x\<rparr>, spare)) (storeInt v (GenerateResponse.EvalCount r))
      else if matchField k ''eval_duration''
        then map_option (\<lambda>x. (r\<lparr>GenerateResponse.EvalDuration := x\<rparr>, spare)) (storeInt v (GenerateResponse.EvalDuration r))
      else Some (r, spare))"

definition GenerateResponse_zero :: GenerateResponse where
  "GenerateResponse_zero =
     \<lparr>GenerateResponse.Model = [], CreatedAt = Instant 0, Response = [], Done = False,
      Context = [], TotalDuration = 0, LoadDuration = 0, PromptEvalCount = 0,
      PromptEvalDuration = 0, EvalCount = 0, EvalDuration = 0\<rparr>"

definition ChatResponse_field :: "lib \<Rightarrow> string \<Rightarrow> json \<Rightarrow> ChatResponse \<Rightarrow> ChatResponse option" where
  "ChatResponse_field L k v r =
     (if matchField k ''model''
        then map_option (\<lambda>x. r\<lparr>ChatResponse.Model := x\<rparr>) (storeString v (ChatResponse.Model r))
      else if matchField k ''created_at''
        then map_option (\<lambda>x. r\<lparr>ChatResponse.CreatedAt := x\<rparr>) (storeTime L v (ChatResponse.CreatedAt r))
      else if matchField k ''message''
        then map_option (\<lambda>x. r\<lparr>ChatResponse.Message := x\<rparr>) (storeStruct Message_field v (ChatResponse.Message r))
      else if matchField k ''done''
        then map_option (\<lambda>x. r\<lparr>ChatResponse.Done := x\<rparr>) (storeBool v (ChatResponse.Done r))
      else if matchField k ''total_duration''
        then map_option (\<lambda>x. r\<lparr>ChatResponse.TotalDuration := x\<rparr>) (storeInt v (ChatResponse.TotalDuration r))
      else if matchField k ''load_duration''
        then map_option (\<lambda>x. r\<lparr>ChatResponse.LoadDuration := x\<rparr>) (storeInt v (ChatResponse.LoadDuration r))
      else if matchField k ''prompt_eval_count''
        then map_option (\<lambda>x. r\<lparr>ChatResponse.PromptEvalCount := x\<rparr>) (storeInt v (ChatResponse.PromptEvalCount r))
      else if matchField k ''prompt_eval_duration''
        then map_option (\<lambda>x. r\<lparr>ChatResponse.PromptEvalDuration := x\<rparr>) (storeInt v (ChatResponse.PromptEvalDuration r))
      else if matchField k ''eval_count''
        then map_option (\<lambda>x. r\<lparr>ChatResponse.EvalCount := x\<rparr>) (storeInt v (ChatResponse.EvalCount r))
      else if matchField k ''eval_duration''
        then map_option (\<lambda>x. r\<lparr>ChatResponse.EvalDuration := x\<rparr>) (storeInt v (ChatResponse.EvalDuration r))
      else Some r)"

definition ChatResponse_zero :: ChatResponse where
  "ChatResponse_zero =
     \<lparr>ChatResponse.Model = [], CreatedAt = Instant 0, Message = Message_zero, Done = False,
      TotalDuration = 0, LoadDuration = 0, PromptEvalCount = 0, PromptEvalDuration = 0,
      EvalCount = 0, EvalDuration = 0\<rparr>"

definition PullProgress_field :: "string \<Rightarrow> json \<Rightarrow> PullProgress \<Rightarrow> PullProgress option" where
  "PullProgress_field k v r =
     (if matchField k ''status''
        then map_option (\<lambda>x. r\<lparr>PullProgress.Status := x\<rparr>) (storeString v (PullProgress.Status r))
      else if matchField k ''digest''
        then map_option (\<lambda>x. r\<lparr>PullProgress.Digest := x\<rparr>) (storeString v (PullProgress.Digest r))
      else if matchField k ''total''
        then map_option (\<lambda>x. r\<lparr>PullProgress.Total := x\<rparr>) (storeInt v (PullProgress.Total r))
      else if matchField k ''completed''
        then map_option (\<lambda>x. r\<lparr>PullProgress.Completed := x\<rparr>) (storeInt v (PullProgress.Completed r))
      else Some r)"

definition PullProgress_zero :: PullProgress where
  "PullProgress_zero = \<lparr>PullProgress.Status = [], Digest = [], Total = 0, Completed = 0\<rparr>"

definition CreateProgress_field :: "string \<Rightarrow> json \<Rightarrow> CreateProgress \<Rightarrow> CreateProgress option" where
  "CreateProgress_field k v r =
     (if matchField k ''status''
        then map_option (\<lambda>x. r\<lparr>CreateProgress.Status := x\<rparr>) (storeString v (CreateProgress.Status r))
      else Some r)"

definition CreateProgress_zero :: CreateProgress where
  "CreateProgress_zero = \<lparr>CreateProgress.Status = []\<rparr>"

definition PushProgress_field :: "string \<Rightarrow> json \<Rightarrow> PushProgress \<Rightarrow> PushProgress option" where
  "PushProgress_field k v r =
     (if matchField k ''status''
        then map_option (\<lambda>x. r\<lparr>PushProgress.Status := x\<rparr>) (storeString v (PushProgress.Status r))
      else if matchField k ''digest''
        then map_option (\<lambda>x. r\<lparr>PushProgress.Digest := x\<rparr>) (storeString v (PushProgress.Digest r))
      else if matchField k ''total''
        then map_option (\<lambda>x. r\<lparr>PushProgress.Total := x\<rparr>) (storeInt v (PushProgress.Total r))
      else if matchField k ''completed''
        then map_option (\<lambda>x. r\<lparr>PushProgress.Completed := x\<rparr>) (storeInt v (PushProgress.Completed r))
      else Some r)"

definition PushProgress_zero :: PushProgress where
  "PushProgress_zero = \<lparr>PushProgress.Status = [], Digest = [], Total = 0, Completed = 0\<rparr>"

text \<open>\<^verbatim>\<open>json.Unmarshal\<close> into a fresh variable of each response type.\<close>

definition Unmarshal_ListModelsResponse :: "lib \<Rightarrow> string \<Rightarrow> error + ListModelsResponse" where
  "Unmarshal_ListModelsResponse L data =
     map_sum id fst
       (Unmarshal (ListModelsResponse_field L) (\<lparr>ListModelsResponse.Models = []\<rparr>, []) data)"

definition Unmarshal_PSResponse :: "lib \<Rightarrow> string \<Rightarrow> error + PSResponse" where
  "Unmarshal_PSResponse L data =
     map_sum id fst (Unmarshal (PSResponse_field L) (\<lparr>PSResponse.Models = []\<rparr>, []) data)"

definition Unmarshal_ModelResponse :: "lib \<Rightarrow> string \<Rightarrow> error + ModelResponse" where
  "Unmarshal_ModelResponse L = Unmarshal (ModelResponse_field L) ModelResponse_zero"

definition Unmarshal_EmbeddingResponse :: "lib \<Rightarrow> string \<Rightarrow> error + EmbeddingResponse" where
  "Unmarshal_EmbeddingResponse L data =
     map_sum id fst (Unmarshal (EmbeddingResponse_field L) (\<lparr>Embedding = []\<rparr>, []) data)"

definition Unmarshal_GenerateResponse :: "lib \<Rightarrow> string \<Rightarrow> error + GenerateResponse" where
  "Unmarshal_GenerateResponse L data =
     map_sum id fst (Unmarshal (GenerateResponse_field L) (GenerateResponse_zero, []) data)"

definition Unmarshal_ChatResponse :: "lib \<Rightarrow> string \<Rightarrow> error + ChatResponse" where
  "Unmarshal_ChatResponse L = Unmarshal (ChatResponse_field L) ChatResponse_zero"

definition Unmarshal_PullProgress :: "string \<Rightarrow> error + PullProgress" where
  "Unmarshal_PullProgress = Unmarshal PullProgress_field PullProgress_zero"

definition Unmarshal_CreateProgress :: "string \<Rightarrow> error + CreateProgress" where
  "Unmarshal_CreateProgress = Unmarshal CreateProgress_field CreateProgress_zero"

definition Unmarshal_PushProgress :: "string \<Rightarrow> error + PushProgress" where
  "Unmarshal_PushProgress = Unmarshal PushProgress_field PushProgress_zero"


section \<open>The client\<close>

text \<open>
  A context is observed at the points where the code selects on \<^verbatim>\<open>ctx.Done()\<close>: the
  value at \<open>k\<close> is what \<^verbatim>\<open>ctx.Err()\<close> holds when the streaming loop looks at the context
  for the line number \<open>k\<close> (counted from 0), \<open>None\<close> while the context is not done.
\<close>

type_synonym Context = "nat \<Rightarrow> error option"

record Request =
  Ctx :: Context
  Method :: string
  URL :: string
  Header :: "(string \<times> string) list"
  Body :: "json option"

record Response =
  StatusCode :: int
  Body :: Reader

text \<open>The HTTP client of a \<^verbatim>\<open>Client\<close> is given by its method \<^verbatim>\<open>Do\<close>: a transport error or
  a response. Every call of it is recorded, in the list of requests that an operation
  returns next to its result.\<close>

record Client =
  httpClient :: "Request \<Rightarrow> error + Response"
  baseURL :: string

definition Header_Set :: "string \<Rightarrow> string \<Rightarrow> (string \<times> string) list \<Rightarrow> (string \<times> string) list" where
  "Header_Set k v h = filter (\<lambda>kv. fst kv \<noteq> k) h @ [(k, v)]"

definition NewRequestWithContext ::
  "lib \<Rightarrow> Context \<Rightarrow> string \<Rightarrow> string \<Rightarrow> json option \<Rightarrow> error + Request" where
  "NewRequestWithContext L ctx method u body =
     (case NewRequestErr L method u of
        Some e \<Rightarrow> Inl e
      | None \<Rightarrow> Inr \<lparr>Ctx = ctx, Method = method, URL = u, Header = [], Body = body\<rparr>)"

definition set_headers :: "Request \<Rightarrow> Request" where
  "set_headers req =
     req\<lparr>Header := Header_Set ''Accept'' ''application/json''
                       (Header_Set ''Content-Type'' ''application/json'' (Header req))\<rparr>"

definition MethodGet :: string where "MethodGet = ''GET''"
definition MethodPost :: string where "MethodPost = ''POST''"
definition MethodDelete :: string where "MethodDelete = ''DELETE''"

text \<open>
  \<^verbatim>\<open>do\<close>: the request body is nil or a value to encode; the response target is nil or a
  pointer to a fresh variable, given by the decoder of its type. The result holds the
  decoded value when the body was decoded, and nothing when the variable was left as
  it was.
\<close>

definition do ::
  "lib \<Rightarrow> Client \<Rightarrow> Context \<Rightarrow> string \<Rightarrow> string \<Rightarrow> payload option
     \<Rightarrow> (string \<Rightarrow> error + 'a) option \<Rightarrow> (error + 'a option) \<times> Request list" where
  "do L c ctx method path reqBody resBody =
     (case JoinPath L (baseURL c) path of
        Inl err \<Rightarrow> (Inl (Wrapf ''failed to construct URL: %w'' [] err), [])
      | Inr u \<Rightarrow>
     (case (case reqBody of
              None \<Rightarrow> Inr None
            | Some v \<Rightarrow> (case Marshal L v of Inl err \<Rightarrow> Inl err | Inr jsonData \<Rightarrow> Inr (Some jsonData))) of
        Inl err \<Rightarrow> (Inl (Wrapf ''failed to marshal request body: %w'' [] err), [])
      | Inr body \<Rightarrow>
     (case NewRequestWithContext L ctx method u body of
        Inl err \<Rightarrow> (Inl (Wrapf ''failed to create request: %w'' [] err), [])
      | Inr req0 \<Rightarrow>
     (let req = set_headers req0 in
      case httpClient c req of
        Inl err \<Rightarrow> (Inl (Wrapf ''failed to execute request: %w'' [] err), [req])
      | Inr resp \<Rightarrow>
     (case ReadAll (Response.Body resp) of
        Inl err \<Rightarrow> (Inl (Wrapf ''failed to read response body: %w'' [] err), [req])
      | Inr respBody \<Rightarrow>
          if StatusCode resp < 200 \<or> StatusCode resp \<ge> 300
          then (Inl (parseErrorResponse (StatusCode resp) respBody), [req])
          else (case resBody of
                  None \<Rightarrow> (Inr None, [req])
                | Some target \<Rightarrow>
                    if respBody = [] then (Inr None, [req])
                    else (case target respBody of
                            Inl err \<Rightarrow>
                              (Inl (Wrapf ''failed to unmarshal response body: %w'' [] err), [req])
                          | Inr v \<Rightarrow> (Inr (Some v), [req]))))))))"

text \<open>The end of a unary operation: the error of \<^verbatim>\<open>do\<close> wrapped, or the response
  variable, which holds its zero value when \<^verbatim>\<open>do\<close> did not decode into it.\<close>

definition finish ::
  "string \<Rightarrow> arg list \<Rightarrow> 'a \<Rightarrow> (error + 'a option) \<times> Request list \<Rightarrow> (error + 'a) \<times> Request list" where
  "finish fmt as zero r =
     (case fst r of
        Inl err \<Rightarrow> (Inl (Wrapf fmt as err), snd r)
      | Inr None \<Rightarrow> (Inr zero, snd r)
      | Inr (Some response) \<Rightarrow> (Inr response, snd r))"

definition List :: "lib \<Rightarrow> Client \<Rightarrow> Context \<Rightarrow> (error + ListModelsResponse) \<times> Request list" where
  "List L c ctx =
     finish ''failed to list models: %w'' [] \<lparr>ListModelsResponse.Models = []\<rparr>
       (do L c ctx MethodGet ''/api/tags'' None (Some (Unmarshal_ListModelsResponse L)))"

definition Show ::
  "lib \<Rightarrow> Client \<Rightarrow> Context \<Rightarrow> string \<Rightarrow> (error + ModelResponse) \<times> Request list" where
  "Show L c ctx modelName =
     (if modelName = [] then (Inl (Errorf ''model name cannot be empty'' []), [])
      else finish ''failed to show model %q: %w'' [S modelName] ModelResponse_zero
             (do L c ctx MethodPost ''/api/show''
                (Some (ShowRequestV \<lparr>ShowRequest.Model = modelName\<rparr>))
                (Some (Unmarshal_ModelResponse L))))"

definition Copy ::
  "lib \<Rightarrow> Client \<Rightarrow> Context \<Rightarrow> string \<Rightarrow> string \<Rightarrow> error option \<times> Request list" where
  "Copy L c ctx source destination =
     (if source = [] then (Some (Errorf ''source model name cannot be empty'' []), [])
      else if destination = []
        then (Some (Errorf ''destination model name cannot be empty'' []), [])
      else (case do L c ctx MethodPost ''/api/copy''
                   (Some (CopyRequestV \<lparr>Source = source, Destination = destination\<rparr>))
                   (None :: (string \<Rightarrow> error + unit) option) of
              (Inl err, sent) \<Rightarrow>
                (Some (Wrapf ''failed to copy model from %q to %q: %w''
                         [S source, S destination] err), sent)
            | (Inr _, sent) \<Rightarrow> (None, sent)))"

definition Delete ::
  "lib \<Rightarrow> Client \<Rightarrow> Context \<Rightarrow> string \<Rightarrow> error option \<times> Request list" where
  "Delete L c ctx modelName =
     (if modelName = [] then (Some (Errorf ''model name cannot be empty'' []), [])
      else (case do L c ctx MethodDelete ''/api/delete''
                   (Some (DeleteRequestV \<lparr>DeleteRequest.Model = modelName\<rparr>))
                   (None :: (string \<Rightarrow> error + unit) option) of
              (Inl err, sent) \<Rightarrow>
                (Some (Wrapf ''failed to delete model %q: %w'' [S modelName] err), sent)
            | (Inr _, sent) \<Rightarrow> (None, sent)))"

definition PS :: "lib \<Rightarrow> Client \<Rightarrow> Context \<Rightarrow> (error + PSResponse) \<times> Request list" where
  "PS L c ctx =
     finish ''failed to get process status: %w'' [] \<lparr>PSResponse.Models = []\<rparr>
       (do L c ctx MethodGet ''/api/ps'' None (Some (Unmarshal_PSResponse L)))"


subsection \<open>Requests passed by pointer\<close>

text \<open>
  \<^verbatim>\<open>Generate\<close>, \<^verbatim>\<open>Chat\<close>, their streaming variants and \<^verbatim>\<open>Embeddings\<close> take a pointer to the
  request. The requests live in a store; a pointer is nil (\<open>None\<close>) or the index of a
  cell of the store. \<^verbatim>\<open>reqCopy := *req\<close> allocates a new cell, and the assignment to
  \<^verbatim>\<open>reqCopy.Stream\<close> writes to it. Each of these operations returns the store as it
  leaves it.
\<close>

type_synonym 'a store = "'a list"

definition new :: "'a \<Rightarrow> 'a store \<Rightarrow> nat \<times> 'a store" where
  "new v h = (length h, h @ [v])"

definition Generate ::
  "lib \<Rightarrow> Client \<Rightarrow> Context \<Rightarrow> GenerateRequest store \<Rightarrow> nat option
     \<Rightarrow> ((error + GenerateResponse) \<times> Request list) \<times> GenerateRequest store" where
  "Generate L c ctx h req =
     (case req of
        None \<Rightarrow> ((Inl (Errorf ''generate request cannot be nil'' []), []), h)
      | Some p \<Rightarrow>
          if GenerateRequest.Model (h ! p) = []
          then ((Inl (Errorf ''model name cannot be empty'' []), []), h)
          else (let (reqCopy, h1) = new (h ! p) h;
                    h2 = h1[reqCopy := (h1 ! reqCopy)\<lparr>GenerateRequest.Stream := False\<rparr>]
                in (finish ''failed to generate text: %w'' [] GenerateResponse_zero
                      (do L c ctx MethodPost ''/api/generate''
                         (Some (GenerateRequestV (h2 ! reqCopy)))
                         (Some (Unmarshal_GenerateResponse L))),
                    h2)))"

definition Chat ::
  "lib \<Rightarrow> Client \<Rightarrow> Context \<Rightarrow> ChatRequest store \<Rightarrow> nat option
     \<Rightarrow> ((error + ChatResponse) \<times> Request list) \<times> ChatRequest store" where
  "Chat L c ctx h req =
     (case req of
        None \<Rightarrow> ((Inl (Errorf ''chat request cannot be nil'' []), []), h)
      | Some p \<Rightarrow>
          if ChatRequest.Model (h ! p) = []
          then ((Inl (Errorf ''model name cannot be empty'' []), []), h)
          else if length (ChatRequest.Messages (h ! p)) = 0
          then ((Inl (Errorf ''at least one message is required'' []), []), h)
          else (let (reqCopy, h1) = new (h ! p) h;
                    h2 = h1[reqCopy := (h1 ! reqCopy)\<lparr>ChatRequest.Stream := False\<rparr>]
                in (finish ''failed to chat: %w'' [] ChatResponse_zero
                      (do L c ctx MethodPost ''/api/chat''
                         (Some (ChatRequestV (h2 ! reqCopy)))
                         (Some (Unmarshal_ChatResponse L))),
                    h2)))"

definition Embeddings ::
  "lib \<Rightarrow> Client \<Rightarrow> Context \<Rightarrow> EmbeddingRequest store \<Rightarrow> nat option
     \<Rightarrow> ((error + EmbeddingResponse) \<times> Request list) \<times> EmbeddingRequest store" where
  "Embeddings L c ctx h req =
     (case req of
        None \<Rightarrow> ((Inl (Errorf ''embedding request cannot be nil'' []), []), h)
      | Some p \<Rightarrow>
          if EmbeddingRequest.Model (h ! p) = []
          then ((Inl (Errorf ''model name cannot be empty'' []), []), h)
          else if EmbeddingRequest.Prompt (h ! p) = []
          then ((Inl (Errorf ''prompt cannot be empty'' []), []), h)
          else (finish ''failed to generate embeddings: %w'' [] \<lparr>Embedding = []\<rparr>
                  (do L c ctx MethodPost ''/api/embeddings''
                     (Some (EmbeddingRequestV (h ! p)))
                     (Some (Unmarshal_EmbeddingResponse L))),
                h))"

section \<open>The streaming operations\<close>

text \<open>
  The five streaming operations share their text from the encoding of the request to
  the check of the status code, up to the word that names the operation in the
  messages, the path and the request. \<^verbatim>\<open>stream_open\<close> is that text: it ends with an
  error or with the body of a response whose status is 2xx.
\<close>

definition stream_open ::
  "lib \<Rightarrow> Client \<Rightarrow> Context \<Rightarrow> string \<Rightarrow> string \<Rightarrow> payload \<Rightarrow> (error + Reader) \<times> Request list" where
  "stream_open L c ctx name path req =
     (case Marshal L req of
        Inl err \<Rightarrow> (Inl (Wrapf (''failed to marshal '' @ name @ '' request: %w'') [] err), [])
      | Inr jsonData \<Rightarrow>
     (case JoinPath L (baseURL c) path of
        Inl err \<Rightarrow> (Inl (Wrapf ''failed to construct URL: %w'' [] err), [])
      | Inr u \<Rightarrow>
     (case NewRequestWithContext L ctx MethodPost u (Some jsonData) of
        Inl err \<Rightarrow> (Inl (Wrapf ''failed to create request: %w'' [] err), [])
      | Inr httpReq0 \<Rightarrow>
     (let httpReq = set_headers httpReq0 in
      case httpClient c httpReq of
        Inl err \<Rightarrow>
          (Inl (Wrapf (''failed to execute '' @ name @ '' request: %w'') [] err), [httpReq])
      | Inr resp \<Rightarrow>
          if StatusCode resp < 200 \<or> StatusCode resp \<ge> 300
          then (case ReadAll (Response.Body resp) of
                  Inl readErr \<Rightarrow>
                    (Inl (Wrapf (name @ '' request failed with status %d and could not read response body: %w'')
                            [I (StatusCode resp)] readErr), [httpReq])
                | Inr respBody \<Rightarrow>
                    (Inl (parseErrorResponse (StatusCode resp) respBody), [httpReq]))
          else (Inr (Response.Body resp), [httpReq])))))"

text \<open>After the loop: \<^verbatim>\<open>scanner.Err()\<close>.\<close>

definition stream_close :: "string \<Rightarrow> Scanner \<Rightarrow> error option" where
  "stream_close name sc =
     (case scanErr sc of
        Some e \<Rightarrow> Some (Wrapf (''error reading '' @ name @ '' response stream: %w'') [] e)
      | None \<Rightarrow> None)"

lemma IndexByte_less: "IndexByte xs c = Some i \<Longrightarrow> i < length xs"
  by (induction xs arbitrary: i) (auto split: if_splits)

lemma Scan_shorter: "Scan sc = (Some t, sc') \<Longrightarrow> length (buf sc') < length (buf sc)"
  by (auto simp: Scan_def split: option.splits if_splits dest: IndexByte_less)

text \<open>
  The loops. A callback acts on the state of the caller, which the loop threads through
  its invocations; it is taken not to write through the pointer that the callbacks of
  \<^verbatim>\<open>GenerateStream\<close> and \<^verbatim>\<open>ChatStream\<close> receive. The loops of \<^verbatim>\<open>Pull\<close>, \<^verbatim>\<open>Create\<close> and
  \<^verbatim>\<open>Push\<close> are one text up to the type of the record, and so are those of
  \<^verbatim>\<open>GenerateStream\<close> and \<^verbatim>\<open>ChatStream\<close>, which look at the context before each line
  and leave the loop after a record whose \<^verbatim>\<open>Done\<close> is set. A loop ends by a
  \<^verbatim>\<open>return\<close> inside it or by leaving it with the scanner as it is then.
\<close>

function progress_loop ::
  "(string \<Rightarrow> error + 'r) \<Rightarrow> ('r \<Rightarrow> 's \<Rightarrow> 's) \<Rightarrow> Scanner \<Rightarrow> 's \<Rightarrow> Scanner \<times> 's" where
  "progress_loop unmarshal fn sc st =
     (case Scan sc of
        (None, sc') \<Rightarrow> (sc', st)
      | (Some text, sc') \<Rightarrow>
          (let line = TrimSpace text in
           if line = [] then progress_loop unmarshal fn sc' st
           else (case unmarshal line of
                   Inl e \<Rightarrow> progress_loop unmarshal fn sc' st
                 | Inr progress \<Rightarrow> progress_loop unmarshal fn sc' (fn progress st))))"
  by pat_completeness auto
termination
  by (relation "measure (\<lambda>(unmarshal, fn, sc, st). length (buf sc))")
     (auto dest: Scan_shorter [OF sym])

datatype 's exit = Returned error 's | LeftLoop Scanner 's

function response_loop ::
  "(string \<Rightarrow> error + 'r) \<Rightarrow> ('r \<Rightarrow> bool) \<Rightarrow> Context \<Rightarrow> ('r \<Rightarrow> 's \<Rightarrow> 's) \<Rightarrow> nat
     \<Rightarrow> Scanner \<Rightarrow> 's \<Rightarrow> 's exit" where
  "response_loop unmarshal done ctx fn k sc st =
     (case Scan sc of
        (None, sc') \<Rightarrow> LeftLoop sc' st
      | (Some text, sc') \<Rightarrow>
          (case ctx k of
             Some e \<Rightarrow> Returned e st
           | None \<Rightarrow>
               (let line = TrimSpace text in
                if line = [] then response_loop unmarshal done ctx fn (Suc k) sc' st
                else (case unmarshal line of
                        Inl e \<Rightarrow> response_loop unmarshal done ctx fn (Suc k) sc' st
                      | Inr response \<Rightarrow>
                          if done response then LeftLoop sc' (fn response st)
                          else response_loop unmarshal done ctx fn (Suc k) sc'
                                 (fn response st)))))"
  by pat_completeness auto
termination
  by (relation "measure (\<lambda>(unmarshal, done, ctx, fn, k, sc, st). length (buf sc))")
     (auto dest: Scan_shorter [OF sym])

declare progress_loop.simps [simp del] response_loop.simps [simp del]

definition Pull ::
  "lib \<Rightarrow> Client \<Rightarrow> Context \<Rightarrow> string \<Rightarrow> (PullProgress \<Rightarrow> 's \<Rightarrow> 's) option \<Rightarrow> 's
     \<Rightarrow> error option \<times> Request list \<times> 's" where
  "Pull L c ctx modelName fn st =
     (if modelName = [] then (Some (Errorf ''model name cannot be empty'' []), [], st)
      else (case fn of
        None \<Rightarrow> (Some (Errorf ''progress callback function cannot be nil'' []), [], st)
      | Some f \<Rightarrow>
          (case stream_open L c ctx ''pull'' ''/api/pull'' (PullRequestV \<lparr>PullRequest.Model = modelName\<rparr>) of
             (Inl e, sent) \<Rightarrow> (Some e, sent, st)
           | (Inr body, sent) \<Rightarrow>
               (case progress_loop Unmarshal_PullProgress f (NewScanner body) st of
                  (sc, st') \<Rightarrow> (stream_close ''pull'' sc, sent, st')))))"

definition Create ::
  "lib \<Rightarrow> Client \<Rightarrow> Context \<Rightarrow> string \<Rightarrow> string \<Rightarrow> (CreateProgress \<Rightarrow> 's \<Rightarrow> 's) option \<Rightarrow> 's
     \<Rightarrow> error option \<times> Request list \<times> 's" where
  "Create L c ctx modelName modelfileContent fn st =
     (if modelName = [] then (Some (Errorf ''model name cannot be empty'' []), [], st)
      else if modelfileContent = []
        then (Some (Errorf ''modelfile content cannot be empty'' []), [], st)
      else (case fn of
        None \<Rightarrow> (Some (Errorf ''progress callback function cannot be nil'' []), [], st)
      | Some f \<Rightarrow>
          (case stream_open L c ctx ''create'' ''/api/create'' (CreateRequestV \<lparr>CreateRequest.Model = modelName, Modelfile = modelfileContent\<rparr>) of
             (Inl e, sent) \<Rightarrow> (Some e, sent, st)
           | (Inr body, sent) \<Rightarrow>
               (case progress_loop Unmarshal_CreateProgress f (NewScanner body) st of
                  (sc, st') \<Rightarrow> (stream_close ''create'' sc, sent, st')))))"

definition Push ::
  "lib \<Rightarrow> Client \<Rightarrow> Context \<Rightarrow> string \<Rightarrow> (PushProgress \<Rightarrow> 's \<Rightarrow> 's) option \<Rightarrow> 's
     \<Rightarrow> error option \<times> Request list \<times> 's" where
  "Push L c ctx modelName fn st =
     (if modelName = [] then (Some (Errorf ''model name cannot be empty'' []), [], st)
      else (case fn of
        None \<Rightarrow> (Some (Errorf ''progress callback function cannot be nil'' []), [], st)
      | Some f \<Rightarrow>
          (case stream_open L c ctx ''push'' ''/api/push'' (PushRequestV \<lparr>PushRequest.Model = modelName\<rparr>) of
             (Inl e, sent) \<Rightarrow> (Some e, sent, st)
           | (Inr body, sent) \<Rightarrow>
               (case progress_loop Unmarshal_PushProgress f (NewScanner body) st of
                  (sc, st') \<Rightarrow> (stream_close ''push'' sc, sent, st')))))"

definition GenerateStream ::
  "lib \<Rightarrow> Client \<Rightarrow> Context \<Rightarrow> GenerateRequest store \<Rightarrow> nat option
     \<Rightarrow> (GenerateResponse \<Rightarrow> 's \<Rightarrow> 's) option \<Rightarrow> 's
     \<Rightarrow> (error option \<times> Request list \<times> 's) \<times> GenerateRequest store" where
  "GenerateStream L c ctx h req fn st =
     (case req of
        None \<Rightarrow> ((Some (Errorf ''generate request cannot be nil'' []), [], st), h)
      | Some p \<Rightarrow>
          if GenerateRequest.Model (h ! p) = []
          then ((Some (Errorf ''model name cannot be empty'' []), [], st), h)
          else (case fn of
            None \<Rightarrow> ((Some (Errorf ''callback function cannot be nil'' []), [], st), h)
          | Some f \<Rightarrow>
              (let (reqCopy, h1) = new (h ! p) h;
                   h2 = h1[reqCopy := (h1 ! reqCopy)\<lparr>GenerateRequest.Stream := True\<rparr>]
               in case stream_open L c ctx ''generate'' ''/api/generate''
                         (GenerateRequestV (h2 ! reqCopy)) of
                    (Inl e, sent) \<Rightarrow> ((Some e, sent, st), h2)
                  | (Inr body, sent) \<Rightarrow>
                      (case response_loop (Unmarshal_GenerateResponse L) GenerateResponse.Done ctx f 0
                              (NewScanner body) st of
                         Returned e st' \<Rightarrow> ((Some e, sent, st'), h2)
                       | LeftLoop sc st' \<Rightarrow>
                           ((stream_close ''generate'' sc, sent, st'), h2)))))"

definition ChatStream ::
  "lib \<Rightarrow> Client \<Rightarrow> Context \<Rightarrow> ChatRequest store \<Rightarrow> nat option
     \<Rightarrow> (ChatResponse \<Rightarrow> 's \<Rightarrow> 's) option \<Rightarrow> 's
     \<Rightarrow> (error option \<times> Request list \<times> 's) \<times> ChatRequest store" where
  "ChatStream L c ctx h req fn st =
     (case req of
        None \<Rightarrow> ((Some (Errorf ''chat request cannot be nil'' []), [], st), h)
      | Some p \<Rightarrow>
          if ChatRequest.Model (h ! p) = []
          then ((Some (Errorf ''model name cannot be empty'' []), [], st), h)
          else if length (ChatRequest.Messages (h ! p)) = 0
          then ((Some (Errorf ''at least one message is required'' []), [], st), h)
          else (case fn of
            None \<Rightarrow> ((Some (Errorf ''callback function cannot be nil'' []), [], st), h)
          | Some f \<Rightarrow>
              (let (reqCopy, h1) = new (h ! p) h;
                   h2 = h1[reqCopy := (h1 ! reqCopy)\<lparr>ChatRequest.Stream := True\<rparr>]
               in case stream_open L c ctx ''chat'' ''/api/chat''
                         (ChatRequestV (h2 ! reqCopy)) of
                    (Inl e, sent) \<Rightarrow> ((Some e, sent, st), h2)
                  | (Inr body, sent) \<Rightarrow>
                      (case response_loop (Unmarshal_ChatResponse L) ChatResponse.Done ctx f 0
                              (NewScanner body) st of
                         Returned e st' \<Rightarrow> ((Some e, sent, st'), h2)
                       | LeftLoop sc st' \<Rightarrow>
                           ((stream_close ''chat'' sc, sent, st'), h2)))))"

section \<open>The public operations, as one function\<close>

text \<open>
  A call of a public operation with its arguments; a callback is given by whether it
  is nil, a request by its pointer into the stores. \<^verbatim>\<open>perform\<close> runs the call with, for a
  callback that is not nil, the callback that appends the record it receives to a
  list. It keeps what all operations have in common: the error returned, if any, the
  requests handed to the HTTP client, and the records delivered to the callback, one
  per invocation, in the order of the invocations.
\<close>

datatype call =
    CallList
  | CallShow string
  | CallCopy string string
  | CallDelete string
  | CallPull string bool
  | CallCreate string string bool
  | CallPush string bool
  | CallGenerate "nat option"
  | CallGenerateStream "nat option" bool
  | CallChat "nat option"
  | CallChatStream "nat option" bool
  | CallEmbeddings "nat option"
  | CallPS

record stores =
  generateRequests :: "GenerateRequest store"
  chatRequests :: "ChatRequest store"
  embeddingRequests :: "EmbeddingRequest store"

datatype event =
    PullEvent PullProgress
  | CreateEvent CreateProgress
  | PushEvent PushProgress
  | GenerateEvent GenerateResponse
  | ChatEvent ChatResponse

record outcome =
  failed :: "error option"
  sent :: "Request list"
  delivered :: "event list"

definition err_of :: "error + 'a \<Rightarrow> error option" where
  "err_of r = (case r of Inl e \<Rightarrow> Some e | Inr v \<Rightarrow> None)"

definition unary :: "(error + 'a) \<times> Request list \<Rightarrow> outcome" where
  "unary r = \<lparr>failed = err_of (fst r), sent = snd r, delivered = []\<rparr>"

definition streamed :: "error option \<times> Request list \<times> event list \<Rightarrow> outcome" where
  "streamed r = \<lparr>failed = fst r, sent = fst (snd r), delivered = snd (snd r)\<rparr>"

definition recording :: "('r \<Rightarrow> event) \<Rightarrow> bool \<Rightarrow> ('r \<Rightarrow> event list \<Rightarrow> event list) option" where
  "recording ev given = (if given then Some (\<lambda>r tr. tr @ [ev r]) else None)"

fun perform :: "lib \<Rightarrow> Client \<Rightarrow> Context \<Rightarrow> stores \<Rightarrow> call \<Rightarrow> outcome" where
  "perform L c ctx H CallList = unary (List L c ctx)"
| "perform L c ctx H (CallShow modelName) = unary (Show L c ctx modelName)"
| "perform L c ctx H (CallCopy source destination) =
     (case Copy L c ctx source destination of
        (e, rs) \<Rightarrow> \<lparr>failed = e, sent = rs, delivered = []\<rparr>)"
| "perform L c ctx H (CallDelete modelName) =
     (case Delete L c ctx modelName of
        (e, rs) \<Rightarrow> \<lparr>failed = e, sent = rs, delivered = []\<rparr>)"
| "perform L c ctx H (CallPull modelName fn) =
     streamed (Pull L c ctx modelName (recording PullEvent fn) [])"
| "perform L c ctx H (CallCreate modelName modelfileContent fn) =
     streamed (Create L c ctx modelName modelfileContent (recording CreateEvent fn) [])"
| "perform L c ctx H (CallPush modelName fn) =
     streamed (Push L c ctx modelName (recording PushEvent fn) [])"
| "perform L c ctx H (CallGenerate req) =
     unary (fst (Generate L c ctx (generateRequests H) req))"
| "perform L c ctx H (CallGenerateStream req fn) =
     streamed (fst (GenerateStream L c ctx (generateRequests H) req
                      (recording GenerateEvent fn) []))"
| "perform L c ctx H (CallChat req) = unary (fst (Chat L c ctx (chatRequests H) req))"
| "perform L c ctx H (CallChatStream req fn) =
     streamed (fst (ChatStream L c ctx (chatRequests H) req (recording ChatEvent fn) []))"
| "perform L c ctx H (CallEmbeddings req) =
     unary (fst (Embeddings L c ctx (embeddingRequests H) req))"
| "perform L c ctx H CallPS = unary (PS L c ctx)"

section \<open>Notions used to state the properties\<close>

text \<open>A call lacks a required input: an empty model name, source, destination,
  modelfile or embedding prompt, an empty message list, a nil callback or a nil
  request.\<close>

fun missing_required :: "stores \<Rightarrow> call \<Rightarrow> bool" where
  "missing_required H CallList = False"
| "missing_required H (CallShow modelName) = (modelName = [])"
| "missing_required H (CallCopy source destination) = (source = [] \<or> destination = [])"
| "missing_required H (CallDelete modelName) = (modelName = [])"
| "missing_required H (CallPull modelName fn) = (modelName = [] \<or> \<not> fn)"
| "missing_required H (CallCreate modelName modelfileContent fn) =
     (modelName = [] \<or> modelfileContent = [] \<or> \<not> fn)"
| "missing_required H (CallPush modelName fn) = (modelName = [] \<or> \<not> fn)"
| "missing_required H (CallGenerate req) =
     (case req of None \<Rightarrow> True
      | Some p \<Rightarrow> GenerateRequest.Model (generateRequests H ! p) = [])"
| "missing_required H (CallGenerateStream req fn) =
     (case req of None \<Rightarrow> True
      | Some p \<Rightarrow> GenerateRequest.Model (generateRequests H ! p) = [] \<or> \<not> fn)"
| "missing_required H (CallChat req) =
     (case req of None \<Rightarrow> True
      | Some p \<Rightarrow> ChatRequest.Model (chatRequests H ! p) = []
                  \<or> ChatRequest.Messages (chatRequests H ! p) = [])"
| "missing_required H (CallChatStream req fn) =
     (case req of None \<Rightarrow> True
      | Some p \<Rightarrow> ChatRequest.Model (chatRequests H ! p) = []
                  \<or> ChatRequest.Messages (chatRequests H ! p) = [] \<or> \<not> fn)"
| "missing_required H (CallEmbeddings req) =
     (case req of None \<Rightarrow> True
      | Some p \<Rightarrow> EmbeddingRequest.Model (embeddingRequests H ! p) = []
                  \<or> EmbeddingRequest.Prompt (embeddingRequests H ! p) = [])"
| "missing_required H CallPS = False"



text \<open>The word by which the messages of a streaming operation name it.\<close>

fun stream_name :: "call \<Rightarrow> string" where
  "stream_name (CallPull modelName fn) = ''pull''"
| "stream_name (CallCreate modelName modelfileContent fn) = ''create''"
| "stream_name (CallPush modelName fn) = ''push''"
| "stream_name (CallGenerateStream req fn) = ''generate''"
| "stream_name (CallChatStream req fn) = ''chat''"
| "stream_name _ = []"

text \<open>The request of a call can be encoded: the options of a generate or chat request
  hold nothing that JSON cannot express. The other requests hold strings only.\<close>

fun encodable :: "stores \<Rightarrow> call \<Rightarrow> bool" where
  "encodable H (CallGenerate req) =
     (case req of None \<Rightarrow> True
      | Some p \<Rightarrow> (case GenerateRequest.Options (generateRequests H ! p) of
                    Inl e \<Rightarrow> False | Inr os \<Rightarrow> True))"
| "encodable H (CallGenerateStream req fn) =
     (case req of None \<Rightarrow> True
      | Some p \<Rightarrow> (case GenerateRequest.Options (generateRequests H ! p) of
                    Inl e \<Rightarrow> False | Inr os \<Rightarrow> True))"
| "encodable H (CallChat req) =
     (case req of None \<Rightarrow> True
      | Some p \<Rightarrow> (case ChatRequest.Options (chatRequests H ! p) of
                    Inl e \<Rightarrow> False | Inr os \<Rightarrow> True))"
| "encodable H (CallChatStream req fn) =
     (case req of None \<Rightarrow> True
      | Some p \<Rightarrow> (case ChatRequest.Options (chatRequests H ! p) of
                    Inl e \<Rightarrow> False | Inr os \<Rightarrow> True))"
| "encodable H _ = True"

text \<open>The values that the members of a JSON object give to the field \<^verbatim>\<open>Error\<close> of an
  \<^verbatim>\<open>ErrorResponse\<close>: those of the members named \<^verbatim>\<open>error\<close>, letter case ignored. A value
  that is not an object has none. A value decodes into a struct without a look at its
  members when it is \<^verbatim>\<open>null\<close>, with a look when it is an object, and not otherwise.\<close>

fun error_members :: "json \<Rightarrow> json list" where
  "error_members (JObject ms) = map snd (filter (\<lambda>m. matchField (fst m) ''error'') ms)"
| "error_members _ = []"

fun struct_shaped :: "json \<Rightarrow> bool" where
  "struct_shaped JNull = True"
| "struct_shaped (JObject ms) = True"
| "struct_shaped _ = False"

fun is_JString :: "json \<Rightarrow> bool" where
  "is_JString (JString raw) = True"
| "is_JString _ = False"

text \<open>The value of the member \<^verbatim>\<open>stream\<close> in the body of a request, if it has one.\<close>

definition wire_stream :: "Request \<Rightarrow> json option" where
  "wire_stream r =
     (case Request.Body r of Some (JObject ms) \<Rightarrow> map_of ms ''stream'' | _ \<Rightarrow> None)"

text \<open>A body made of lines, each ended by a newline; the text of a line as the loops
  decode it; the record that a streaming call decodes from that text; and the terminal
  flag of a record.\<close>

definition lines_body :: "string list \<Rightarrow> string" where
  "lines_body ls = concat (map (\<lambda>l. l @ [CHR 0x0A]) ls)"

definition text_of :: "string \<Rightarrow> string" where
  "text_of l = TrimSpace (dropCR l)"

text \<open>The lines of a body: it is cut after each newline, and what follows the last
  newline is one more line unless it is empty.\<close>

fun Lines :: "string \<Rightarrow> string list" where
  "Lines [] = []"
| "Lines (c # cs) =
     (if c = CHR 0x0A then [] # Lines cs
      else (case Lines cs of [] \<Rightarrow> [[c]] | l # ls \<Rightarrow> (c # l) # ls))"

fun streaming :: "call \<Rightarrow> bool" where
  "streaming (CallPull modelName fn) = True"
| "streaming (CallCreate modelName modelfileContent fn) = True"
| "streaming (CallPush modelName fn) = True"
| "streaming (CallGenerateStream req fn) = True"
| "streaming (CallChatStream req fn) = True"
| "streaming _ = False"

fun decode_line :: "lib \<Rightarrow> call \<Rightarrow> string \<Rightarrow> event option" where
  "decode_line L (CallPull modelName fn) line =
     (case Unmarshal_PullProgress line of Inl e \<Rightarrow> None | Inr r \<Rightarrow> Some (PullEvent r))"
| "decode_line L (CallCreate modelName modelfileContent fn) line =
     (case Unmarshal_CreateProgress line of Inl e \<Rightarrow> None | Inr r \<Rightarrow> Some (CreateEvent r))"
| "decode_line L (CallPush modelName fn) line =
     (case Unmarshal_PushProgress line of Inl e \<Rightarrow> None | Inr r \<Rightarrow> Some (PushEvent r))"
| "decode_line L (CallGenerateStream req fn) line =
     (case Unmarshal_GenerateResponse L line of Inl e \<Rightarrow> None | Inr r \<Rightarrow> Some (GenerateEvent r))"
| "decode_line L (CallChatStream req fn) line =
     (case Unmarshal_ChatResponse L line of Inl e \<Rightarrow> None | Inr r \<Rightarrow> Some (ChatEvent r))"
| "decode_line L _ line = None"

fun terminal :: "event \<Rightarrow> bool" where
  "terminal (GenerateEvent r) = GenerateResponse.Done r"
| "terminal (ChatEvent r) = ChatResponse.Done r"
| "terminal _ = False"

text \<open>The record of a line, if the line has one: a blank line has none, and neither has
  a line that fails to decode.\<close>

definition record_of :: "lib \<Rightarrow> call \<Rightarrow> string \<Rightarrow> event option" where
  "record_of L cl l = (if text_of l = [] then None else decode_line L cl (text_of l))"

text \<open>The streaming calls whose records carry the terminal flag.\<close>

fun reports_done :: "call \<Rightarrow> bool" where
  "reports_done (CallGenerateStream req fn) = True"
| "reports_done (CallChatStream req fn) = True"
| "reports_done _ = False"

text \<open>The records of the lines of a body, in the order of the lines, as a loop with the
  decoder \<open>um\<close> finds them.\<close>

definition records :: "(string \<Rightarrow> error + 'r) \<Rightarrow> string list \<Rightarrow> 'r list" where
  "records um ls =
     List.map_filter
       (\<lambda>l. if text_of l = [] then None
            else (case um (text_of l) of Inl e \<Rightarrow> None | Inr r \<Rightarrow> Some r)) ls"

text \<open>A line that fits into the buffer of the scanner.\<close>

definition short_line :: "string \<Rightarrow> bool" where
  "short_line l = (CHR 0x0A \<notin> set l \<and> length l < MaxScanTokenSize)"

subsection \<open>Instances for the examples\<close>

text \<open>
  An instance of the library parameters: \<^verbatim>\<open>JoinPath\<close> appends the path, no request is
  refused, a string is encoded as it is (right for the strings of the examples, which
  hold nothing to escape), and no time and no floating-point number is accepted (the
  examples hold none). A server that answers every request with one status code and
  body; a context that is never done and one that is canceled throughout; and stores
  with one request each.
\<close>

definition example_lib :: lib where
  "example_lib =
     \<lparr>JoinPath = (\<lambda>base path. Inr (base @ path)), NewRequestErr = (\<lambda>method u. None),
      quote = (\<lambda>s. s), ParseTime = (\<lambda>s. None), ParseFloat = (\<lambda>s. None)\<rparr>"

definition example_server :: "int \<Rightarrow> string \<Rightarrow> error option \<Rightarrow> Client" where
  "example_server code body ending =
     \<lparr>httpClient =
        (\<lambda>req. Inr \<lparr>StatusCode = code, Body = \<lparr>bytes = body, failure = ending\<rparr>\<rparr>),
      baseURL = ''http://localhost:11434''\<rparr>"

definition background :: Context where
  "background = (\<lambda>k. None)"

definition canceled :: Context where
  "canceled = (\<lambda>k. Some Canceled)"

text \<open>A context that is canceled while the callback handles the record of line \<open>n - 1\<close>:
  the checks before the first \<open>n\<close> lines find it live.\<close>

definition canceled_from :: "nat \<Rightarrow> Context" where
  "canceled_from n = (\<lambda>k. if k < n then None else Some Canceled)"

definition example_stores :: stores where
  "example_stores =
     \<lparr>generateRequests =
        [\<lparr>GenerateRequest.Model = ''llama2'', Prompt = ''hi'', Stream = True, Options = Inr []\<rparr>],
      chatRequests =
        [\<lparr>ChatRequest.Model = ''llama2'', Messages = [\<lparr>Role = ''user'', Content = ''hi''\<rparr>],
          Stream = True, Options = Inr []\<rparr>],
      embeddingRequests = [\<lparr>EmbeddingRequest.Model = ''llama2'', Prompt = ''hi''\<rparr>]\<rparr>"

definition LF :: string where
  "LF = [CHR 0x0A]"

text \<open>Two lines of 64 KiB and more: a record followed by 64 KiB of spaces, which is
  valid JSON, and 64 KiB of the letter x, which is not.\<close>

definition padded_line :: string where
  \<open>padded_line = ''{"status":"ok"}'' @ replicate MaxScanTokenSize (CHR 0x20)\<close>

definition garbage_line :: string where
  "garbage_line = replicate MaxScanTokenSize (CHR ''x'')"

section \<open>Properties\<close>


subsection \<open>The error model\<close>





lemma storeMembers_error_members:
  "\<forall>x \<in> set (error_members (JObject ms)). \<not> is_JString x \<Longrightarrow>
   storeMembers ErrorResponse_field ms r
     = (if \<forall>x \<in> set (error_members (JObject ms)). x = JNull then Some r else None)"
proof (induction ms arbitrary: r)
  case Nil
  show ?case by simp
next
  case (Cons m ms)
  obtain k v where m: "m = (k, v)" by force
  from Cons.prems have p: "\<forall>x \<in> set (error_members (JObject ms)). \<not> is_JString x"
    by (simp add: m)
  show ?case
  proof (cases "matchField k ''error''")
    case False
    then show ?thesis using Cons.IH [OF p] by (simp add: m ErrorResponse_field_def)
  next
    case True
    with Cons.prems have "\<not> is_JString v" by (simp add: m)
    then show ?thesis
      using True Cons.IH [OF p]
      by (cases v) (simp_all add: m ErrorResponse_field_def storeString_def)
  qed
qed

text \<open>
  Claim C10, as the code has it. The body of the response is valid JSON and gives no
  string to the field \<^verbatim>\<open>Error\<close>: it is not an object, or no member named \<^verbatim>\<open>error\<close>
  (letter case ignored) holds a string. The structured error has the status code of the
  response. Its message is empty when the body is \<^verbatim>\<open>null\<close> or an object whose members
  named \<^verbatim>\<open>error\<close>, if it has any, are all \<^verbatim>\<open>null\<close>; otherwise decoding fails and the
  message is the raw body: when the body is a number, a string, a boolean or an array,
  and when a member named \<^verbatim>\<open>error\<close> is neither a string nor \<^verbatim>\<open>null\<close>. The claim itself
  gives the empty message to every valid JSON body without a string \<^verbatim>\<open>error\<close> field.
\<close>

theorem C10_valid_json_without_string_error:
  assumes p: "json_parse body = Some v"
    and n: "\<forall>x \<in> set (error_members v). \<not> is_JString x"
  shows "parseErrorResponse status body
         = OllamaError status
             (if struct_shaped v \<and> (\<forall>x \<in> set (error_members v). x = JNull) then [] else body)"
proof (cases v)
  case (JObject ms)
  with n have "\<forall>x \<in> set (error_members (JObject ms)). \<not> is_JString x" by simp
  from storeMembers_error_members [OF this, of "\<lparr>Error = []\<rparr>"] p JObject show ?thesis
    by (auto simp: parseErrorResponse_def Unmarshal_ErrorResponse_def Unmarshal_def
        storeStruct_def)
qed (use p in \<open>simp_all add: parseErrorResponse_def Unmarshal_ErrorResponse_def Unmarshal_def
        storeStruct_def\<close>)

theorem C10_valid_json_without_string_error_witness:
  \<open>parseErrorResponse 500 ''{"message":"x"}'' = OllamaError 500 []
   \<and> parseErrorResponse 500 ''[1]'' = OllamaError 500 ''[1]''
   \<and> parseErrorResponse 500 ''{"Error":true}'' = OllamaError 500 ''{"Error":true}''\<close>
proof -
  have p1: \<open>json_parse ''{"message":"x"}'' = Some (JObject [(''message'', JString ''x'')])\<close>
    by code_simp
  have p2: \<open>json_parse ''[1]'' = Some (JArray [JNumber ''1''])\<close> by code_simp
  have p3: \<open>json_parse ''{"Error":true}'' = Some (JObject [(''Error'', JBool True)])\<close>
    by code_simp
  have m1: "matchField ''message'' ''error'' = False" by code_simp
  have m3: "matchField ''Error'' ''error'' = True" by code_simp
  from C10_valid_json_without_string_error [OF p1, of 500] C10_valid_json_without_string_error [OF p2, of 500] C10_valid_json_without_string_error [OF p3, of 500] m1 m3
  show ?thesis by simp
qed

text \<open>Two valid JSON bodies without a string \<^verbatim>\<open>error\<close> field whose message is the raw
  body and not the empty string.\<close>

theorem C10_valid_json_raw_body_counterexample:
  \<open>json_parse ''42'' = Some (JNumber ''42'')
   \<and> parseErrorResponse 500 ''42'' = OllamaError 500 ''42''
   \<and> json_parse ''{"error":404}'' = Some (JObject [(''error'', JNumber ''404'')])
   \<and> parseErrorResponse 500 ''{"error":404}'' = OllamaError 500 ''{"error":404}''\<close>
  by code_simp

subsection \<open>The operations, unfolded\<close>

lemma Generate_Some:
  "Generate L c ctx h (Some p) =
     (if GenerateRequest.Model (h ! p) = []
      then ((Inl (Errorf ''model name cannot be empty'' []), []), h)
      else (finish ''failed to generate text: %w'' [] GenerateResponse_zero
              (do L c ctx MethodPost ''/api/generate''
                 (Some (GenerateRequestV ((h ! p)\<lparr>GenerateRequest.Stream := False\<rparr>)))
                 (Some (Unmarshal_GenerateResponse L))),
            h @ [(h ! p)\<lparr>GenerateRequest.Stream := False\<rparr>]))"
  by (simp add: Generate_def new_def)

lemma Chat_Some:
  "Chat L c ctx h (Some p) =
     (if ChatRequest.Model (h ! p) = []
      then ((Inl (Errorf ''model name cannot be empty'' []), []), h)
      else if ChatRequest.Messages (h ! p) = []
      then ((Inl (Errorf ''at least one message is required'' []), []), h)
      else (finish ''failed to chat: %w'' [] ChatResponse_zero
              (do L c ctx MethodPost ''/api/chat''
                 (Some (ChatRequestV ((h ! p)\<lparr>ChatRequest.Stream := False\<rparr>)))
                 (Some (Unmarshal_ChatResponse L))),
            h @ [(h ! p)\<lparr>ChatRequest.Stream := False\<rparr>]))"
  by (simp add: Chat_def new_def)

lemma GenerateStream_Some:
  "fst (GenerateStream L c ctx h (Some p) (Some f) st) =
     (if GenerateRequest.Model (h ! p) = []
      then (Some (Errorf ''model name cannot be empty'' []), [], st)
      else (case stream_open L c ctx ''generate'' ''/api/generate''
                   (GenerateRequestV ((h ! p)\<lparr>GenerateRequest.Stream := True\<rparr>)) of
              (Inl e, rs) \<Rightarrow> (Some e, rs, st)
            | (Inr body, rs) \<Rightarrow>
                (case response_loop (Unmarshal_GenerateResponse L) GenerateResponse.Done ctx f 0
                        (NewScanner body) st of
                   Returned e st' \<Rightarrow> (Some e, rs, st')
                 | LeftLoop sc st' \<Rightarrow> (stream_close ''generate'' sc, rs, st'))))"
  by (simp add: GenerateStream_def new_def split: prod.split sum.split exit.split)

lemma ChatStream_Some:
  "fst (ChatStream L c ctx h (Some p) (Some f) st) =
     (if ChatRequest.Model (h ! p) = []
      then (Some (Errorf ''model name cannot be empty'' []), [], st)
      else if ChatRequest.Messages (h ! p) = []
      then (Some (Errorf ''at least one message is required'' []), [], st)
      else (case stream_open L c ctx ''chat'' ''/api/chat''
                   (ChatRequestV ((h ! p)\<lparr>ChatRequest.Stream := True\<rparr>)) of
              (Inl e, rs) \<Rightarrow> (Some e, rs, st)
            | (Inr body, rs) \<Rightarrow>
                (case response_loop (Unmarshal_ChatResponse L) ChatResponse.Done ctx f 0
                        (NewScanner body) st of
                   Returned e st' \<Rightarrow> (Some e, rs, st')
                 | LeftLoop sc st' \<Rightarrow> (stream_close ''chat'' sc, rs, st'))))"
  by (simp add: ChatStream_def new_def split: prod.split sum.split exit.split)

lemma snd_stream:
  "snd (case x of
          (Inl e, rs) \<Rightarrow> ((Some e, rs, st), h2)
        | (Inr body, rs) \<Rightarrow>
            (case f body of
               Returned e st' \<Rightarrow> ((Some e, rs, st'), h2)
             | LeftLoop sc st' \<Rightarrow> ((g sc, rs, st'), h2))) = h2"
  by (auto split: prod.split sum.split exit.split)

lemma snd_let_stream:
  "snd (let h2 = X in case x of
          (Inl e, rs) \<Rightarrow> ((Some e, rs, st), h2)
        | (Inr body, rs) \<Rightarrow>
            (case f body of
               Returned e st' \<Rightarrow> ((Some e, rs, st'), h2)
             | LeftLoop sc st' \<Rightarrow> ((g sc, rs, st'), h2))) = X"
  by (simp only: Let_def snd_stream)

lemma Generate_store: "take (length h) (snd (Generate L c ctx h req)) = h"
  by (simp add: Generate_def new_def Let_def split: option.split)

lemma Chat_store: "take (length h) (snd (Chat L c ctx h req)) = h"
  by (simp add: Chat_def new_def Let_def split: option.split)

lemma GenerateStream_store: "take (length h) (snd (GenerateStream L c ctx h req fn st)) = h"
  by (simp add: GenerateStream_def new_def snd_let_stream split: option.split)

lemma ChatStream_store: "take (length h) (snd (ChatStream L c ctx h req fn st)) = h"
  by (simp add: ChatStream_def new_def snd_let_stream split: option.split)

subsection \<open>Validation\<close>

lemma perform_missing_required:
  "missing_required H cl \<Longrightarrow>
   \<exists>msg. perform L c ctx H cl = \<lparr>failed = Some (Errorf msg []), sent = [], delivered = []\<rparr>"
  by (cases cl)
     (auto simp: List_def Show_def Copy_def Delete_def PS_def Generate_def Chat_def
        Embeddings_def Pull_def Create_def Push_def GenerateStream_def ChatStream_def
        unary_def streamed_def err_of_def recording_def split: option.splits)

lemma Pull_Some:
  "modelName \<noteq> [] \<Longrightarrow>
   Pull L c ctx modelName (Some f) st =
     (case stream_open L c ctx ''pull'' ''/api/pull''
             (PullRequestV \<lparr>PullRequest.Model = modelName\<rparr>) of
        (Inl e, rs) \<Rightarrow> (Some e, rs, st)
      | (Inr body, rs) \<Rightarrow>
          (case progress_loop Unmarshal_PullProgress f (NewScanner body) st of
             (sc, st') \<Rightarrow> (stream_close ''pull'' sc, rs, st')))"
  by (simp add: Pull_def)

lemma Create_Some:
  "modelName \<noteq> [] \<Longrightarrow> modelfileContent \<noteq> [] \<Longrightarrow>
   Create L c ctx modelName modelfileContent (Some f) st =
     (case stream_open L c ctx ''create'' ''/api/create''
             (CreateRequestV \<lparr>CreateRequest.Model = modelName, Modelfile = modelfileContent\<rparr>) of
        (Inl e, rs) \<Rightarrow> (Some e, rs, st)
      | (Inr body, rs) \<Rightarrow>
          (case progress_loop Unmarshal_CreateProgress f (NewScanner body) st of
             (sc, st') \<Rightarrow> (stream_close ''create'' sc, rs, st')))"
  by (simp add: Create_def)

lemma Push_Some:
  "modelName \<noteq> [] \<Longrightarrow>
   Push L c ctx modelName (Some f) st =
     (case stream_open L c ctx ''push'' ''/api/push''
             (PushRequestV \<lparr>PushRequest.Model = modelName\<rparr>) of
        (Inl e, rs) \<Rightarrow> (Some e, rs, st)
      | (Inr body, rs) \<Rightarrow>
          (case progress_loop Unmarshal_PushProgress f (NewScanner body) st of
             (sc, st') \<Rightarrow> (stream_close ''push'' sc, rs, st')))"
  by (simp add: Push_def)

text \<open>
  Claim C8. A call that lacks a required input returns an error that is a plain message,
  with no cause, and hands no request to the HTTP client (and invokes no callback).
\<close>

theorem C8_validation_before_network:
  "missing_required H cl \<Longrightarrow>
   \<exists>msg. perform L c ctx H cl = \<lparr>failed = Some (Errorf msg []), sent = [], delivered = []\<rparr>"
  by (rule perform_missing_required)

theorem C8_validation_before_network_witness:
  "\<exists>msg. perform example_lib (example_server 200 [] None) background example_stores
           (CallPull ''llama2'' False)
         = \<lparr>failed = Some (Errorf msg []), sent = [], delivered = []\<rparr>"
  by (rule C8_validation_before_network) simp

subsection \<open>The request of the caller\<close>

text \<open>
  Claim C6. \<^verbatim>\<open>Generate\<close>, \<^verbatim>\<open>GenerateStream\<close>, \<^verbatim>\<open>Chat\<close> and \<^verbatim>\<open>ChatStream\<close> leave every
  request that was in the store before the call as it was, the request of the caller
  and its \<^verbatim>\<open>Stream\<close> field included: the flag is forced in a cell of its own.
\<close>

theorem C6_request_unchanged:
  "take (length h) (snd (Generate L c ctx h req)) = h
   \<and> take (length h) (snd (GenerateStream L c ctx h req fn st)) = h
   \<and> take (length k) (snd (Chat L c ctx k req)) = k
   \<and> take (length k) (snd (ChatStream L c ctx k req fn' st')) = k"
  by (simp only: Generate_store Chat_store GenerateStream_store ChatStream_store simp_thms)

theorem C6_request_unchanged_witness:
  "snd (Generate example_lib (example_server 200 [] None) background
          (generateRequests example_stores) (Some 0)) ! 0
   = \<lparr>GenerateRequest.Model = ''llama2'', Prompt = ''hi'', Stream = True, Options = Inr []\<rparr>"
proof -
  have "take (length (generateRequests example_stores))
          (snd (Generate example_lib (example_server 200 [] None) background
                  (generateRequests example_stores) (Some 0)))
        = generateRequests example_stores"
    by (rule C6_request_unchanged [THEN conjunct1])
  then have "take 1 (snd (Generate example_lib (example_server 200 [] None) background
                  (generateRequests example_stores) (Some 0))) ! 0
        = generateRequests example_stores ! 0"
    by (simp add: example_stores_def)
  then show ?thesis by (simp add: example_stores_def)
qed

subsection \<open>The streaming flag on the wire\<close>

lemma do_sent:
  "r \<in> set (snd (do L c ctx m p (Some v) t)) \<Longrightarrow>
   \<exists>j. Marshal L v = Inr j \<and> Request.Body r = Some j"
  by (auto simp: do_def NewRequestWithContext_def set_headers_def Let_def
      split: sum.splits option.splits if_splits)

lemma stream_open_sent:
  "r \<in> set (snd (stream_open L c ctx n p v)) \<Longrightarrow>
   \<exists>j. Marshal L v = Inr j \<and> Request.Body r = Some j"
  by (auto simp: stream_open_def NewRequestWithContext_def set_headers_def Let_def
      split: sum.splits option.splits if_splits)

lemma Marshal_GenerateRequest_stream:
  "Marshal L (GenerateRequestV (g\<lparr>GenerateRequest.Stream := b\<rparr>)) = Inr j \<Longrightarrow>
   (case j of JObject ms \<Rightarrow> map_of ms ''stream'' | _ \<Rightarrow> None)
     = (if b then Some (JBool True) else None)"
  by (auto simp: Marshal_GenerateRequest_def omitempty_stream_def omitempty_options_def
      split: sum.splits)

lemma Marshal_ChatRequest_stream:
  "Marshal L (ChatRequestV (g\<lparr>ChatRequest.Stream := b\<rparr>)) = Inr j \<Longrightarrow>
   (case j of JObject ms \<Rightarrow> map_of ms ''stream'' | _ \<Rightarrow> None)
     = (if b then Some (JBool True) else None)"
  by (auto simp: Marshal_ChatRequest_def omitempty_stream_def omitempty_options_def
      split: sum.splits)

lemma snd_finish: "snd (finish f a z r) = snd r"
  by (simp add: finish_def split: sum.split option.split)

lemma Generate_wire:
  "r \<in> set (sent (perform L c ctx H (CallGenerate q))) \<Longrightarrow> wire_stream r = None"
proof (cases q)
  case None
  then show "r \<in> set (sent (perform L c ctx H (CallGenerate q))) \<Longrightarrow> wire_stream r = None"
    by (simp add: Generate_def unary_def)
next
  case (Some p)
  assume "r \<in> set (sent (perform L c ctx H (CallGenerate q)))"
  with Some have "r \<in> set (snd (do L c ctx MethodPost ''/api/generate''
       (Some (GenerateRequestV ((generateRequests H ! p)\<lparr>GenerateRequest.Stream := False\<rparr>)))
       (Some (Unmarshal_GenerateResponse L))))"
    by (simp add: Generate_Some unary_def snd_finish split: if_splits)
  from do_sent [OF this] show "wire_stream r = None"
    using Marshal_GenerateRequest_stream [where b = False] by (auto simp: wire_stream_def)
qed

lemma Chat_wire:
  "r \<in> set (sent (perform L c ctx H (CallChat q))) \<Longrightarrow> wire_stream r = None"
proof (cases q)
  case None
  then show "r \<in> set (sent (perform L c ctx H (CallChat q))) \<Longrightarrow> wire_stream r = None"
    by (simp add: Chat_def unary_def)
next
  case (Some p)
  assume "r \<in> set (sent (perform L c ctx H (CallChat q)))"
  with Some have "r \<in> set (snd (do L c ctx MethodPost ''/api/chat''
       (Some (ChatRequestV ((chatRequests H ! p)\<lparr>ChatRequest.Stream := False\<rparr>)))
       (Some (Unmarshal_ChatResponse L))))"
    by (simp add: Chat_Some unary_def snd_finish split: if_splits)
  from do_sent [OF this] show "wire_stream r = None"
    using Marshal_ChatRequest_stream [where b = False] by (auto simp: wire_stream_def)
qed

lemma stream_sent:
  "fst (snd (case x of
          (Inl e, rs) \<Rightarrow> (Some e, rs, st)
        | (Inr body, rs) \<Rightarrow>
            (case f body of
               Returned e st' \<Rightarrow> (Some e, rs, st')
             | LeftLoop sc st' \<Rightarrow> (g sc, rs, st')))) = snd x"
  by (auto split: prod.split sum.split exit.split)

lemma GenerateStream_wire:
  "r \<in> set (sent (perform L c ctx H (CallGenerateStream q fn))) \<Longrightarrow>
   wire_stream r = Some (JBool True)"
proof -
  assume a: "r \<in> set (sent (perform L c ctx H (CallGenerateStream q fn)))"
  then obtain p where q: "q = Some p" and fn: fn
    by (cases q; cases fn) (auto simp: GenerateStream_def streamed_def recording_def split: if_splits)
  with a have "r \<in> set (snd (stream_open L c ctx ''generate'' ''/api/generate''
       (GenerateRequestV ((generateRequests H ! p)\<lparr>GenerateRequest.Stream := True\<rparr>))))"
    by (simp add: GenerateStream_Some streamed_def recording_def stream_sent split: if_splits)
  from stream_open_sent [OF this] show ?thesis
    using Marshal_GenerateRequest_stream [where b = True] by (auto simp: wire_stream_def)
qed

lemma ChatStream_wire:
  "r \<in> set (sent (perform L c ctx H (CallChatStream q fn))) \<Longrightarrow>
   wire_stream r = Some (JBool True)"
proof -
  assume a: "r \<in> set (sent (perform L c ctx H (CallChatStream q fn)))"
  then obtain p where q: "q = Some p" and fn: fn
    by (cases q; cases fn) (auto simp: ChatStream_def streamed_def recording_def split: if_splits)
  with a have "r \<in> set (snd (stream_open L c ctx ''chat'' ''/api/chat''
       (ChatRequestV ((chatRequests H ! p)\<lparr>ChatRequest.Stream := True\<rparr>))))"
    by (simp add: ChatStream_Some streamed_def recording_def stream_sent split: if_splits)
  from stream_open_sent [OF this] show ?thesis
    using Marshal_ChatRequest_stream [where b = True] by (auto simp: wire_stream_def)
qed

text \<open>
  Claim C5, as the code has it. Whatever the caller set in the \<^verbatim>\<open>Stream\<close> field, a request
  that \<^verbatim>\<open>Generate\<close> or \<^verbatim>\<open>Chat\<close> hands to the HTTP client has no member \<^verbatim>\<open>stream\<close> in its
  body: the flag is forced to false, and the field is tagged \<^verbatim>\<open>omitempty\<close>, which leaves
  a false flag out. A request of \<^verbatim>\<open>GenerateStream\<close> or \<^verbatim>\<open>ChatStream\<close> has the member
  \<^verbatim>\<open>stream\<close> with the value \<^verbatim>\<open>true\<close>.
\<close>

theorem C5_stream_flag_on_the_wire:
  "(\<forall>r \<in> set (sent (perform L c ctx H (CallGenerate q))). wire_stream r = None)
   \<and> (\<forall>r \<in> set (sent (perform L c ctx H (CallChat q))). wire_stream r = None)
   \<and> (\<forall>r \<in> set (sent (perform L c ctx H (CallGenerateStream q fn))).
         wire_stream r = Some (JBool True))
   \<and> (\<forall>r \<in> set (sent (perform L c ctx H (CallChatStream q fn))).
         wire_stream r = Some (JBool True))"
  by (simp add: Generate_wire Chat_wire GenerateStream_wire ChatStream_wire)

theorem C5_stream_flag_on_the_wire_witness:
  "map wire_stream
     (sent (perform example_lib (example_server 200 [] None) background example_stores
              (CallGenerateStream (Some 0) True)))
   = [Some (JBool True)]
   \<and> map wire_stream
     (sent (perform example_lib (example_server 200 [] None) background example_stores
              (CallChat (Some 0))))
   = [None]"
proof -
  let ?c = "example_server 200 [] None"
  let ?s = "sent (perform example_lib ?c background example_stores
              (CallGenerateStream (Some 0) True))"
  let ?t = "sent (perform example_lib ?c background example_stores (CallChat (Some 0)))"
  have "?s = snd (stream_open example_lib ?c background ''generate'' ''/api/generate''
                (GenerateRequestV
                   ((generateRequests example_stores ! 0)\<lparr>GenerateRequest.Stream := True\<rparr>)))"
    by (simp add: GenerateStream_Some streamed_def recording_def stream_sent example_stores_def)
  moreover have "length (snd (stream_open example_lib ?c background ''generate''
                ''/api/generate''
                (GenerateRequestV
                   ((generateRequests example_stores ! 0)\<lparr>GenerateRequest.Stream := True\<rparr>))))
             = 1"
    by code_simp
  ultimately have "length ?s = 1" by simp
  then obtain r where r: "?s = [r]" by (cases ?s) auto
  have "length ?t = 1" by code_simp
  then obtain u where u: "?t = [u]" by (cases ?t) auto
  from C5_stream_flag_on_the_wire [of example_lib ?c background example_stores "Some 0" True]
    r u
  show ?thesis by simp
qed

text \<open>The claim says that \<^verbatim>\<open>Generate\<close> transmits the value false: the body that it sends,
  for a request whose flag the caller had set, holds the model and the prompt and
  nothing else.\<close>

theorem C5_no_stream_member_counterexample:
  "map Request.Body
     (sent (perform example_lib (example_server 200 [] None) background example_stores
              (CallGenerate (Some 0))))
   = [Some (JObject [(''model'', JString ''llama2''), (''prompt'', JString ''hi'')])]"
  by code_simp

subsection \<open>The loops, one line at a time\<close>

lemma response_loop_None:
  "Scan sc = (None, sc') \<Longrightarrow> response_loop um d ctx fn k sc st = LeftLoop sc' st"
  by (subst response_loop.simps) simp

lemma response_loop_cancel:
  "Scan sc = (Some text, sc') \<Longrightarrow> ctx k = Some e \<Longrightarrow>
   response_loop um d ctx fn k sc st = Returned e st"
  by (subst response_loop.simps) simp

lemma response_loop_blank:
  "Scan sc = (Some text, sc') \<Longrightarrow> ctx k = None \<Longrightarrow> TrimSpace text = [] \<Longrightarrow>
   response_loop um d ctx fn k sc st = response_loop um d ctx fn (Suc k) sc' st"
  by (subst response_loop.simps) simp

lemma response_loop_malformed:
  "Scan sc = (Some text, sc') \<Longrightarrow> ctx k = None \<Longrightarrow> TrimSpace text \<noteq> [] \<Longrightarrow>
   um (TrimSpace text) = Inl e \<Longrightarrow>
   response_loop um d ctx fn k sc st = response_loop um d ctx fn (Suc k) sc' st"
  by (subst response_loop.simps) simp

lemma response_loop_done:
  "Scan sc = (Some text, sc') \<Longrightarrow> ctx k = None \<Longrightarrow> TrimSpace text \<noteq> [] \<Longrightarrow>
   um (TrimSpace text) = Inr r \<Longrightarrow> d r \<Longrightarrow>
   response_loop um d ctx fn k sc st = LeftLoop sc' (fn r st)"
  by (subst response_loop.simps) simp

lemma response_loop_more:
  "Scan sc = (Some text, sc') \<Longrightarrow> ctx k = None \<Longrightarrow> TrimSpace text \<noteq> [] \<Longrightarrow>
   um (TrimSpace text) = Inr r \<Longrightarrow> \<not> d r \<Longrightarrow>
   response_loop um d ctx fn k sc st = response_loop um d ctx fn (Suc k) sc' (fn r st)"
  by (subst response_loop.simps) simp

lemma progress_loop_None:
  "Scan sc = (None, sc') \<Longrightarrow> progress_loop um fn sc st = (sc', st)"
  by (subst progress_loop.simps) simp

lemma progress_loop_blank:
  "Scan sc = (Some text, sc') \<Longrightarrow> TrimSpace text = [] \<Longrightarrow>
   progress_loop um fn sc st = progress_loop um fn sc' st"
  by (subst progress_loop.simps) simp

lemma progress_loop_malformed:
  "Scan sc = (Some text, sc') \<Longrightarrow> TrimSpace text \<noteq> [] \<Longrightarrow> um (TrimSpace text) = Inl e \<Longrightarrow>
   progress_loop um fn sc st = progress_loop um fn sc' st"
  by (subst progress_loop.simps) simp

lemma progress_loop_record:
  "Scan sc = (Some text, sc') \<Longrightarrow> TrimSpace text \<noteq> [] \<Longrightarrow> um (TrimSpace text) = Inr r \<Longrightarrow>
   progress_loop um fn sc st = progress_loop um fn sc' (fn r st)"
  by (subst progress_loop.simps) simp

subsection \<open>The loops over the lines of a body\<close>

lemma IndexByte_append:
  "c \<notin> set l \<Longrightarrow> IndexByte (l @ c # after) c = Some (length l)"
  by (induction l) auto

lemma IndexByte_None: "c \<notin> set l \<Longrightarrow> IndexByte l c = None"
  by (induction l) auto

lemma Scan_line:
  "short_line l \<Longrightarrow> buf sc = l @ CHR 0x0A # after \<Longrightarrow>
   Scan sc = (Some (dropCR l), sc\<lparr>buf := after\<rparr>)"
  by (simp add: Scan_def short_line_def IndexByte_append)

lemma Scan_empty:
  "buf sc = [] \<Longrightarrow> Scan sc = (None, sc\<lparr>scanErr := srcErr sc\<rparr>)"
  by (simp add: Scan_def MaxScanTokenSize_def)

lemma Scan_long_line:
  "CHR 0x0A \<notin> set l \<Longrightarrow> MaxScanTokenSize \<le> length l \<Longrightarrow> buf sc = l @ CHR 0x0A # after \<Longrightarrow>
   Scan sc = (None, sc\<lparr>scanErr := Some ErrTooLong\<rparr>)"
  by (simp add: Scan_def IndexByte_append)

lemma records_Nil: "records um [] = []"
  by (simp add: records_def List.map_filter_simps)

lemma records_Cons:
  "records um (l # ls) =
     (if text_of l = [] then records um ls
      else (case um (text_of l) of Inl e \<Rightarrow> records um ls | Inr r \<Rightarrow> r # records um ls))"
  by (simp add: records_def List.map_filter_simps split: sum.split)

lemma lines_body_Cons: "lines_body (l # ls) = l @ CHR 0x0A # lines_body ls"
  by (simp add: lines_body_def)

lemma progress_loop_lines:
  "\<forall>l \<in> set ls. short_line l \<Longrightarrow> buf sc = lines_body ls @ after \<Longrightarrow>
   progress_loop um fn sc st
     = progress_loop um fn (sc\<lparr>buf := after\<rparr>) (foldl (\<lambda>s r. fn r s) st (records um ls))"
proof (induction ls arbitrary: sc st)
  case Nil
  then have "sc\<lparr>buf := after\<rparr> = sc" by (simp add: lines_body_def)
  then show ?case by (simp add: records_Nil)
next
  case (Cons l ls)
  from Cons.prems have s: "Scan sc = (Some (dropCR l), sc\<lparr>buf := lines_body ls @ after\<rparr>)"
    by (intro Scan_line) (simp_all add: lines_body_Cons)
  have b: "buf (sc\<lparr>buf := lines_body ls @ after\<rparr>) = lines_body ls @ after" by simp
  have sh: "\<forall>l \<in> set ls. short_line l" using Cons.prems by simp
  note IH = Cons.IH [OF sh b]
  show ?case
  proof (cases "text_of l = []")
    case True
    then show ?thesis
      using s IH by (simp add: progress_loop_blank [OF s] records_Cons text_of_def)
  next
    case False
    show ?thesis
    proof (cases "um (text_of l)")
      case (Inl e)
      with False show ?thesis
        using IH by (simp add: progress_loop_malformed [OF s] records_Cons text_of_def)
    next
      case (Inr r)
      with False show ?thesis
        using IH by (simp add: progress_loop_record [OF s] records_Cons text_of_def)
    qed
  qed
qed

lemma response_loop_lines:
  "\<forall>l \<in> set ls. short_line l \<Longrightarrow> buf sc = lines_body ls @ after \<Longrightarrow>
   \<forall>i < length ls. ctx (k + i) = None \<Longrightarrow> \<forall>r \<in> set (records um ls). \<not> d r \<Longrightarrow>
   response_loop um d ctx fn k sc st
     = response_loop um d ctx fn (k + length ls) (sc\<lparr>buf := after\<rparr>)
         (foldl (\<lambda>s r. fn r s) st (records um ls))"
proof (induction ls arbitrary: sc st k)
  case Nil
  then have "sc\<lparr>buf := after\<rparr> = sc" by (simp add: lines_body_def)
  then show ?case by (simp add: records_Nil)
next
  case (Cons l ls)
  from Cons.prems have s: "Scan sc = (Some (dropCR l), sc\<lparr>buf := lines_body ls @ after\<rparr>)"
    by (intro Scan_line) (simp_all add: lines_body_Cons)
  have b: "buf (sc\<lparr>buf := lines_body ls @ after\<rparr>) = lines_body ls @ after" by simp
  have sh: "\<forall>l \<in> set ls. short_line l" using Cons.prems by simp
  have c0: "ctx k = None" using Cons.prems(3) by force
  have cs: "\<forall>i < length ls. ctx (Suc k + i) = None"
  proof (intro allI impI)
    fix i assume "i < length ls"
    then have "Suc i < length (l # ls)" by simp
    with Cons.prems(3) have "ctx (k + Suc i) = None" by blast
    then show "ctx (Suc k + i) = None" by simp
  qed
  show ?case
  proof (cases "text_of l = []")
    case True
    with Cons.prems(4) have nd: "\<forall>r \<in> set (records um ls). \<not> d r" by (simp add: records_Cons)
    note IH = Cons.IH [OF sh b cs nd]
    from True show ?thesis
      using IH by (simp add: response_loop_blank [where ctx = ctx and k = k, OF s c0] records_Cons text_of_def)
  next
    case False
    show ?thesis
    proof (cases "um (text_of l)")
      case (Inl e)
      with False Cons.prems(4) have nd: "\<forall>r \<in> set (records um ls). \<not> d r"
        by (simp add: records_Cons)
      note IH = Cons.IH [OF sh b cs nd]
      from False Inl show ?thesis
        using IH by (simp add: response_loop_malformed [where ctx = ctx and k = k, OF s c0] records_Cons text_of_def)
    next
      case (Inr r)
      with False Cons.prems(4) have nd: "\<forall>r \<in> set (records um ls). \<not> d r" and ndr: "\<not> d r"
        by (simp_all add: records_Cons)
      note IH = Cons.IH [OF sh b cs nd]
      from False Inr ndr show ?thesis
        using IH by (simp add: response_loop_more [where ctx = ctx and k = k, OF s c0] records_Cons text_of_def)
    qed
  qed
qed

lemma stream_open_2xx:
  assumes "\<And>req. httpClient c req = Inr resp"
    and "200 \<le> StatusCode resp" and "StatusCode resp < 300"
  shows "(\<exists>e. stream_open L c ctx n p v = (Inl e, []))
         \<or> (\<exists>req. stream_open L c ctx n p v = (Inr (Response.Body resp), [req]))"
  using assms
  by (simp add: stream_open_def Let_def split: sum.split option.split)

lemma NewScanner_buf: "buf (NewScanner body) = bytes body"
  by (simp add: NewScanner_def)

lemma progress_case_lines:
  assumes o: "stream_open L c ctx n p v = (Inr body, rs)"
    and b: "bytes body = lines_body ls" and e: "failure body = None"
    and sh: "\<forall>l \<in> set ls. short_line l"
  shows "(case stream_open L c ctx n p v of
            (Inl e, rs) \<Rightarrow> (Some e, rs, st)
          | (Inr body, rs) \<Rightarrow>
              (case progress_loop um f (NewScanner body) st of
                 (sc, st') \<Rightarrow> (stream_close n' sc, rs, st')))
         = (None, rs, foldl (\<lambda>s r. f r s) st (records um ls))"
proof -
  have "buf (NewScanner body) = lines_body ls @ []" using b by (simp add: NewScanner_buf)
  from progress_loop_lines [OF sh this]
  have "progress_loop um f (NewScanner body) st
        = progress_loop um f ((NewScanner body)\<lparr>buf := []\<rparr>)
            (foldl (\<lambda>s r. f r s) st (records um ls))" .
  also have "\<dots> = ((NewScanner body)\<lparr>buf := [], scanErr := None\<rparr>,
                   foldl (\<lambda>s r. f r s) st (records um ls))"
    using e by (simp add: progress_loop_None [OF Scan_empty] NewScanner_def)
  finally show ?thesis using o by (simp add: stream_close_def)
qed

lemma response_case_lines:
  assumes o: "stream_open L c ctx n p v = (Inr body, rs)"
    and b: "bytes body = lines_body ls" and e: "failure body = None"
    and sh: "\<forall>l \<in> set ls. short_line l"
    and nc: "\<forall>k < length ls. ctx k = None"
    and nt: "\<forall>r \<in> set (records um ls). \<not> d r"
  shows "(case stream_open L c ctx n p v of
            (Inl e, rs) \<Rightarrow> (Some e, rs, st)
          | (Inr body, rs) \<Rightarrow>
              (case response_loop um d ctx f 0 (NewScanner body) st of
                 Returned e st' \<Rightarrow> (Some e, rs, st')
               | LeftLoop sc st' \<Rightarrow> (stream_close n' sc, rs, st')))
         = (None, rs, foldl (\<lambda>s r. f r s) st (records um ls))"
proof -
  have "buf (NewScanner body) = lines_body ls @ []" using b by (simp add: NewScanner_buf)
  from response_loop_lines [OF sh this, of ctx 0 um d f st] nc nt
  have "response_loop um d ctx f 0 (NewScanner body) st
        = response_loop um d ctx f (length ls) ((NewScanner body)\<lparr>buf := []\<rparr>)
            (foldl (\<lambda>s r. f r s) st (records um ls))" by simp
  also have "\<dots> = LeftLoop ((NewScanner body)\<lparr>buf := [], scanErr := None\<rparr>)
                   (foldl (\<lambda>s r. f r s) st (records um ls))"
    using e by (simp add: response_loop_None [OF Scan_empty] NewScanner_def)
  finally show ?thesis using o by (simp add: stream_close_def)
qed

lemma response_case_done:
  assumes o: "stream_open L c ctx n p v = (Inr body, rs)"
    and b: "bytes body = lines_body pre @ dl @ CHR 0x0A # after"
    and sh: "\<forall>l \<in> set pre. short_line l" and shd: "short_line dl"
    and nc: "\<forall>k \<le> length pre. ctx k = None"
    and nt: "\<forall>r \<in> set (records um pre). \<not> d r"
    and dn: "text_of dl \<noteq> []" "um (text_of dl) = Inr r" "d r"
  shows "(case stream_open L c ctx n p v of
            (Inl e, rs) \<Rightarrow> (Some e, rs, st)
          | (Inr body, rs) \<Rightarrow>
              (case response_loop um d ctx f 0 (NewScanner body) st of
                 Returned e st' \<Rightarrow> (Some e, rs, st')
               | LeftLoop sc st' \<Rightarrow> (stream_close n' sc, rs, st')))
         = (None, rs, f r (foldl (\<lambda>s r. f r s) st (records um pre)))"
proof -
  let ?sc = "(NewScanner body)\<lparr>buf := dl @ CHR 0x0A # after\<rparr>"
  have "buf (NewScanner body) = lines_body pre @ (dl @ CHR 0x0A # after)"
    using b by (simp add: NewScanner_buf)
  from response_loop_lines [OF sh this, of ctx 0 um d f st] nc nt
  have "response_loop um d ctx f 0 (NewScanner body) st
        = response_loop um d ctx f (length pre) ?sc
            (foldl (\<lambda>s r. f r s) st (records um pre))" by simp
  also have "\<dots> = LeftLoop (?sc\<lparr>buf := after\<rparr>)
                   (f r (foldl (\<lambda>s r. f r s) st (records um pre)))"
  proof -
    have s: "Scan ?sc = (Some (dropCR dl), ?sc\<lparr>buf := after\<rparr>)"
      by (rule Scan_line [OF shd]) simp
    have c: "ctx (length pre) = None" using nc by simp
    show ?thesis
      using dn by (simp add: response_loop_done [where ctx = ctx and k = "length pre", OF s c]
          text_of_def)
  qed
  finally show ?thesis using o by (simp add: stream_close_def NewScanner_def)
qed

lemma response_case_cancel:
  assumes o: "stream_open L c ctx n p v = (Inr body, rs)"
    and b: "bytes body = lines_body pre @ l @ CHR 0x0A # after"
    and sh: "\<forall>l \<in> set pre. short_line l" and shl: "short_line l"
    and nc: "\<forall>k < length pre. ctx k = None"
    and nt: "\<forall>r \<in> set (records um pre). \<not> d r"
    and cn: "ctx (length pre) = Some e"
  shows "(case stream_open L c ctx n p v of
            (Inl e, rs) \<Rightarrow> (Some e, rs, st)
          | (Inr body, rs) \<Rightarrow>
              (case response_loop um d ctx f 0 (NewScanner body) st of
                 Returned e st' \<Rightarrow> (Some e, rs, st')
               | LeftLoop sc st' \<Rightarrow> (stream_close n' sc, rs, st')))
         = (Some e, rs, foldl (\<lambda>s r. f r s) st (records um pre))"
proof -
  let ?sc = "(NewScanner body)\<lparr>buf := l @ CHR 0x0A # after\<rparr>"
  have "buf (NewScanner body) = lines_body pre @ (l @ CHR 0x0A # after)"
    using b by (simp add: NewScanner_buf)
  from response_loop_lines [OF sh this, of ctx 0 um d f st] nc nt
  have "response_loop um d ctx f 0 (NewScanner body) st
        = response_loop um d ctx f (length pre) ?sc
            (foldl (\<lambda>s r. f r s) st (records um pre))" by simp
  also have "\<dots> = Returned e (foldl (\<lambda>s r. f r s) st (records um pre))"
  proof -
    have s: "Scan ?sc = (Some (dropCR l), ?sc\<lparr>buf := after\<rparr>)"
      by (rule Scan_line [OF shl]) simp
    show ?thesis
      by (simp add: response_loop_cancel [where ctx = ctx and k = "length pre", OF s cn])
  qed
  finally show ?thesis using o by simp
qed

lemma foldl_recording:
  "foldl (\<lambda>s r. s @ [ev r]) acc rs = acc @ map ev rs"
  by (induction rs arbitrary: acc) auto

lemma records_events:
  assumes "\<And>l. rc l = (if text_of l = [] then None
                       else (case um (text_of l) of Inl e \<Rightarrow> None | Inr r \<Rightarrow> Some (ev r)))"
  shows "List.map_filter rc ls = map ev (records um ls)"
  by (induction ls) (simp_all add: assms records_Nil records_Cons List.map_filter_simps
      split: sum.split)

lemma opened:
  assumes t: "\<And>req. httpClient c req = Inr resp"
    and ok: "200 \<le> StatusCode resp" "StatusCode resp < 300"
    and n: "snd (stream_open L c ctx n p v) \<noteq> []"
  shows "\<exists>req. stream_open L c ctx n p v = (Inr (Response.Body resp), [req])"
  using stream_open_2xx [OF t ok, of L ctx n p v] n by auto

lemma progress_case_sent:
  "fst (snd (case x of
          (Inl e, rs) \<Rightarrow> (Some e, rs, st)
        | (Inr body, rs) \<Rightarrow>
            (case f body of (sc, st') \<Rightarrow> (g sc, rs, st')))) = snd x"
  by (auto split: prod.split sum.split)

lemma progress_outcome:
  assumes P: "P = (case stream_open L c ctx n p v of
                     (Inl e, rs) \<Rightarrow> (Some e, rs, [])
                   | (Inr body, rs) \<Rightarrow>
                       (case progress_loop um (\<lambda>r tr. tr @ [ev r]) (NewScanner body) [] of
                          (sc, st') \<Rightarrow> (stream_close n' sc, rs, st')))"
    and rc: "\<And>l. rc l = (if text_of l = [] then None
                       else (case um (text_of l) of Inl e \<Rightarrow> None | Inr r \<Rightarrow> Some (ev r)))"
    and t: "\<And>req. httpClient c req = Inr resp"
    and ok: "200 \<le> StatusCode resp" "StatusCode resp < 300"
    and b: "bytes (Response.Body resp) = lines_body ls"
    and e: "failure (Response.Body resp) = None"
    and sh: "\<forall>l \<in> set ls. short_line l"
    and n: "sent (streamed P) \<noteq> []"
  shows "failed (streamed P) = None \<and> delivered (streamed P) = List.map_filter rc ls"
proof -
  from n have "snd (stream_open L c ctx n p v) \<noteq> []"
    by (simp add: streamed_def P progress_case_sent)
  from opened [OF t ok this] obtain req
    where o: "stream_open L c ctx n p v = (Inr (Response.Body resp), [req])" ..
  have "P = (None, [req], foldl (\<lambda>s r. s @ [ev r]) [] (records um ls))"
    unfolding P by (rule progress_case_lines [OF o b e sh])
  then show ?thesis
    by (simp add: streamed_def foldl_recording records_events [where rc = rc and um = um and ev = ev, OF rc])
qed

lemma not_terminal:
  assumes rc: "\<And>l. rc l = (if text_of l = [] then None
                       else (case um (text_of l) of Inl e \<Rightarrow> None | Inr r \<Rightarrow> Some (ev r)))"
    and tm: "\<And>r. terminal (ev r) = d r"
    and nt: "\<forall>r \<in> set (List.map_filter rc ls). \<not> terminal r"
  shows "\<forall>r \<in> set (records um ls). \<not> d r"
  using nt by (simp add: records_events [where rc = rc and um = um and ev = ev, OF rc] tm)

lemma response_outcome:
  assumes P: "P = (case stream_open L c ctx n p v of
                     (Inl e, rs) \<Rightarrow> (Some e, rs, [])
                   | (Inr body, rs) \<Rightarrow>
                       (case response_loop um d ctx (\<lambda>r tr. tr @ [ev r]) 0 (NewScanner body) [] of
                          Returned e st' \<Rightarrow> (Some e, rs, st')
                        | LeftLoop sc st' \<Rightarrow> (stream_close n' sc, rs, st')))"
    and rc: "\<And>l. rc l = (if text_of l = [] then None
                       else (case um (text_of l) of Inl e \<Rightarrow> None | Inr r \<Rightarrow> Some (ev r)))"
    and tm: "\<And>r. terminal (ev r) = d r"
    and t: "\<And>req. httpClient c req = Inr resp"
    and ok: "200 \<le> StatusCode resp" "StatusCode resp < 300"
    and b: "bytes (Response.Body resp) = lines_body ls"
    and e: "failure (Response.Body resp) = None"
    and sh: "\<forall>l \<in> set ls. short_line l"
    and nc: "\<forall>k < length ls. ctx k = None"
    and nt: "\<forall>r \<in> set (List.map_filter rc ls). \<not> terminal r"
    and n: "sent (streamed P) \<noteq> []"
  shows "failed (streamed P) = None \<and> delivered (streamed P) = List.map_filter rc ls"
proof -
  from n have "snd (stream_open L c ctx n p v) \<noteq> []"
    by (simp add: streamed_def P stream_sent)
  from opened [OF t ok this] obtain req
    where o: "stream_open L c ctx n p v = (Inr (Response.Body resp), [req])" ..
  have "P = (None, [req], foldl (\<lambda>s r. s @ [ev r]) [] (records um ls))"
    unfolding P
    by (rule response_case_lines [OF o b e sh nc not_terminal [where rc = rc and um = um and ev = ev and d = d, OF rc tm nt]])
  then show ?thesis
    by (simp add: streamed_def foldl_recording records_events [where rc = rc and um = um and ev = ev, OF rc])
qed

lemma response_outcome_done:
  assumes P: "P = (case stream_open L c ctx n p v of
                     (Inl e, rs) \<Rightarrow> (Some e, rs, [])
                   | (Inr body, rs) \<Rightarrow>
                       (case response_loop um d ctx (\<lambda>r tr. tr @ [ev r]) 0 (NewScanner body) [] of
                          Returned e st' \<Rightarrow> (Some e, rs, st')
                        | LeftLoop sc st' \<Rightarrow> (stream_close n' sc, rs, st')))"
    and rc: "\<And>l. rc l = (if text_of l = [] then None
                       else (case um (text_of l) of Inl e \<Rightarrow> None | Inr r \<Rightarrow> Some (ev r)))"
    and tm: "\<And>r. terminal (ev r) = d r"
    and t: "\<And>req. httpClient c req = Inr resp"
    and ok: "200 \<le> StatusCode resp" "StatusCode resp < 300"
    and b: "bytes (Response.Body resp) = lines_body pre @ dl @ CHR 0x0A # after"
    and sh: "\<forall>l \<in> set pre. short_line l" and shd: "short_line dl"
    and nc: "\<forall>k \<le> length pre. ctx k = None"
    and nt: "\<forall>r \<in> set (List.map_filter rc pre). \<not> terminal r"
    and dn: "rc dl = Some x" "terminal x"
    and n: "sent (streamed P) \<noteq> []"
  shows "failed (streamed P) = None \<and> delivered (streamed P) = List.map_filter rc pre @ [x]"
proof -
  from n have "snd (stream_open L c ctx n p v) \<noteq> []"
    by (simp add: streamed_def P stream_sent)
  from opened [OF t ok this] obtain req
    where o: "stream_open L c ctx n p v = (Inr (Response.Body resp), [req])" ..
  from dn(1) obtain r where r: "text_of dl \<noteq> []" "um (text_of dl) = Inr r" "x = ev r"
    by (auto simp: rc split: if_splits sum.splits)
  with dn(2) have d: "d r" by (simp add: tm)
  have "P = (None, [req], foldl (\<lambda>s r. s @ [ev r]) [] (records um pre) @ [ev r])"
    unfolding P
    by (rule response_case_done [OF o b sh shd nc not_terminal [where rc = rc and um = um and ev = ev and d = d, OF rc tm nt]
          r(1) r(2) d])
  then show ?thesis
    by (simp add: streamed_def foldl_recording records_events [where rc = rc and um = um and ev = ev, OF rc] r(3))
qed

lemma response_outcome_cancel:
  assumes P: "P = (case stream_open L c ctx n p v of
                     (Inl e, rs) \<Rightarrow> (Some e, rs, [])
                   | (Inr body, rs) \<Rightarrow>
                       (case response_loop um d ctx (\<lambda>r tr. tr @ [ev r]) 0 (NewScanner body) [] of
                          Returned e st' \<Rightarrow> (Some e, rs, st')
                        | LeftLoop sc st' \<Rightarrow> (stream_close n' sc, rs, st')))"
    and rc: "\<And>l. rc l = (if text_of l = [] then None
                       else (case um (text_of l) of Inl e \<Rightarrow> None | Inr r \<Rightarrow> Some (ev r)))"
    and tm: "\<And>r. terminal (ev r) = d r"
    and t: "\<And>req. httpClient c req = Inr resp"
    and ok: "200 \<le> StatusCode resp" "StatusCode resp < 300"
    and b: "bytes (Response.Body resp) = lines_body pre @ l @ CHR 0x0A # after"
    and sh: "\<forall>l \<in> set pre. short_line l" and shl: "short_line l"
    and nc: "\<forall>k < length pre. ctx k = None"
    and nt: "\<forall>r \<in> set (List.map_filter rc pre). \<not> terminal r"
    and cn: "ctx (length pre) = Some err"
    and n: "sent (streamed P) \<noteq> []"
  shows "failed (streamed P) = Some err \<and> delivered (streamed P) = List.map_filter rc pre"
proof -
  from n have "snd (stream_open L c ctx n p v) \<noteq> []"
    by (simp add: streamed_def P stream_sent)
  from opened [OF t ok this] obtain req
    where o: "stream_open L c ctx n p v = (Inr (Response.Body resp), [req])" ..
  have "P = (Some err, [req], foldl (\<lambda>s r. s @ [ev r]) [] (records um pre))"
    unfolding P
    by (rule response_case_cancel [OF o b sh shl nc not_terminal [where rc = rc and um = um and ev = ev and d = d, OF rc tm nt] cn])
  then show ?thesis
    by (simp add: streamed_def foldl_recording records_events [where rc = rc and um = um and ev = ev, OF rc])
qed

lemma record_of_Pull:
  "record_of L (CallPull m fn) l =
     (if text_of l = [] then None
      else (case Unmarshal_PullProgress (text_of l) of Inl e \<Rightarrow> None | Inr r \<Rightarrow> Some (PullEvent r)))"
  by (simp add: record_of_def)

lemma record_of_Create:
  "record_of L (CallCreate m mf fn) l =
     (if text_of l = [] then None
      else (case Unmarshal_CreateProgress (text_of l) of Inl e \<Rightarrow> None | Inr r \<Rightarrow> Some (CreateEvent r)))"
  by (simp add: record_of_def)

lemma record_of_Push:
  "record_of L (CallPush m fn) l =
     (if text_of l = [] then None
      else (case Unmarshal_PushProgress (text_of l) of Inl e \<Rightarrow> None | Inr r \<Rightarrow> Some (PushEvent r)))"
  by (simp add: record_of_def)

lemma record_of_GenerateStream:
  "record_of L (CallGenerateStream q fn) l =
     (if text_of l = [] then None
      else (case Unmarshal_GenerateResponse L (text_of l) of
              Inl e \<Rightarrow> None | Inr r \<Rightarrow> Some (GenerateEvent r)))"
  by (simp add: record_of_def)

lemma record_of_ChatStream:
  "record_of L (CallChatStream q fn) l =
     (if text_of l = [] then None
      else (case Unmarshal_ChatResponse L (text_of l) of
              Inl e \<Rightarrow> None | Inr r \<Rightarrow> Some (ChatEvent r)))"
  by (simp add: record_of_def)

lemma perform_GenerateStream:
  assumes "\<not> missing_required H (CallGenerateStream q fn)"
  shows "\<exists>p. q = Some p \<and> fn \<and>
     perform L c ctx H (CallGenerateStream q fn) =
       streamed (case stream_open L c ctx ''generate'' ''/api/generate''
                   (GenerateRequestV ((generateRequests H ! p)\<lparr>GenerateRequest.Stream := True\<rparr>)) of
              (Inl e, rs) \<Rightarrow> (Some e, rs, [])
            | (Inr body, rs) \<Rightarrow>
                (case response_loop (Unmarshal_GenerateResponse L) GenerateResponse.Done ctx
                        (\<lambda>r tr. tr @ [GenerateEvent r]) 0 (NewScanner body) [] of
                   Returned e st' \<Rightarrow> (Some e, rs, st')
                 | LeftLoop sc st' \<Rightarrow> (stream_close ''generate'' sc, rs, st')))"
  using assms by (cases q; cases fn) (simp_all add: GenerateStream_Some recording_def)

lemma perform_ChatStream:
  assumes "\<not> missing_required H (CallChatStream q fn)"
  shows "\<exists>p. q = Some p \<and> fn \<and>
     perform L c ctx H (CallChatStream q fn) =
       streamed (case stream_open L c ctx ''chat'' ''/api/chat''
                   (ChatRequestV ((chatRequests H ! p)\<lparr>ChatRequest.Stream := True\<rparr>)) of
              (Inl e, rs) \<Rightarrow> (Some e, rs, [])
            | (Inr body, rs) \<Rightarrow>
                (case response_loop (Unmarshal_ChatResponse L) ChatResponse.Done ctx
                        (\<lambda>r tr. tr @ [ChatEvent r]) 0 (NewScanner body) [] of
                   Returned e st' \<Rightarrow> (Some e, rs, st')
                 | LeftLoop sc st' \<Rightarrow> (stream_close ''chat'' sc, rs, st')))"
  using assms by (cases q; cases fn) (simp_all add: ChatStream_Some recording_def)

lemma perform_Pull:
  assumes "\<not> missing_required H (CallPull m fn)"
  shows "perform L c ctx H (CallPull m fn) =
       streamed (case stream_open L c ctx ''pull'' ''/api/pull''
                        (PullRequestV \<lparr>PullRequest.Model = m\<rparr>) of
              (Inl e, rs) \<Rightarrow> (Some e, rs, [])
            | (Inr body, rs) \<Rightarrow>
                (case progress_loop Unmarshal_PullProgress (\<lambda>r tr. tr @ [PullEvent r])
                        (NewScanner body) [] of
                   (sc, st') \<Rightarrow> (stream_close ''pull'' sc, rs, st')))"
  using assms by (simp add: Pull_Some recording_def)

lemma perform_Create:
  assumes "\<not> missing_required H (CallCreate m mf fn)"
  shows "perform L c ctx H (CallCreate m mf fn) =
       streamed (case stream_open L c ctx ''create'' ''/api/create''
                        (CreateRequestV \<lparr>CreateRequest.Model = m, Modelfile = mf\<rparr>) of
              (Inl e, rs) \<Rightarrow> (Some e, rs, [])
            | (Inr body, rs) \<Rightarrow>
                (case progress_loop Unmarshal_CreateProgress (\<lambda>r tr. tr @ [CreateEvent r])
                        (NewScanner body) [] of
                   (sc, st') \<Rightarrow> (stream_close ''create'' sc, rs, st')))"
  using assms by (simp add: Create_Some recording_def)

lemma perform_Push:
  assumes "\<not> missing_required H (CallPush m fn)"
  shows "perform L c ctx H (CallPush m fn) =
       streamed (case stream_open L c ctx ''push'' ''/api/push''
                        (PushRequestV \<lparr>PushRequest.Model = m\<rparr>) of
              (Inl e, rs) \<Rightarrow> (Some e, rs, [])
            | (Inr body, rs) \<Rightarrow>
                (case progress_loop Unmarshal_PushProgress (\<lambda>r tr. tr @ [PushEvent r])
                        (NewScanner body) [] of
                   (sc, st') \<Rightarrow> (stream_close ''push'' sc, rs, st')))"
  using assms by (simp add: Push_Some recording_def)

lemma perform_lines:
  assumes s: "streaming cl" and v: "\<not> missing_required H cl"
    and t: "\<And>req. httpClient c req = Inr resp"
    and ok: "200 \<le> StatusCode resp" "StatusCode resp < 300"
    and b: "bytes (Response.Body resp) = lines_body ls"
    and e: "failure (Response.Body resp) = None"
    and sh: "\<forall>l \<in> set ls. short_line l"
    and nc: "reports_done cl \<Longrightarrow> \<forall>k < length ls. ctx k = None"
    and nt: "reports_done cl \<Longrightarrow> \<forall>r \<in> set (List.map_filter (record_of L cl) ls). \<not> terminal r"
    and n: "sent (perform L c ctx H cl) \<noteq> []"
  shows "failed (perform L c ctx H cl) = None
         \<and> delivered (perform L c ctx H cl) = List.map_filter (record_of L cl) ls"
proof (cases cl)
  case (CallPull m fn)
  show ?thesis
    using n unfolding CallPull perform_Pull [OF v [unfolded CallPull]]
    by (rule progress_outcome [OF refl record_of_Pull t ok b e sh])
next
  case (CallCreate m mf fn)
  show ?thesis
    using n unfolding CallCreate perform_Create [OF v [unfolded CallCreate]]
    by (rule progress_outcome [OF refl record_of_Create t ok b e sh])
next
  case (CallPush m fn)
  show ?thesis
    using n unfolding CallPush perform_Push [OF v [unfolded CallPush]]
    by (rule progress_outcome [OF refl record_of_Push t ok b e sh])
next
  case (CallGenerateStream q fn)
  from perform_GenerateStream [OF v [unfolded CallGenerateStream]] obtain p
    where p: "perform L c ctx H (CallGenerateStream q fn) =
       streamed (case stream_open L c ctx ''generate'' ''/api/generate''
                   (GenerateRequestV ((generateRequests H ! p)\<lparr>GenerateRequest.Stream := True\<rparr>)) of
              (Inl e, rs) \<Rightarrow> (Some e, rs, [])
            | (Inr body, rs) \<Rightarrow>
                (case response_loop (Unmarshal_GenerateResponse L) GenerateResponse.Done ctx
                        (\<lambda>r tr. tr @ [GenerateEvent r]) 0 (NewScanner body) [] of
                   Returned e st' \<Rightarrow> (Some e, rs, st')
                 | LeftLoop sc st' \<Rightarrow> (stream_close ''generate'' sc, rs, st')))"
    by blast
  have nc': "\<forall>k < length ls. ctx k = None" using nc CallGenerateStream by simp
  have nt': "\<forall>r \<in> set (List.map_filter (record_of L (CallGenerateStream q fn)) ls). \<not> terminal r"
    using nt CallGenerateStream by simp
  show ?thesis
    using n unfolding CallGenerateStream p
    by (rule response_outcome [OF refl record_of_GenerateStream terminal.simps(1) t ok b e sh
          nc' nt'])
next
  case (CallChatStream q fn)
  from perform_ChatStream [OF v [unfolded CallChatStream]] obtain p
    where p: "perform L c ctx H (CallChatStream q fn) =
       streamed (case stream_open L c ctx ''chat'' ''/api/chat''
                   (ChatRequestV ((chatRequests H ! p)\<lparr>ChatRequest.Stream := True\<rparr>)) of
              (Inl e, rs) \<Rightarrow> (Some e, rs, [])
            | (Inr body, rs) \<Rightarrow>
                (case response_loop (Unmarshal_ChatResponse L) ChatResponse.Done ctx
                        (\<lambda>r tr. tr @ [ChatEvent r]) 0 (NewScanner body) [] of
                   Returned e st' \<Rightarrow> (Some e, rs, st')
                 | LeftLoop sc st' \<Rightarrow> (stream_close ''chat'' sc, rs, st')))"
    by blast
  have nc': "\<forall>k < length ls. ctx k = None" using nc CallChatStream by simp
  have nt': "\<forall>r \<in> set (List.map_filter (record_of L (CallChatStream q fn)) ls). \<not> terminal r"
    using nt CallChatStream by simp
  show ?thesis
    using n unfolding CallChatStream p
    by (rule response_outcome [OF refl record_of_ChatStream terminal.simps(2) t ok b e sh
          nc' nt'])
qed (use s in simp_all)

lemma perform_done:
  assumes s: "reports_done cl" and v: "\<not> missing_required H cl"
    and t: "\<And>req. httpClient c req = Inr resp"
    and ok: "200 \<le> StatusCode resp" "StatusCode resp < 300"
    and b: "bytes (Response.Body resp) = lines_body pre @ dl @ CHR 0x0A # after"
    and sh: "\<forall>l \<in> set pre. short_line l" and shd: "short_line dl"
    and nc: "\<forall>k \<le> length pre. ctx k = None"
    and nt: "\<forall>r \<in> set (List.map_filter (record_of L cl) pre). \<not> terminal r"
    and dn: "record_of L cl dl = Some x" "terminal x"
    and n: "sent (perform L c ctx H cl) \<noteq> []"
  shows "failed (perform L c ctx H cl) = None
         \<and> delivered (perform L c ctx H cl) = List.map_filter (record_of L cl) pre @ [x]"
proof (cases cl)
  case (CallGenerateStream q fn)
  from perform_GenerateStream [OF v [unfolded CallGenerateStream]] obtain p
    where p: "perform L c ctx H (CallGenerateStream q fn) =
       streamed (case stream_open L c ctx ''generate'' ''/api/generate''
                   (GenerateRequestV ((generateRequests H ! p)\<lparr>GenerateRequest.Stream := True\<rparr>)) of
              (Inl e, rs) \<Rightarrow> (Some e, rs, [])
            | (Inr body, rs) \<Rightarrow>
                (case response_loop (Unmarshal_GenerateResponse L) GenerateResponse.Done ctx
                        (\<lambda>r tr. tr @ [GenerateEvent r]) 0 (NewScanner body) [] of
                   Returned e st' \<Rightarrow> (Some e, rs, st')
                 | LeftLoop sc st' \<Rightarrow> (stream_close ''generate'' sc, rs, st')))"
    by blast
  show ?thesis
    using n unfolding CallGenerateStream p
    by (rule response_outcome_done [OF refl record_of_GenerateStream terminal.simps(1) t ok b
          sh shd nc nt [unfolded CallGenerateStream] dn(1) [unfolded CallGenerateStream] dn(2)])
next
  case (CallChatStream q fn)
  from perform_ChatStream [OF v [unfolded CallChatStream]] obtain p
    where p: "perform L c ctx H (CallChatStream q fn) =
       streamed (case stream_open L c ctx ''chat'' ''/api/chat''
                   (ChatRequestV ((chatRequests H ! p)\<lparr>ChatRequest.Stream := True\<rparr>)) of
              (Inl e, rs) \<Rightarrow> (Some e, rs, [])
            | (Inr body, rs) \<Rightarrow>
                (case response_loop (Unmarshal_ChatResponse L) ChatResponse.Done ctx
                        (\<lambda>r tr. tr @ [ChatEvent r]) 0 (NewScanner body) [] of
                   Returned e st' \<Rightarrow> (Some e, rs, st')
                 | LeftLoop sc st' \<Rightarrow> (stream_close ''chat'' sc, rs, st')))"
    by blast
  show ?thesis
    using n unfolding CallChatStream p
    by (rule response_outcome_done [OF refl record_of_ChatStream terminal.simps(2) t ok b
          sh shd nc nt [unfolded CallChatStream] dn(1) [unfolded CallChatStream] dn(2)])
qed (use s in simp_all)

lemma perform_cancel:
  assumes s: "reports_done cl" and v: "\<not> missing_required H cl"
    and t: "\<And>req. httpClient c req = Inr resp"
    and ok: "200 \<le> StatusCode resp" "StatusCode resp < 300"
    and b: "bytes (Response.Body resp) = lines_body pre @ l @ CHR 0x0A # after"
    and sh: "\<forall>l \<in> set pre. short_line l" and shl: "short_line l"
    and nc: "\<forall>k < length pre. ctx k = None"
    and nt: "\<forall>r \<in> set (List.map_filter (record_of L cl) pre). \<not> terminal r"
    and cn: "ctx (length pre) = Some err"
    and n: "sent (perform L c ctx H cl) \<noteq> []"
  shows "failed (perform L c ctx H cl) = Some err
         \<and> delivered (perform L c ctx H cl) = List.map_filter (record_of L cl) pre"
proof (cases cl)
  case (CallGenerateStream q fn)
  from perform_GenerateStream [OF v [unfolded CallGenerateStream]] obtain p
    where p: "perform L c ctx H (CallGenerateStream q fn) =
       streamed (case stream_open L c ctx ''generate'' ''/api/generate''
                   (GenerateRequestV ((generateRequests H ! p)\<lparr>GenerateRequest.Stream := True\<rparr>)) of
              (Inl e, rs) \<Rightarrow> (Some e, rs, [])
            | (Inr body, rs) \<Rightarrow>
                (case response_loop (Unmarshal_GenerateResponse L) GenerateResponse.Done ctx
                        (\<lambda>r tr. tr @ [GenerateEvent r]) 0 (NewScanner body) [] of
                   Returned e st' \<Rightarrow> (Some e, rs, st')
                 | LeftLoop sc st' \<Rightarrow> (stream_close ''generate'' sc, rs, st')))"
    by blast
  show ?thesis
    using n unfolding CallGenerateStream p
    by (rule response_outcome_cancel [OF refl record_of_GenerateStream terminal.simps(1) t ok b
          sh shl nc nt [unfolded CallGenerateStream] cn])
next
  case (CallChatStream q fn)
  from perform_ChatStream [OF v [unfolded CallChatStream]] obtain p
    where p: "perform L c ctx H (CallChatStream q fn) =
       streamed (case stream_open L c ctx ''chat'' ''/api/chat''
                   (ChatRequestV ((chatRequests H ! p)\<lparr>ChatRequest.Stream := True\<rparr>)) of
              (Inl e, rs) \<Rightarrow> (Some e, rs, [])
            | (Inr body, rs) \<Rightarrow>
                (case response_loop (Unmarshal_ChatResponse L) ChatResponse.Done ctx
                        (\<lambda>r tr. tr @ [ChatEvent r]) 0 (NewScanner body) [] of
                   Returned e st' \<Rightarrow> (Some e, rs, st')
                 | LeftLoop sc st' \<Rightarrow> (stream_close ''chat'' sc, rs, st')))"
    by blast
  show ?thesis
    using n unfolding CallChatStream p
    by (rule response_outcome_cancel [OF refl record_of_ChatStream terminal.simps(2) t ok b
          sh shl nc nt [unfolded CallChatStream] cn])
qed (use s in simp_all)

subsection \<open>What the operations return and send\<close>



lemma do_sends:
  assumes j: "JoinPath L (baseURL c) p = Inr u"
    and b: "case rb of None \<Rightarrow> True | Some v \<Rightarrow> (\<exists>jd. Marshal L v = Inr jd)"
    and nr: "\<And>m u. NewRequestErr L m u = None"
  shows "snd (do L c ctx m p rb tg) \<noteq> []"
  using assms
  by (cases rb)
     (auto simp: do_def NewRequestWithContext_def Let_def split: option.split sum.split)

lemma stream_open_sends:
  assumes j: "JoinPath L (baseURL c) p = Inr u"
    and b: "Marshal L v = Inr jd"
    and nr: "\<And>m u. NewRequestErr L m u = None"
  shows "snd (stream_open L c ctx n p v) \<noteq> []"
  using assms
  by (auto simp: stream_open_def NewRequestWithContext_def Let_def split: option.split sum.split)


lemma sent_finish: "sent (unary (finish fmt as z r)) = snd r"
  by (simp add: unary_def finish_def split: sum.split option.split)


lemma Marshal_Generate_encodable:
  "(\<exists>jd. Marshal_GenerateRequest L (g\<lparr>GenerateRequest.Stream := b\<rparr>) = Inr jd)
   = (\<exists>os. GenerateRequest.Options g = Inr os)"
  by (cases "GenerateRequest.Options g") (simp_all add: Marshal_GenerateRequest_def)

lemma Marshal_Chat_encodable:
  "(\<exists>jd. Marshal_ChatRequest L (g\<lparr>ChatRequest.Stream := b\<rparr>) = Inr jd)
   = (\<exists>os. ChatRequest.Options g = Inr os)"
  by (cases "ChatRequest.Options g") (simp_all add: Marshal_ChatRequest_def)





lemma perform_sends:
  assumes j: "\<And>p. \<exists>u. JoinPath L (baseURL c) p = Inr u"
    and nr: "\<And>m u. NewRequestErr L m u = None"
    and v: "\<not> missing_required H cl" and en: "encodable H cl"
  shows "sent (perform L c ctx H cl) \<noteq> []"
proof -
  have d: "\<And>m p rb tg. (case rb of None \<Rightarrow> True | Some v \<Rightarrow> (\<exists>jd. Marshal L v = Inr jd)) \<Longrightarrow>
      snd (do L c ctx m p rb tg) \<noteq> []"
  proof -
    fix m p rb and tg :: "(string \<Rightarrow> error + 'x) option"
    assume b: "case rb of None \<Rightarrow> True | Some v \<Rightarrow> (\<exists>jd. Marshal L v = Inr jd)"
    obtain u where u: "JoinPath L (baseURL c) p = Inr u" using j by blast
    show "snd (do L c ctx m p rb tg) \<noteq> []" by (rule do_sends [OF u b nr])
  qed
  have o: "\<And>n p pl. (\<exists>jd. Marshal L pl = Inr jd) \<Longrightarrow> snd (stream_open L c ctx n p pl) \<noteq> []"
  proof -
    fix n p pl
    assume "\<exists>jd. Marshal L pl = Inr jd"
    then obtain jd where b: "Marshal L pl = Inr jd" ..
    obtain u where u: "JoinPath L (baseURL c) p = Inr u" using j by blast
    show "snd (stream_open L c ctx n p pl) \<noteq> []" by (rule stream_open_sends [OF u b nr])
  qed
  show ?thesis
  proof (cases cl)
    case CallList
    then show ?thesis by (simp add: List_def sent_finish d)
  next
    case (CallShow m)
    with v show ?thesis by (simp add: Show_def sent_finish d)
  next
    case (CallCopy a b)
    have "snd (do L c ctx MethodPost ''/api/copy''
                 (Some (CopyRequestV \<lparr>Source = a, Destination = b\<rparr>))
                 (None :: (string \<Rightarrow> error + unit) option)) \<noteq> []"
      by (rule d) simp
    with v CallCopy show ?thesis by (auto simp: Copy_def split: prod.split sum.split)
  next
    case (CallDelete m)
    have "snd (do L c ctx MethodDelete ''/api/delete''
                 (Some (DeleteRequestV \<lparr>DeleteRequest.Model = m\<rparr>))
                 (None :: (string \<Rightarrow> error + unit) option)) \<noteq> []"
      by (rule d) simp
    with v CallDelete show ?thesis by (auto simp: Delete_def split: prod.split sum.split)
  next
    case (CallPull m fn)
    show ?thesis
      unfolding CallPull perform_Pull [OF v [unfolded CallPull]]
      by (simp add: streamed_def progress_case_sent o)
  next
    case (CallCreate m mf fn)
    show ?thesis
      unfolding CallCreate perform_Create [OF v [unfolded CallCreate]]
      by (simp add: streamed_def progress_case_sent o)
  next
    case (CallPush m fn)
    show ?thesis
      unfolding CallPush perform_Push [OF v [unfolded CallPush]]
      by (simp add: streamed_def progress_case_sent o)
  next
    case (CallGenerate q)
    with v en show ?thesis
      by (cases q)
         (auto simp: Generate_Some sent_finish d Marshal_Generate_encodable split: sum.splits)
  next
    case (CallGenerateStream q fn)
    from perform_GenerateStream [OF v [unfolded CallGenerateStream], of L c ctx] obtain p
      where q: "q = Some p"
        and p: "perform L c ctx H (CallGenerateStream q fn) =
       streamed (case stream_open L c ctx ''generate'' ''/api/generate''
                   (GenerateRequestV ((generateRequests H ! p)\<lparr>GenerateRequest.Stream := True\<rparr>)) of
              (Inl e, rs) \<Rightarrow> (Some e, rs, [])
            | (Inr body, rs) \<Rightarrow>
                (case response_loop (Unmarshal_GenerateResponse L) GenerateResponse.Done ctx
                        (\<lambda>r tr. tr @ [GenerateEvent r]) 0 (NewScanner body) [] of
                   Returned e st' \<Rightarrow> (Some e, rs, st')
                 | LeftLoop sc st' \<Rightarrow> (stream_close ''generate'' sc, rs, st')))"
      by blast
    from en q CallGenerateStream
    have "\<exists>jd. Marshal L (GenerateRequestV
             ((generateRequests H ! p)\<lparr>GenerateRequest.Stream := True\<rparr>)) = Inr jd"
      by (auto simp: Marshal_Generate_encodable split: sum.splits)
    from o [OF this, of "''generate''" "''/api/generate''"]
    show ?thesis unfolding CallGenerateStream p by (simp add: streamed_def stream_sent)
  next
    case (CallChat q)
    with v en show ?thesis
      by (cases q)
         (auto simp: Chat_Some sent_finish d Marshal_Chat_encodable split: sum.splits)
  next
    case (CallChatStream q fn)
    from perform_ChatStream [OF v [unfolded CallChatStream], of L c ctx] obtain p
      where q: "q = Some p"
        and p: "perform L c ctx H (CallChatStream q fn) =
       streamed (case stream_open L c ctx ''chat'' ''/api/chat''
                   (ChatRequestV ((chatRequests H ! p)\<lparr>ChatRequest.Stream := True\<rparr>)) of
              (Inl e, rs) \<Rightarrow> (Some e, rs, [])
            | (Inr body, rs) \<Rightarrow>
                (case response_loop (Unmarshal_ChatResponse L) ChatResponse.Done ctx
                        (\<lambda>r tr. tr @ [ChatEvent r]) 0 (NewScanner body) [] of
                   Returned e st' \<Rightarrow> (Some e, rs, st')
                 | LeftLoop sc st' \<Rightarrow> (stream_close ''chat'' sc, rs, st')))"
      by blast
    from en q CallChatStream
    have "\<exists>jd. Marshal L (ChatRequestV
             ((chatRequests H ! p)\<lparr>ChatRequest.Stream := True\<rparr>)) = Inr jd"
      by (auto simp: Marshal_Chat_encodable split: sum.splits)
    from o [OF this, of "''chat''" "''/api/chat''"]
    show ?thesis unfolding CallChatStream p by (simp add: streamed_def stream_sent)
  next
    case (CallEmbeddings q)
    with v show ?thesis by (cases q) (simp_all add: Embeddings_def sent_finish d)
  next
    case CallPS
    then show ?thesis by (simp add: PS_def sent_finish d)
  qed
qed

subsection \<open>Responses outside 2xx\<close>

lemma example_lib_builds:
  "\<exists>u. JoinPath example_lib (baseURL c) p = Inr u" "NewRequestErr example_lib m u' = None"
  by (simp_all add: example_lib_def)

lemma example_server_answers:
  "httpClient (example_server code body ending) req
   = Inr \<lparr>StatusCode = code, Body = \<lparr>bytes = body, failure = ending\<rparr>\<rparr>"
  by (simp add: example_server_def)




subsection \<open>Errors and their wrapping\<close>




subsection \<open>The lines of a body\<close>

lemma Lines_line: "CHR 0x0A \<notin> set l \<Longrightarrow> Lines (l @ CHR 0x0A # s) = l # Lines s"
  by (induction l) auto

lemma Lines_rest: "CHR 0x0A \<notin> set r \<Longrightarrow> Lines r = (if r = [] then [] else [r])"
  by (induction r) (auto split: list.split)

lemma Lines_lines_body:
  "\<forall>l \<in> set ls. CHR 0x0A \<notin> set l \<Longrightarrow> CHR 0x0A \<notin> set r \<Longrightarrow>
   Lines (lines_body ls @ r) = ls @ (if r = [] then [] else [r])"
proof (induction ls)
  case Nil
  then show ?case using Lines_rest [of r] by (simp add: lines_body_def)
next
  case (Cons l ls)
  then have "Lines (lines_body ls @ r) = ls @ (if r = [] then [] else [r])" by simp
  moreover have "lines_body (l # ls) @ r = l @ CHR 0x0A # (lines_body ls @ r)"
    by (simp add: lines_body_def)
  ultimately show ?case using Cons.prems by (simp add: Lines_line)
qed

lemma body_split:
  "\<exists>ls r. s = lines_body ls @ r \<and> (\<forall>l \<in> set ls. CHR 0x0A \<notin> set l) \<and> CHR 0x0A \<notin> set r"
proof (induction s)
  case Nil
  have "[] = lines_body [] @ []" by (simp add: lines_body_def)
  then show ?case by fastforce
next
  case (Cons c s)
  then obtain ls r where s: "s = lines_body ls @ r"
    and ls: "\<forall>l \<in> set ls. CHR 0x0A \<notin> set l" and r: "CHR 0x0A \<notin> set r"
    by blast
  show ?case
  proof (cases "c = CHR 0x0A")
    case True
    have "c # s = lines_body ([] # ls) @ r" using True s by (simp add: lines_body_def)
    moreover have "\<forall>l \<in> set ([] # ls). CHR 0x0A \<notin> set l" using ls by simp
    ultimately show ?thesis using r by blast
  next
    case False
    show ?thesis
    proof (cases ls)
      case Nil
      have "c # s = lines_body [] @ (c # r)" using s Nil by (simp add: lines_body_def)
      moreover have "CHR 0x0A \<notin> set (c # r)" using r False by simp
      ultimately show ?thesis by fastforce
    next
      case (Cons l ls')
      have "c # s = lines_body ((c # l) # ls') @ r" using s Cons by (simp add: lines_body_def)
      moreover have "\<forall>x \<in> set ((c # l) # ls'). CHR 0x0A \<notin> set x"
        using ls Cons False by simp
      ultimately show ?thesis using r by blast
    qed
  qed
qed

lemma Lines_no_newline: "l \<in> set (Lines s) \<Longrightarrow> CHR 0x0A \<notin> set l"
proof -
  assume a: "l \<in> set (Lines s)"
  obtain ls r where s: "s = lines_body ls @ r"
    and ls: "\<forall>l \<in> set ls. CHR 0x0A \<notin> set l" and r: "CHR 0x0A \<notin> set r"
    using body_split by blast
  from a show ?thesis unfolding s Lines_lines_body [OF ls r] using ls r
    by (auto split: if_splits)
qed

lemma Scan_last:
  "CHR 0x0A \<notin> set r \<Longrightarrow> r \<noteq> [] \<Longrightarrow> length r < MaxScanTokenSize \<Longrightarrow> buf sc = r \<Longrightarrow>
   Scan sc = (Some (dropCR r), sc\<lparr>buf := [], scanErr := srcErr sc\<rparr>)"
  by (simp add: Scan_def IndexByte_None)

lemma progress_loop_rest:
  assumes n: "CHR 0x0A \<notin> set r" and sh: "length r < MaxScanTokenSize" and b: "buf sc = r"
  shows "progress_loop um fn sc st
         = (sc\<lparr>buf := [], scanErr := srcErr sc\<rparr>,
            foldl (\<lambda>s x. fn x s) st (records um (if r = [] then [] else [r])))"
proof (cases "r = []")
  case True
  with b have "sc\<lparr>scanErr := srcErr sc\<rparr> = sc\<lparr>buf := [], scanErr := srcErr sc\<rparr>" by simp
  with True b show ?thesis
    by (simp add: progress_loop_None [OF Scan_empty] records_Nil)
next
  case False
  let ?sc = "sc\<lparr>buf := [], scanErr := srcErr sc\<rparr>"
  have s: "Scan sc = (Some (dropCR r), ?sc)" by (rule Scan_last [OF n False sh b])
  have "Scan ?sc = (None, ?sc\<lparr>scanErr := srcErr ?sc\<rparr>)" by (rule Scan_empty) simp
  then have e: "\<And>st. progress_loop um fn ?sc st = (?sc, st)"
    by (simp add: progress_loop_None)
  show ?thesis
  proof (cases "text_of r = []")
    case True
    with False show ?thesis
      by (simp add: progress_loop_blank [OF s] e records_Cons records_Nil text_of_def)
  next
    case ne: False
    show ?thesis
    proof (cases "um (text_of r)")
      case (Inl x)
      with False ne show ?thesis
        by (simp add: progress_loop_malformed [OF s] e records_Cons records_Nil text_of_def)
    next
      case (Inr x)
      with False ne show ?thesis
        by (simp add: progress_loop_record [OF s] e records_Cons records_Nil text_of_def)
    qed
  qed
qed

lemma response_loop_rest:
  assumes n: "CHR 0x0A \<notin> set r" and sh: "length r < MaxScanTokenSize" and b: "buf sc = r"
    and c: "r \<noteq> [] \<Longrightarrow> ctx k = None"
  shows "response_loop um d ctx fn k sc st
         = LeftLoop (sc\<lparr>buf := [], scanErr := srcErr sc\<rparr>)
             (foldl (\<lambda>s x. fn x s) st (records um (if r = [] then [] else [r])))"
proof (cases "r = []")
  case True
  with b have "sc\<lparr>scanErr := srcErr sc\<rparr> = sc\<lparr>buf := [], scanErr := srcErr sc\<rparr>" by simp
  with True b show ?thesis
    by (simp add: response_loop_None [OF Scan_empty] records_Nil)
next
  case False
  let ?sc = "sc\<lparr>buf := [], scanErr := srcErr sc\<rparr>"
  have s: "Scan sc = (Some (dropCR r), ?sc)" by (rule Scan_last [OF n False sh b])
  have c0: "ctx k = None" using c False by simp
  have "Scan ?sc = (None, ?sc\<lparr>scanErr := srcErr ?sc\<rparr>)" by (rule Scan_empty) simp
  then have e: "\<And>st k. response_loop um d ctx fn k ?sc st = LeftLoop ?sc st"
    by (simp add: response_loop_None)
  show ?thesis
  proof (cases "text_of r = []")
    case True
    with False show ?thesis
      by (simp add: response_loop_blank [where ctx = ctx and k = k, OF s c0] e
          records_Cons records_Nil text_of_def)
  next
    case ne: False
    show ?thesis
    proof (cases "um (text_of r)")
      case (Inl x)
      with False ne show ?thesis
        by (simp add: response_loop_malformed [where ctx = ctx and k = k, OF s c0] e
            records_Cons records_Nil text_of_def)
    next
      case (Inr x)
      show ?thesis
      proof (cases "d x")
        case True
        with False ne Inr show ?thesis
          by (simp add: response_loop_done [where ctx = ctx and k = k, OF s c0]
              records_Cons records_Nil text_of_def)
      next
        case nd: False
        with False ne Inr show ?thesis
          by (simp add: response_loop_more [where ctx = ctx and k = k, OF s c0] e
              records_Cons records_Nil text_of_def)
      qed
    qed
  qed
qed

lemma records_append: "records um (xs @ ys) = records um xs @ records um ys"
  by (simp add: records_def List.map_filter_def)

lemma stream_close_eq:
  "stream_close n sc
   = map_option (Wrapf (''error reading '' @ n @ '' response stream: %w'') []) (scanErr sc)"
  by (simp add: stream_close_def split: option.split)

lemma short_lines:
  "\<forall>l \<in> set ls. CHR 0x0A \<notin> set l \<Longrightarrow> \<forall>l \<in> set ls. length l < MaxScanTokenSize \<Longrightarrow>
   \<forall>l \<in> set ls. short_line l"
  by (simp add: short_line_def)

lemma progress_loop_body:
  assumes sh: "\<forall>l \<in> set (Lines (bytes body)). length l < MaxScanTokenSize"
  shows "progress_loop um fn (NewScanner body) st
         = ((NewScanner body)\<lparr>buf := [], scanErr := failure body\<rparr>,
            foldl (\<lambda>s r. fn r s) st (records um (Lines (bytes body))))"
proof -
  obtain ls r where s: "bytes body = lines_body ls @ r"
    and ls: "\<forall>l \<in> set ls. CHR 0x0A \<notin> set l" and r: "CHR 0x0A \<notin> set r"
    using body_split by blast
  have L: "Lines (bytes body) = ls @ (if r = [] then [] else [r])"
    unfolding s by (rule Lines_lines_body [OF ls r])
  from sh L have shl: "\<forall>l \<in> set ls. length l < MaxScanTokenSize"
    and shr: "length r < MaxScanTokenSize"
    by (auto simp: MaxScanTokenSize_def split: if_splits)
  have b: "buf (NewScanner body) = lines_body ls @ r" using s by (simp add: NewScanner_def)
  have "progress_loop um fn (NewScanner body) st
        = progress_loop um fn ((NewScanner body)\<lparr>buf := r\<rparr>)
            (foldl (\<lambda>s r. fn r s) st (records um ls))"
    by (rule progress_loop_lines [OF short_lines [OF ls shl] b])
  also have "\<dots> = ((NewScanner body)\<lparr>buf := [], scanErr := failure body\<rparr>,
                   foldl (\<lambda>s r. fn r s) st (records um (Lines (bytes body))))"
    by (subst progress_loop_rest [OF r shr])
       (simp_all add: L records_append NewScanner_def)
  finally show ?thesis .
qed

lemma response_loop_body:
  assumes sh: "\<forall>l \<in> set (Lines (bytes body)). length l < MaxScanTokenSize"
    and nc: "\<forall>k < length (Lines (bytes body)). ctx k = None"
    and nt: "\<forall>r \<in> set (records um (Lines (bytes body))). \<not> d r"
  shows "response_loop um d ctx fn 0 (NewScanner body) st
         = LeftLoop ((NewScanner body)\<lparr>buf := [], scanErr := failure body\<rparr>)
             (foldl (\<lambda>s r. fn r s) st (records um (Lines (bytes body))))"
proof -
  obtain ls r where s: "bytes body = lines_body ls @ r"
    and ls: "\<forall>l \<in> set ls. CHR 0x0A \<notin> set l" and r: "CHR 0x0A \<notin> set r"
    using body_split by blast
  have L: "Lines (bytes body) = ls @ (if r = [] then [] else [r])"
    unfolding s by (rule Lines_lines_body [OF ls r])
  from sh L have shl: "\<forall>l \<in> set ls. length l < MaxScanTokenSize"
    and shr: "length r < MaxScanTokenSize"
    by (auto simp: MaxScanTokenSize_def split: if_splits)
  have b: "buf (NewScanner body) = lines_body ls @ r" using s by (simp add: NewScanner_def)
  have nc1: "\<forall>i < length ls. ctx (0 + i) = None" using nc L by simp
  have nc2: "r \<noteq> [] \<Longrightarrow> ctx (length ls) = None" using nc L by simp
  have nt1: "\<forall>x \<in> set (records um ls). \<not> d x" using nt L by (simp add: records_append)
  have "response_loop um d ctx fn 0 (NewScanner body) st
        = response_loop um d ctx fn (length ls) ((NewScanner body)\<lparr>buf := r\<rparr>)
            (foldl (\<lambda>s r. fn r s) st (records um ls))"
    using response_loop_lines [OF short_lines [OF ls shl] b nc1 nt1] by simp
  also have "\<dots> = LeftLoop ((NewScanner body)\<lparr>buf := [], scanErr := failure body\<rparr>)
                   (foldl (\<lambda>s r. fn r s) st (records um (Lines (bytes body))))"
    by (subst response_loop_rest [where ctx = ctx and k = "length ls", OF r shr _ nc2])
       (simp_all add: L records_append NewScanner_def)
  finally show ?thesis .
qed

lemma lines_at:
  assumes L: "ls @ (if r = [] then [] else [r]) = pre @ x # post"
  shows "(\<exists>post'. ls = pre @ x # post' \<and> post = post' @ (if r = [] then [] else [r]))
         \<or> (ls = pre \<and> r = x \<and> r \<noteq> [] \<and> post = [])"
proof (cases "r = []")
  case True
  with L show ?thesis by simp
next
  case False
  with L have e: "ls @ [r] = pre @ x # post" by simp
  show ?thesis
  proof (cases post rule: rev_cases)
    case Nil
    with e False show ?thesis by simp
  next
    case (snoc post' y)
    with e have "ls @ [r] = (pre @ x # post') @ [y]" by simp
    then have "ls = pre @ x # post'" and "r = y" by simp_all
    with snoc False show ?thesis by simp
  qed
qed

lemma lines_body_append: "lines_body (xs @ ys) = lines_body xs @ lines_body ys"
  by (simp add: lines_body_def)

lemma response_loop_body_done:
  assumes L: "Lines (bytes body) = pre @ dl # post"
    and sh: "\<forall>l \<in> set pre. length l < MaxScanTokenSize" "length dl < MaxScanTokenSize"
    and nc: "\<forall>k \<le> length pre. ctx k = None"
    and nt: "\<forall>r \<in> set (records um pre). \<not> d r"
    and dn: "text_of dl \<noteq> []" "um (text_of dl) = Inr x" "d x"
  shows "\<exists>sc. response_loop um d ctx fn 0 (NewScanner body) st
               = LeftLoop sc (fn x (foldl (\<lambda>s r. fn r s) st (records um pre)))
             \<and> scanErr sc = (if post = [] \<and> bytes body \<noteq> [] \<and> last (bytes body) \<noteq> CHR 0x0A
                             then failure body else None)"
proof -
  obtain ls r where s: "bytes body = lines_body ls @ r"
    and ls: "\<forall>l \<in> set ls. CHR 0x0A \<notin> set l" and r: "CHR 0x0A \<notin> set r"
    using body_split by blast
  have "Lines (bytes body) = ls @ (if r = [] then [] else [r])"
    unfolding s by (rule Lines_lines_body [OF ls r])
  with L have "ls @ (if r = [] then [] else [r]) = pre @ dl # post" by simp
  from lines_at [OF this] consider
    (inner) post' where "ls = pre @ dl # post'" "post = post' @ (if r = [] then [] else [r])"
    | (final) "ls = pre" "r = dl" "r \<noteq> []" "post = []"
    by blast
  then show ?thesis
  proof cases
    case inner
    let ?after = "lines_body post' @ r"
    let ?sc = "(NewScanner body)\<lparr>buf := dl @ CHR 0x0A # ?after\<rparr>"
    have pre: "\<forall>l \<in> set pre. short_line l" and dl: "short_line dl"
      using ls sh inner(1) by (simp_all add: short_line_def)
    have b: "buf (NewScanner body) = lines_body pre @ (dl @ CHR 0x0A # ?after)"
      using s inner(1) by (simp add: NewScanner_def lines_body_def)
    have nc1: "\<forall>i < length pre. ctx (0 + i) = None" using nc by simp
    have "response_loop um d ctx fn 0 (NewScanner body) st
          = response_loop um d ctx fn (length pre) ?sc
              (foldl (\<lambda>s r. fn r s) st (records um pre))"
      using response_loop_lines [OF pre b nc1 nt] by simp
    also have "\<dots> = LeftLoop (?sc\<lparr>buf := ?after\<rparr>)
                     (fn x (foldl (\<lambda>s r. fn r s) st (records um pre)))"
    proof -
      have sc: "Scan ?sc = (Some (dropCR dl), ?sc\<lparr>buf := ?after\<rparr>)"
        by (rule Scan_line [OF dl]) simp
      have c: "ctx (length pre) = None" using nc by simp
      show ?thesis
        using dn
        by (simp add: response_loop_done [where ctx = ctx and k = "length pre", OF sc c]
            text_of_def)
    qed
    finally have 1: "response_loop um d ctx fn 0 (NewScanner body) st
          = LeftLoop (?sc\<lparr>buf := ?after\<rparr>)
              (fn x (foldl (\<lambda>s r. fn r s) st (records um pre)))" .
    have "post = [] \<Longrightarrow> bytes body \<noteq> [] \<Longrightarrow> last (bytes body) = CHR 0x0A"
    proof -
      assume "post = []"
      with inner(2) have "post' = []" and "r = []" by (simp_all split: if_splits)
      with s inner(1) have "bytes body = (lines_body pre @ dl) @ [CHR 0x0A]"
        by (simp add: lines_body_def)
      then show "last (bytes body) = CHR 0x0A" by (simp only: last_snoc)
    qed
    then have 2: "scanErr (?sc\<lparr>buf := ?after\<rparr>)
             = (if post = [] \<and> bytes body \<noteq> [] \<and> last (bytes body) \<noteq> CHR 0x0A
                then failure body else None)"
      by (auto simp: NewScanner_def)
    from 1 2 show ?thesis by blast
  next
    case final
    let ?sc = "(NewScanner body)\<lparr>buf := dl\<rparr>"
    let ?sc' = "?sc\<lparr>buf := [], scanErr := srcErr ?sc\<rparr>"
    have pre: "\<forall>l \<in> set pre. short_line l"
      using ls sh final(1) by (simp add: short_line_def)
    have b: "buf (NewScanner body) = lines_body pre @ dl"
      using s final by (simp add: NewScanner_def)
    have nc1: "\<forall>i < length pre. ctx (0 + i) = None" using nc by simp
    have "response_loop um d ctx fn 0 (NewScanner body) st
          = response_loop um d ctx fn (length pre) ?sc
              (foldl (\<lambda>s r. fn r s) st (records um pre))"
      using response_loop_lines [OF pre b nc1 nt] by simp
    also have "\<dots> = LeftLoop ?sc' (fn x (foldl (\<lambda>s r. fn r s) st (records um pre)))"
    proof -
      have n: "CHR 0x0A \<notin> set dl" using r final by simp
      have ne: "dl \<noteq> []" using final by simp
      have sc: "Scan ?sc = (Some (dropCR dl), ?sc')"
        by (rule Scan_last [OF n ne sh(2)]) simp
      have c: "ctx (length pre) = None" using nc by simp
      show ?thesis
        using dn
        by (simp add: response_loop_done [where ctx = ctx and k = "length pre", OF sc c]
            text_of_def)
    qed
    finally have 1: "response_loop um d ctx fn 0 (NewScanner body) st
          = LeftLoop ?sc' (fn x (foldl (\<lambda>s r. fn r s) st (records um pre)))" .
    have "last dl \<in> set dl" using final by simp
    with r final have "last dl \<noteq> CHR 0x0A" by metis
    then have "bytes body \<noteq> []" and "last (bytes body) \<noteq> CHR 0x0A"
      using s final by (simp_all add: last_append)
    with final(4) have 2: "scanErr ?sc'
             = (if post = [] \<and> bytes body \<noteq> [] \<and> last (bytes body) \<noteq> CHR 0x0A
                then failure body else None)"
      by (simp add: NewScanner_def)
    from 1 2 show ?thesis by blast
  qed
qed

lemma response_loop_body_cancel:
  assumes L: "Lines (bytes body) = pre @ l # post"
    and sh: "\<forall>l \<in> set pre. length l < MaxScanTokenSize" "length l < MaxScanTokenSize"
    and nc: "\<forall>k < length pre. ctx k = None"
    and nt: "\<forall>r \<in> set (records um pre). \<not> d r"
    and cn: "ctx (length pre) = Some e"
  shows "response_loop um d ctx fn 0 (NewScanner body) st
         = Returned e (foldl (\<lambda>s r. fn r s) st (records um pre))"
proof -
  obtain ls r where s: "bytes body = lines_body ls @ r"
    and ls: "\<forall>l \<in> set ls. CHR 0x0A \<notin> set l" and r: "CHR 0x0A \<notin> set r"
    using body_split by blast
  have "Lines (bytes body) = ls @ (if r = [] then [] else [r])"
    unfolding s by (rule Lines_lines_body [OF ls r])
  with L have "ls @ (if r = [] then [] else [r]) = pre @ l # post" by simp
  from lines_at [OF this] consider
    (inner) post' where "ls = pre @ l # post'" "post = post' @ (if r = [] then [] else [r])"
    | (final) "ls = pre" "r = l" "r \<noteq> []" "post = []"
    by blast
  then obtain after sc' where pre: "\<forall>l \<in> set pre. short_line l"
    and b: "buf (NewScanner body) = lines_body pre @ after"
    and sc: "Scan ((NewScanner body)\<lparr>buf := after\<rparr>) = (Some (dropCR l), sc')"
  proof cases
    case inner
    let ?after = "l @ CHR 0x0A # (lines_body post' @ r)"
    have "\<forall>l \<in> set pre. short_line l" and l: "short_line l"
      using ls sh inner(1) by (simp_all add: short_line_def)
    moreover have "buf (NewScanner body) = lines_body pre @ ?after"
      using s inner(1) by (simp add: NewScanner_def lines_body_def)
    moreover have "Scan ((NewScanner body)\<lparr>buf := ?after\<rparr>)
        = (Some (dropCR l), (NewScanner body)\<lparr>buf := ?after\<rparr>\<lparr>buf := lines_body post' @ r\<rparr>)"
      by (rule Scan_line [OF l]) simp
    ultimately show ?thesis using that by blast
  next
    case final
    have "\<forall>l \<in> set pre. short_line l" using ls sh final(1) by (simp add: short_line_def)
    moreover have "buf (NewScanner body) = lines_body pre @ l"
      using s final by (simp add: NewScanner_def)
    moreover have "Scan ((NewScanner body)\<lparr>buf := l\<rparr>)
        = (Some (dropCR l), (NewScanner body)\<lparr>buf := l\<rparr>
            \<lparr>buf := [], scanErr := srcErr ((NewScanner body)\<lparr>buf := l\<rparr>)\<rparr>)"
      using r final sh(2) by (intro Scan_last) simp_all
    ultimately show ?thesis using that by blast
  qed
  have nc1: "\<forall>i < length pre. ctx (0 + i) = None" using nc by simp
  have "response_loop um d ctx fn 0 (NewScanner body) st
        = response_loop um d ctx fn (length pre) ((NewScanner body)\<lparr>buf := after\<rparr>)
            (foldl (\<lambda>s r. fn r s) st (records um pre))"
    using response_loop_lines [OF pre b nc1 nt] by simp
  also have "\<dots> = Returned e (foldl (\<lambda>s r. fn r s) st (records um pre))"
    by (rule response_loop_cancel [where ctx = ctx and k = "length pre", OF sc cn])
  finally show ?thesis .
qed

lemma Scan_too_long:
  assumes n: "CHR 0x0A \<notin> set l" and lg: "MaxScanTokenSize \<le> length l"
    and b: "buf sc = l \<or> (\<exists>after. buf sc = l @ CHR 0x0A # after)"
  shows "Scan sc = (None, sc\<lparr>scanErr := Some ErrTooLong\<rparr>)"
  using b
proof
  assume "buf sc = l"
  with n lg show ?thesis by (simp add: Scan_def IndexByte_None)
next
  assume "\<exists>after. buf sc = l @ CHR 0x0A # after"
  then obtain after where "buf sc = l @ CHR 0x0A # after" ..
  with n lg show ?thesis by (rule Scan_long_line)
qed

lemma progress_loop_body_long:
  assumes L: "Lines (bytes body) = pre @ l # post"
    and sh: "\<forall>l \<in> set pre. length l < MaxScanTokenSize"
    and lg: "MaxScanTokenSize \<le> length l"
  shows "\<exists>sc. progress_loop um fn (NewScanner body) st
               = (sc, foldl (\<lambda>s r. fn r s) st (records um pre))
             \<and> scanErr sc = Some ErrTooLong"
proof -
  obtain ls r where s: "bytes body = lines_body ls @ r"
    and ls: "\<forall>l \<in> set ls. CHR 0x0A \<notin> set l" and r: "CHR 0x0A \<notin> set r"
    using body_split by blast
  have "Lines (bytes body) = ls @ (if r = [] then [] else [r])"
    unfolding s by (rule Lines_lines_body [OF ls r])
  with L have "ls @ (if r = [] then [] else [r]) = pre @ l # post" by simp
  from lines_at [OF this] consider
    (inner) post' where "ls = pre @ l # post'" "post = post' @ (if r = [] then [] else [r])"
    | (final) "ls = pre" "r = l" "r \<noteq> []" "post = []"
    by blast
  then obtain after where pre: "\<forall>l \<in> set pre. short_line l"
    and b: "buf (NewScanner body) = lines_body pre @ after"
    and n: "CHR 0x0A \<notin> set l"
    and a: "after = l \<or> (\<exists>x. after = l @ CHR 0x0A # x)"
  proof cases
    case inner
    have "\<forall>l \<in> set pre. short_line l" and "CHR 0x0A \<notin> set l"
      using ls sh inner(1) by (simp_all add: short_line_def)
    moreover have "buf (NewScanner body)
        = lines_body pre @ (l @ CHR 0x0A # (lines_body post' @ r))"
      using s inner(1) by (simp add: NewScanner_def lines_body_def)
    ultimately show ?thesis using that by blast
  next
    case final
    have "\<forall>l \<in> set pre. short_line l" using ls sh final(1) by (simp add: short_line_def)
    moreover have "buf (NewScanner body) = lines_body pre @ l"
      using s final by (simp add: NewScanner_def)
    moreover have "CHR 0x0A \<notin> set l" using r final by simp
    ultimately show ?thesis using that by blast
  qed
  let ?sc = "(NewScanner body)\<lparr>buf := after\<rparr>"
  have "buf ?sc = l \<or> (\<exists>x. buf ?sc = l @ CHR 0x0A # x)" using a by simp
  from Scan_too_long [OF n lg this]
  have e: "progress_loop um fn ?sc (foldl (\<lambda>s r. fn r s) st (records um pre))
           = (?sc\<lparr>scanErr := Some ErrTooLong\<rparr>, foldl (\<lambda>s r. fn r s) st (records um pre))"
    by (rule progress_loop_None)
  have "progress_loop um fn (NewScanner body) st
        = progress_loop um fn ?sc (foldl (\<lambda>s r. fn r s) st (records um pre))"
    by (rule progress_loop_lines [OF pre b])
  with e show ?thesis by simp
qed

lemma stream_open_ok:
  assumes j: "JoinPath L (baseURL c) p = Inr u"
    and b: "Marshal L v = Inr jd"
    and nr: "\<And>m u. NewRequestErr L m u = None"
    and t: "\<And>req. httpClient c req = Inr resp"
    and ok: "200 \<le> StatusCode resp" "StatusCode resp < 300"
  shows "\<exists>req. stream_open L c ctx n p v = (Inr (Response.Body resp), [req])"
  using assms
  by (auto simp: stream_open_def NewRequestWithContext_def Let_def)

text \<open>The result of a streaming operation that has opened its stream, for a body whose
  lines fit into the buffer of the scanner.\<close>

lemma progress_result:
  assumes P: "P = (case stream_open L c ctx n p v of
                     (Inl e, rs) \<Rightarrow> (Some e, rs, [])
                   | (Inr body, rs) \<Rightarrow>
                       (case progress_loop um (\<lambda>r tr. tr @ [ev r]) (NewScanner body) [] of
                          (sc, st') \<Rightarrow> (stream_close n' sc, rs, st')))"
    and rc: "\<And>l. rc l = (if text_of l = [] then None
                       else (case um (text_of l) of Inl e \<Rightarrow> None | Inr r \<Rightarrow> Some (ev r)))"
    and o: "stream_open L c ctx n p v = (Inr body, rs)"
    and sh: "\<forall>l \<in> set (Lines (bytes body)). length l < MaxScanTokenSize"
  shows "failed (streamed P)
           = map_option (Wrapf (''error reading '' @ n' @ '' response stream: %w'') [])
               (failure body)
         \<and> delivered (streamed P) = List.map_filter rc (Lines (bytes body))"
  unfolding P o
  by (simp add: progress_loop_body [OF sh] streamed_def stream_close_eq foldl_recording
      records_events [where rc = rc and um = um and ev = ev, OF rc])

lemma progress_result_long:
  assumes P: "P = (case stream_open L c ctx n p v of
                     (Inl e, rs) \<Rightarrow> (Some e, rs, [])
                   | (Inr body, rs) \<Rightarrow>
                       (case progress_loop um (\<lambda>r tr. tr @ [ev r]) (NewScanner body) [] of
                          (sc, st') \<Rightarrow> (stream_close n' sc, rs, st')))"
    and rc: "\<And>l. rc l = (if text_of l = [] then None
                       else (case um (text_of l) of Inl e \<Rightarrow> None | Inr r \<Rightarrow> Some (ev r)))"
    and o: "stream_open L c ctx n p v = (Inr body, rs)"
    and L: "Lines (bytes body) = pre @ l # post"
    and sh: "\<forall>l \<in> set pre. length l < MaxScanTokenSize"
    and lg: "MaxScanTokenSize \<le> length l"
  shows "failed (streamed P)
           = Some (Wrapf (''error reading '' @ n' @ '' response stream: %w'') [] ErrTooLong)
         \<and> delivered (streamed P) = List.map_filter rc pre"
proof -
  from progress_loop_body_long [OF L sh lg, of um "\<lambda>r tr. tr @ [ev r]" "[]"]
  obtain sc where "progress_loop um (\<lambda>r tr. tr @ [ev r]) (NewScanner body) []
               = (sc, foldl (\<lambda>s r. s @ [ev r]) [] (records um pre))"
    and "scanErr sc = Some ErrTooLong"
    by blast
  then show ?thesis
    unfolding P o
    by (simp add: streamed_def stream_close_eq foldl_recording
        records_events [where rc = rc and um = um and ev = ev, OF rc])
qed

lemma response_result:
  assumes P: "P = (case stream_open L c ctx n p v of
                     (Inl e, rs) \<Rightarrow> (Some e, rs, [])
                   | (Inr body, rs) \<Rightarrow>
                       (case response_loop um d ctx (\<lambda>r tr. tr @ [ev r]) 0 (NewScanner body) [] of
                          Returned e st' \<Rightarrow> (Some e, rs, st')
                        | LeftLoop sc st' \<Rightarrow> (stream_close n' sc, rs, st')))"
    and rc: "\<And>l. rc l = (if text_of l = [] then None
                       else (case um (text_of l) of Inl e \<Rightarrow> None | Inr r \<Rightarrow> Some (ev r)))"
    and tm: "\<And>r. terminal (ev r) = d r"
    and o: "stream_open L c ctx n p v = (Inr body, rs)"
    and sh: "\<forall>l \<in> set (Lines (bytes body)). length l < MaxScanTokenSize"
    and nc: "\<forall>k < length (Lines (bytes body)). ctx k = None"
    and nt: "\<forall>r \<in> set (List.map_filter rc (Lines (bytes body))). \<not> terminal r"
  shows "failed (streamed P)
           = map_option (Wrapf (''error reading '' @ n' @ '' response stream: %w'') [])
               (failure body)
         \<and> delivered (streamed P) = List.map_filter rc (Lines (bytes body))"
  unfolding P o
  by (simp add: response_loop_body
        [OF sh nc not_terminal [where rc = rc and um = um and ev = ev and d = d, OF rc tm nt]]
      streamed_def stream_close_eq foldl_recording
      records_events [where rc = rc and um = um and ev = ev, OF rc])

lemma response_result_done:
  assumes P: "P = (case stream_open L c ctx n p v of
                     (Inl e, rs) \<Rightarrow> (Some e, rs, [])
                   | (Inr body, rs) \<Rightarrow>
                       (case response_loop um d ctx (\<lambda>r tr. tr @ [ev r]) 0 (NewScanner body) [] of
                          Returned e st' \<Rightarrow> (Some e, rs, st')
                        | LeftLoop sc st' \<Rightarrow> (stream_close n' sc, rs, st')))"
    and rc: "\<And>l. rc l = (if text_of l = [] then None
                       else (case um (text_of l) of Inl e \<Rightarrow> None | Inr r \<Rightarrow> Some (ev r)))"
    and tm: "\<And>r. terminal (ev r) = d r"
    and o: "stream_open L c ctx n p v = (Inr body, rs)"
    and L: "Lines (bytes body) = pre @ dl # post"
    and sh: "\<forall>l \<in> set pre. length l < MaxScanTokenSize" "length dl < MaxScanTokenSize"
    and nc: "\<forall>k \<le> length pre. ctx k = None"
    and nt: "\<forall>r \<in> set (List.map_filter rc pre). \<not> terminal r"
    and dn: "rc dl = Some x" "terminal x"
  shows "failed (streamed P)
           = (if post = [] \<and> bytes body \<noteq> [] \<and> last (bytes body) \<noteq> CHR 0x0A
              then map_option (Wrapf (''error reading '' @ n' @ '' response stream: %w'') [])
                     (failure body)
              else None)
         \<and> delivered (streamed P) = List.map_filter rc pre @ [x]"
proof -
  from dn(1) obtain r where r: "text_of dl \<noteq> []" "um (text_of dl) = Inr r" "x = ev r"
    by (auto simp: rc split: if_splits sum.splits)
  with dn(2) have d: "d r" by (simp add: tm)
  from response_loop_body_done
    [OF L sh nc not_terminal [where rc = rc and um = um and ev = ev and d = d, OF rc tm nt]
      r(1) r(2) d, where fn = "\<lambda>r tr. tr @ [ev r]" and st = "[]"]
  obtain sc where "response_loop um d ctx (\<lambda>r tr. tr @ [ev r]) 0 (NewScanner body) []
               = LeftLoop sc (foldl (\<lambda>s r. s @ [ev r]) [] (records um pre) @ [ev r])"
    and "scanErr sc = (if post = [] \<and> bytes body \<noteq> [] \<and> last (bytes body) \<noteq> CHR 0x0A
                       then failure body else None)"
    by blast
  then show ?thesis
    unfolding P o
    by (simp add: streamed_def stream_close_eq foldl_recording r(3)
        records_events [where rc = rc and um = um and ev = ev, OF rc])
qed

lemma response_result_cancel:
  assumes P: "P = (case stream_open L c ctx n p v of
                     (Inl e, rs) \<Rightarrow> (Some e, rs, [])
                   | (Inr body, rs) \<Rightarrow>
                       (case response_loop um d ctx (\<lambda>r tr. tr @ [ev r]) 0 (NewScanner body) [] of
                          Returned e st' \<Rightarrow> (Some e, rs, st')
                        | LeftLoop sc st' \<Rightarrow> (stream_close n' sc, rs, st')))"
    and rc: "\<And>l. rc l = (if text_of l = [] then None
                       else (case um (text_of l) of Inl e \<Rightarrow> None | Inr r \<Rightarrow> Some (ev r)))"
    and tm: "\<And>r. terminal (ev r) = d r"
    and o: "stream_open L c ctx n p v = (Inr body, rs)"
    and L: "Lines (bytes body) = pre @ l # post"
    and sh: "\<forall>l \<in> set pre. length l < MaxScanTokenSize" "length l < MaxScanTokenSize"
    and nc: "\<forall>k < length pre. ctx k = None"
    and nt: "\<forall>r \<in> set (List.map_filter rc pre). \<not> terminal r"
    and cn: "ctx (length pre) = Some err"
  shows "failed (streamed P) = Some err \<and> delivered (streamed P) = List.map_filter rc pre"
  unfolding P o
  by (simp add: response_loop_body_cancel
        [OF L sh nc not_terminal [where rc = rc and um = um and ev = ev and d = d, OF rc tm nt]
          cn]
      streamed_def foldl_recording
      records_events [where rc = rc and um = um and ev = ev, OF rc])

subsection \<open>The streaming operations over the lines of a body\<close>

lemma opened_stream:
  assumes j: "\<And>p. \<exists>u. JoinPath L (baseURL c) p = Inr u"
    and nr: "\<And>m u. NewRequestErr L m u = None"
    and t: "\<And>req. httpClient c req = Inr resp"
    and ok: "200 \<le> StatusCode resp" "StatusCode resp < 300"
    and m: "\<exists>jd. Marshal L pl = Inr jd"
  shows "\<exists>req. stream_open L c ctx n p pl = (Inr (Response.Body resp), [req])"
proof -
  from m obtain jd where b: "Marshal L pl = Inr jd" ..
  obtain u where u: "JoinPath L (baseURL c) p = Inr u" using j by blast
  show ?thesis by (rule stream_open_ok [OF u b nr t ok])
qed

lemma perform_all_lines:
  assumes j: "\<And>p. \<exists>u. JoinPath L (baseURL c) p = Inr u"
    and nr: "\<And>m u. NewRequestErr L m u = None"
    and v: "\<not> missing_required H cl" and en: "encodable H cl"
    and t: "\<And>req. httpClient c req = Inr resp"
    and ok: "200 \<le> StatusCode resp" "StatusCode resp < 300"
    and st: "streaming cl"
    and sh: "\<forall>l \<in> set (Lines (bytes (Response.Body resp))). length l < MaxScanTokenSize"
    and nc: "reports_done cl \<Longrightarrow> \<forall>k < length (Lines (bytes (Response.Body resp))). ctx k = None"
    and nt: "reports_done cl \<Longrightarrow>
             \<forall>r \<in> set (List.map_filter (record_of L cl) (Lines (bytes (Response.Body resp)))).
               \<not> terminal r"
  shows "failed (perform L c ctx H cl)
           = map_option (Wrapf (''error reading '' @ stream_name cl @ '' response stream: %w'') [])
               (failure (Response.Body resp))
         \<and> delivered (perform L c ctx H cl)
           = List.map_filter (record_of L cl) (Lines (bytes (Response.Body resp)))"
proof (cases cl)
  case (CallPull m fn)
  from opened_stream [OF j nr t ok, of "PullRequestV \<lparr>PullRequest.Model = m\<rparr>" ctx "''pull''" "''/api/pull''"]
  obtain req where o: "stream_open L c ctx ''pull'' ''/api/pull'' (PullRequestV \<lparr>PullRequest.Model = m\<rparr>)
                       = (Inr (Response.Body resp), [req])"
    by auto
  show ?thesis
    unfolding CallPull perform_Pull [OF v [unfolded CallPull]] stream_name.simps
    by (rule progress_result [OF refl record_of_Pull o sh])
next
  case (CallCreate m mf fn)
  from opened_stream [OF j nr t ok, of "CreateRequestV \<lparr>CreateRequest.Model = m, Modelfile = mf\<rparr>" ctx "''create''" "''/api/create''"]
  obtain req where o: "stream_open L c ctx ''create'' ''/api/create'' (CreateRequestV \<lparr>CreateRequest.Model = m, Modelfile = mf\<rparr>)
                       = (Inr (Response.Body resp), [req])"
    by auto
  show ?thesis
    unfolding CallCreate perform_Create [OF v [unfolded CallCreate]] stream_name.simps
    by (rule progress_result [OF refl record_of_Create o sh])
next
  case (CallPush m fn)
  from opened_stream [OF j nr t ok, of "PushRequestV \<lparr>PushRequest.Model = m\<rparr>" ctx "''push''" "''/api/push''"]
  obtain req where o: "stream_open L c ctx ''push'' ''/api/push'' (PushRequestV \<lparr>PushRequest.Model = m\<rparr>)
                       = (Inr (Response.Body resp), [req])"
    by auto
  show ?thesis
    unfolding CallPush perform_Push [OF v [unfolded CallPush]] stream_name.simps
    by (rule progress_result [OF refl record_of_Push o sh])
next
  case (CallGenerateStream q fn)
  from perform_GenerateStream [OF v [unfolded CallGenerateStream], of L c ctx] obtain p
    where q: "q = Some p"
      and p: "perform L c ctx H (CallGenerateStream q fn) =
       streamed (case stream_open L c ctx ''generate'' ''/api/generate''
                   (GenerateRequestV ((generateRequests H ! p)\<lparr>GenerateRequest.Stream := True\<rparr>)) of
              (Inl e, rs) \<Rightarrow> (Some e, rs, [])
            | (Inr body, rs) \<Rightarrow>
                (case response_loop (Unmarshal_GenerateResponse L) GenerateResponse.Done ctx
                        (\<lambda>r tr. tr @ [GenerateEvent r]) 0 (NewScanner body) [] of
                   Returned e st' \<Rightarrow> (Some e, rs, st')
                 | LeftLoop sc st' \<Rightarrow> (stream_close ''generate'' sc, rs, st')))"
    by blast
  from en q CallGenerateStream
  have "\<exists>jd. Marshal L (GenerateRequestV ((generateRequests H ! p)\<lparr>GenerateRequest.Stream := True\<rparr>)) = Inr jd"
    by (auto simp: Marshal_Generate_encodable split: sum.splits)
  from opened_stream [OF j nr t ok this, of ctx "''generate''" "''/api/generate''"]
  obtain req where o: "stream_open L c ctx ''generate'' ''/api/generate''
                         (GenerateRequestV ((generateRequests H ! p)\<lparr>GenerateRequest.Stream := True\<rparr>))
                       = (Inr (Response.Body resp), [req])"
    by auto
  have nc': "\<forall>k < length (Lines (bytes (Response.Body resp))). ctx k = None"
    using nc CallGenerateStream by simp
  have nt': "\<forall>r \<in> set (List.map_filter (record_of L (CallGenerateStream q fn))
                            (Lines (bytes (Response.Body resp)))). \<not> terminal r"
    using nt CallGenerateStream by simp
  show ?thesis
    unfolding CallGenerateStream p stream_name.simps
    by (rule response_result [OF refl record_of_GenerateStream terminal.simps(1) o sh nc' nt'])
next
  case (CallChatStream q fn)
  from perform_ChatStream [OF v [unfolded CallChatStream], of L c ctx] obtain p
    where q: "q = Some p"
      and p: "perform L c ctx H (CallChatStream q fn) =
       streamed (case stream_open L c ctx ''chat'' ''/api/chat''
                   (ChatRequestV ((chatRequests H ! p)\<lparr>ChatRequest.Stream := True\<rparr>)) of
              (Inl e, rs) \<Rightarrow> (Some e, rs, [])
            | (Inr body, rs) \<Rightarrow>
                (case response_loop (Unmarshal_ChatResponse L) ChatResponse.Done ctx
                        (\<lambda>r tr. tr @ [ChatEvent r]) 0 (NewScanner body) [] of
                   Returned e st' \<Rightarrow> (Some e, rs, st')
                 | LeftLoop sc st' \<Rightarrow> (stream_close ''chat'' sc, rs, st')))"
    by blast
  from en q CallChatStream
  have "\<exists>jd. Marshal L (ChatRequestV ((chatRequests H ! p)\<lparr>ChatRequest.Stream := True\<rparr>)) = Inr jd"
    by (auto simp: Marshal_Chat_encodable split: sum.splits)
  from opened_stream [OF j nr t ok this, of ctx "''chat''" "''/api/chat''"]
  obtain req where o: "stream_open L c ctx ''chat'' ''/api/chat''
                         (ChatRequestV ((chatRequests H ! p)\<lparr>ChatRequest.Stream := True\<rparr>))
                       = (Inr (Response.Body resp), [req])"
    by auto
  have nc': "\<forall>k < length (Lines (bytes (Response.Body resp))). ctx k = None"
    using nc CallChatStream by simp
  have nt': "\<forall>r \<in> set (List.map_filter (record_of L (CallChatStream q fn))
                            (Lines (bytes (Response.Body resp)))). \<not> terminal r"
    using nt CallChatStream by simp
  show ?thesis
    unfolding CallChatStream p stream_name.simps
    by (rule response_result [OF refl record_of_ChatStream terminal.simps(2) o sh nc' nt'])
qed (use st in simp_all)

lemma perform_long_line:
  assumes j: "\<And>p. \<exists>u. JoinPath L (baseURL c) p = Inr u"
    and nr: "\<And>m u. NewRequestErr L m u = None"
    and v: "\<not> missing_required H cl" and en: "encodable H cl"
    and t: "\<And>req. httpClient c req = Inr resp"
    and ok: "200 \<le> StatusCode resp" "StatusCode resp < 300"
    and st: "streaming cl" and rd: "\<not> reports_done cl"
    and L: "Lines (bytes (Response.Body resp)) = pre @ l # post"
    and sh: "\<forall>l \<in> set pre. length l < MaxScanTokenSize"
    and lg: "MaxScanTokenSize \<le> length l"
  shows "failed (perform L c ctx H cl)
           = Some (Wrapf (''error reading '' @ stream_name cl @ '' response stream: %w'') []
                     ErrTooLong)
         \<and> delivered (perform L c ctx H cl) = List.map_filter (record_of L cl) pre"
proof (cases cl)
  case (CallPull m fn)
  from opened_stream [OF j nr t ok, of "PullRequestV \<lparr>PullRequest.Model = m\<rparr>" ctx "''pull''" "''/api/pull''"]
  obtain req where o: "stream_open L c ctx ''pull'' ''/api/pull'' (PullRequestV \<lparr>PullRequest.Model = m\<rparr>)
                       = (Inr (Response.Body resp), [req])"
    by auto
  show ?thesis
    unfolding CallPull perform_Pull [OF v [unfolded CallPull]] stream_name.simps
    by (rule progress_result_long [OF refl record_of_Pull o L sh lg])
next
  case (CallCreate m mf fn)
  from opened_stream [OF j nr t ok, of "CreateRequestV \<lparr>CreateRequest.Model = m, Modelfile = mf\<rparr>" ctx "''create''" "''/api/create''"]
  obtain req where o: "stream_open L c ctx ''create'' ''/api/create'' (CreateRequestV \<lparr>CreateRequest.Model = m, Modelfile = mf\<rparr>)
                       = (Inr (Response.Body resp), [req])"
    by auto
  show ?thesis
    unfolding CallCreate perform_Create [OF v [unfolded CallCreate]] stream_name.simps
    by (rule progress_result_long [OF refl record_of_Create o L sh lg])
next
  case (CallPush m fn)
  from opened_stream [OF j nr t ok, of "PushRequestV \<lparr>PushRequest.Model = m\<rparr>" ctx "''push''" "''/api/push''"]
  obtain req where o: "stream_open L c ctx ''push'' ''/api/push'' (PushRequestV \<lparr>PushRequest.Model = m\<rparr>)
                       = (Inr (Response.Body resp), [req])"
    by auto
  show ?thesis
    unfolding CallPush perform_Push [OF v [unfolded CallPush]] stream_name.simps
    by (rule progress_result_long [OF refl record_of_Push o L sh lg])
qed (use st rd in simp_all)

lemma perform_done_line:
  assumes j: "\<And>p. \<exists>u. JoinPath L (baseURL c) p = Inr u"
    and nr: "\<And>m u. NewRequestErr L m u = None"
    and v: "\<not> missing_required H cl" and en: "encodable H cl"
    and t: "\<And>req. httpClient c req = Inr resp"
    and ok: "200 \<le> StatusCode resp" "StatusCode resp < 300"
    and rd: "reports_done cl"
    and L: "Lines (bytes (Response.Body resp)) = pre @ dl # post"
    and sh: "\<forall>l \<in> set pre. length l < MaxScanTokenSize" "length dl < MaxScanTokenSize"
    and nc: "\<forall>k \<le> length pre. ctx k = None"
    and nt: "\<forall>r \<in> set (List.map_filter (record_of L cl) pre). \<not> terminal r"
    and dn: "record_of L cl dl = Some x" "terminal x"
  shows "failed (perform L c ctx H cl)
           = (if post = [] \<and> bytes (Response.Body resp) \<noteq> []
                 \<and> last (bytes (Response.Body resp)) \<noteq> CHR 0x0A
              then map_option
                     (Wrapf (''error reading '' @ stream_name cl @ '' response stream: %w'') [])
                     (failure (Response.Body resp))
              else None)
         \<and> delivered (perform L c ctx H cl) = List.map_filter (record_of L cl) pre @ [x]"
proof (cases cl)
  case (CallGenerateStream q fn)
  from perform_GenerateStream [OF v [unfolded CallGenerateStream], of L c ctx] obtain p
    where q: "q = Some p"
      and p: "perform L c ctx H (CallGenerateStream q fn) =
       streamed (case stream_open L c ctx ''generate'' ''/api/generate''
                   (GenerateRequestV ((generateRequests H ! p)\<lparr>GenerateRequest.Stream := True\<rparr>)) of
              (Inl e, rs) \<Rightarrow> (Some e, rs, [])
            | (Inr body, rs) \<Rightarrow>
                (case response_loop (Unmarshal_GenerateResponse L) GenerateResponse.Done ctx
                        (\<lambda>r tr. tr @ [GenerateEvent r]) 0 (NewScanner body) [] of
                   Returned e st' \<Rightarrow> (Some e, rs, st')
                 | LeftLoop sc st' \<Rightarrow> (stream_close ''generate'' sc, rs, st')))"
    by blast
  from en q CallGenerateStream
  have "\<exists>jd. Marshal L (GenerateRequestV ((generateRequests H ! p)\<lparr>GenerateRequest.Stream := True\<rparr>)) = Inr jd"
    by (auto simp: Marshal_Generate_encodable split: sum.splits)
  from opened_stream [OF j nr t ok this, of ctx "''generate''" "''/api/generate''"]
  obtain req where o: "stream_open L c ctx ''generate'' ''/api/generate''
                         (GenerateRequestV ((generateRequests H ! p)\<lparr>GenerateRequest.Stream := True\<rparr>))
                       = (Inr (Response.Body resp), [req])"
    by auto
  show ?thesis
    unfolding CallGenerateStream p stream_name.simps
    by (rule response_result_done [OF refl record_of_GenerateStream terminal.simps(1) o L sh nc nt [unfolded CallGenerateStream] dn(1) [unfolded CallGenerateStream] dn(2)])
next
  case (CallChatStream q fn)
  from perform_ChatStream [OF v [unfolded CallChatStream], of L c ctx] obtain p
    where q: "q = Some p"
      and p: "perform L c ctx H (CallChatStream q fn) =
       streamed (case stream_open L c ctx ''chat'' ''/api/chat''
                   (ChatRequestV ((chatRequests H ! p)\<lparr>ChatRequest.Stream := True\<rparr>)) of
              (Inl e, rs) \<Rightarrow> (Some e, rs, [])
            | (Inr body, rs) \<Rightarrow>
                (case response_loop (Unmarshal_ChatResponse L) ChatResponse.Done ctx
                        (\<lambda>r tr. tr @ [ChatEvent r]) 0 (NewScanner body) [] of
                   Returned e st' \<Rightarrow> (Some e, rs, st')
                 | LeftLoop sc st' \<Rightarrow> (stream_close ''chat'' sc, rs, st')))"
    by blast
  from en q CallChatStream
  have "\<exists>jd. Marshal L (ChatRequestV ((chatRequests H ! p)\<lparr>ChatRequest.Stream := True\<rparr>)) = Inr jd"
    by (auto simp: Marshal_Chat_encodable split: sum.splits)
  from opened_stream [OF j nr t ok this, of ctx "''chat''" "''/api/chat''"]
  obtain req where o: "stream_open L c ctx ''chat'' ''/api/chat''
                         (ChatRequestV ((chatRequests H ! p)\<lparr>ChatRequest.Stream := True\<rparr>))
                       = (Inr (Response.Body resp), [req])"
    by auto
  show ?thesis
    unfolding CallChatStream p stream_name.simps
    by (rule response_result_done [OF refl record_of_ChatStream terminal.simps(2) o L sh nc nt [unfolded CallChatStream] dn(1) [unfolded CallChatStream] dn(2)])
qed (use rd in simp_all)

lemma perform_cancel_line:
  assumes j: "\<And>p. \<exists>u. JoinPath L (baseURL c) p = Inr u"
    and nr: "\<And>m u. NewRequestErr L m u = None"
    and v: "\<not> missing_required H cl" and en: "encodable H cl"
    and t: "\<And>req. httpClient c req = Inr resp"
    and ok: "200 \<le> StatusCode resp" "StatusCode resp < 300"
    and rd: "reports_done cl"
    and L: "Lines (bytes (Response.Body resp)) = pre @ l # post"
    and sh: "\<forall>l \<in> set pre. length l < MaxScanTokenSize" "length l < MaxScanTokenSize"
    and nc: "\<forall>k < length pre. ctx k = None"
    and nt: "\<forall>r \<in> set (List.map_filter (record_of L cl) pre). \<not> terminal r"
    and cn: "ctx (length pre) = Some err"
  shows "failed (perform L c ctx H cl) = Some err
         \<and> delivered (perform L c ctx H cl) = List.map_filter (record_of L cl) pre"
proof (cases cl)
  case (CallGenerateStream q fn)
  from perform_GenerateStream [OF v [unfolded CallGenerateStream], of L c ctx] obtain p
    where q: "q = Some p"
      and p: "perform L c ctx H (CallGenerateStream q fn) =
       streamed (case stream_open L c ctx ''generate'' ''/api/generate''
                   (GenerateRequestV ((generateRequests H ! p)\<lparr>GenerateRequest.Stream := True\<rparr>)) of
              (Inl e, rs) \<Rightarrow> (Some e, rs, [])
            | (Inr body, rs) \<Rightarrow>
                (case response_loop (Unmarshal_GenerateResponse L) GenerateResponse.Done ctx
                        (\<lambda>r tr. tr @ [GenerateEvent r]) 0 (NewScanner body) [] of
                   Returned e st' \<Rightarrow> (Some e, rs, st')
                 | LeftLoop sc st' \<Rightarrow> (stream_close ''generate'' sc, rs, st')))"
    by blast
  from en q CallGenerateStream
  have "\<exists>jd. Marshal L (GenerateRequestV ((generateRequests H ! p)\<lparr>GenerateRequest.Stream := True\<rparr>)) = Inr jd"
    by (auto simp: Marshal_Generate_encodable split: sum.splits)
  from opened_stream [OF j nr t ok this, of ctx "''generate''" "''/api/generate''"]
  obtain req where o: "stream_open L c ctx ''generate'' ''/api/generate''
                         (GenerateRequestV ((generateRequests H ! p)\<lparr>GenerateRequest.Stream := True\<rparr>))
                       = (Inr (Response.Body resp), [req])"
    by auto
  show ?thesis
    unfolding CallGenerateStream p stream_name.simps
    by (rule response_result_cancel [OF refl record_of_GenerateStream terminal.simps(1) o L sh nc nt [unfolded CallGenerateStream] cn])
next
  case (CallChatStream q fn)
  from perform_ChatStream [OF v [unfolded CallChatStream], of L c ctx] obtain p
    where q: "q = Some p"
      and p: "perform L c ctx H (CallChatStream q fn) =
       streamed (case stream_open L c ctx ''chat'' ''/api/chat''
                   (ChatRequestV ((chatRequests H ! p)\<lparr>ChatRequest.Stream := True\<rparr>)) of
              (Inl e, rs) \<Rightarrow> (Some e, rs, [])
            | (Inr body, rs) \<Rightarrow>
                (case response_loop (Unmarshal_ChatResponse L) ChatResponse.Done ctx
                        (\<lambda>r tr. tr @ [ChatEvent r]) 0 (NewScanner body) [] of
                   Returned e st' \<Rightarrow> (Some e, rs, st')
                 | LeftLoop sc st' \<Rightarrow> (stream_close ''chat'' sc, rs, st')))"
    by blast
  from en q CallChatStream
  have "\<exists>jd. Marshal L (ChatRequestV ((chatRequests H ! p)\<lparr>ChatRequest.Stream := True\<rparr>)) = Inr jd"
    by (auto simp: Marshal_Chat_encodable split: sum.splits)
  from opened_stream [OF j nr t ok this, of ctx "''chat''" "''/api/chat''"]
  obtain req where o: "stream_open L c ctx ''chat'' ''/api/chat''
                         (ChatRequestV ((chatRequests H ! p)\<lparr>ChatRequest.Stream := True\<rparr>))
                       = (Inr (Response.Body resp), [req])"
    by auto
  show ?thesis
    unfolding CallChatStream p stream_name.simps
    by (rule response_result_cancel [OF refl record_of_ChatStream terminal.simps(2) o L sh nc nt [unfolded CallChatStream] cn])
qed (use rd in simp_all)

subsection \<open>Lines of 64 KiB\<close>

lemma trimFront_space:
  "2 \<le> length y \<Longrightarrow> trimFront p q (CHR 0x20 # y) = trimFront p q y"
proof -
  assume "2 \<le> length y"
  then obtain b c after where "y = b # c # after"
    by (cases y; cases "tl y") auto
  then show ?thesis by (simp add: isAsciiSpace_def)
qed

lemma trimFront_spaces:
  "2 \<le> length y \<Longrightarrow> trimFront p q (replicate n (CHR 0x20) @ y) = trimFront p q y"
  by (induction n) (simp_all add: trimFront_space)

lemma TrimRight_padded:
  "2 \<le> length x \<Longrightarrow> TrimRight (x @ replicate n (CHR 0x20)) = TrimRight x"
  by (simp add: TrimRight_def trimFront_spaces)

lemma MaxScanTokenSize_pos: "0 < MaxScanTokenSize"
  by (simp add: MaxScanTokenSize_def)

lemma MaxScanTokenSize_Suc: "\<exists>n. MaxScanTokenSize = Suc (Suc (Suc n))"
  by (rule exI [of _ "MaxScanTokenSize - 3"]) (simp add: MaxScanTokenSize_def)

lemma text_of_padded:
  \<open>text_of (''{"status":"ok"}'' @ replicate MaxScanTokenSize (CHR 0x20)) = ''{"status":"ok"}''\<close>
proof -
  have t: \<open>TrimRight ''{"status":"ok"}'' = ''{"status":"ok"}''\<close> by code_simp
  have \<open>text_of (''{"status":"ok"}'' @ replicate MaxScanTokenSize (CHR 0x20))
        = TrimSpace (''{"status":"ok"}'' @ replicate MaxScanTokenSize (CHR 0x20))\<close>
    using MaxScanTokenSize_pos by (simp add: text_of_def dropCR_def)
  also have \<open>\<dots> = TrimRight (''{"status":"ok"}'' @ replicate MaxScanTokenSize (CHR 0x20))\<close>
    by (simp add: TrimSpace_def TrimLeft_def isAsciiSpace_def isSpace2_def isSpace3_def)
  also have \<open>\<dots> = ''{"status":"ok"}''\<close>
    using TrimRight_padded [of \<open>''{"status":"ok"}''\<close> MaxScanTokenSize] t by simp
  finally show ?thesis .
qed

lemma text_of_xs:
  "text_of (replicate MaxScanTokenSize (CHR ''x'')) = replicate MaxScanTokenSize (CHR ''x'')"
proof -
  let ?l = "replicate MaxScanTokenSize (CHR ''x'')"
  obtain n where n: "MaxScanTokenSize = Suc (Suc (Suc n))"
    using MaxScanTokenSize_Suc by blast
  have k: "\<And>p q. \<not> p (CHR ''x'') (CHR ''x'') \<Longrightarrow> \<not> q (CHR ''x'') (CHR ''x'') (CHR ''x'')
              \<Longrightarrow> trimFront p q ?l = ?l"
    unfolding n by (simp add: isAsciiSpace_def)
  have "text_of ?l = TrimSpace ?l"
    using MaxScanTokenSize_pos by (simp add: text_of_def dropCR_def)
  also have "\<dots> = ?l"
    by (simp add: TrimSpace_def TrimLeft_def TrimRight_def k isSpace2_def isSpace3_def)
  finally show ?thesis .
qed

lemma Unmarshal_x:
  "Unmarshal field zero (CHR ''x'' # after) = Inl SyntaxError"
  by (simp add: Unmarshal_def json_parse_def beginValue_def isSpace_def isDigit_def)

subsection \<open>The order of the callbacks\<close>

lemma Lines_of_lines_body:
  "\<forall>l \<in> set ls. CHR 0x0A \<notin> set l \<Longrightarrow> Lines (lines_body ls) = ls"
  using Lines_lines_body [of ls "[]"] by simp

lemma map_filter_all:
  "map f xs = map Some ys \<Longrightarrow> List.map_filter f xs = ys"
proof (induction xs arbitrary: ys)
  case Nil
  then show ?case by (simp add: List.map_filter_simps)
next
  case (Cons x xs)
  then obtain y ys' where "ys = y # ys'" "f x = Some y" "map f xs = map Some ys'"
    by (cases ys) auto
  with Cons.IH show ?case by (simp add: List.map_filter_simps)
qed

lemma example_body:
  "bytes (Response.Body \<lparr>StatusCode = code, Body = \<lparr>bytes = b, failure = e\<rparr>\<rparr>) = b"
  "failure (Response.Body \<lparr>StatusCode = code, Body = \<lparr>bytes = b, failure = e\<rparr>\<rparr>) = e"
  "StatusCode \<lparr>StatusCode = code, Body = \<lparr>bytes = b, failure = e\<rparr>\<rparr> = code"
  by simp_all

text \<open>
  Claim C1, as the code has it. A streaming call has its required inputs, its request
  is built and sent, and the server answers with a status code in 200..299. Every line
  of the body is shorter than the 64 KiB that the buffer of the scanner holds and
  decodes as a record of the operation, none with the terminal flag; and for
  \<^verbatim>\<open>GenerateStream\<close> and \<^verbatim>\<open>ChatStream\<close> the context is live at the check before each
  line. Then the callback is invoked once for each line, in the order of the lines,
  with the record of the line, and not after the call has returned: the invocations
  are part of the result of the call. The call returns \<^verbatim>\<open>nil\<close> when the body ends with
  \<^verbatim>\<open>io.EOF\<close>, and the wrapped error of the read otherwise.
\<close>

theorem C1_stream_ordering:
  assumes j: "\<And>p. \<exists>u. JoinPath L (baseURL c) p = Inr u"
    and nr: "\<And>m u. NewRequestErr L m u = None"
    and v: "\<not> missing_required H cl" and en: "encodable H cl" and st: "streaming cl"
    and t: "\<And>req. httpClient c req = Inr resp"
    and ok: "200 \<le> StatusCode resp" "StatusCode resp < 300"
    and sh: "\<forall>l \<in> set (Lines (bytes (Response.Body resp))). length l < MaxScanTokenSize"
    and dec: "map (record_of L cl) (Lines (bytes (Response.Body resp))) = map Some rs"
    and nt: "\<forall>r \<in> set rs. \<not> terminal r"
    and nc: "reports_done cl \<longrightarrow> (\<forall>k < length rs. ctx k = None)"
  shows "delivered (perform L c ctx H cl) = rs
         \<and> length (delivered (perform L c ctx H cl))
             = length (Lines (bytes (Response.Body resp)))
         \<and> failed (perform L c ctx H cl)
             = map_option
                 (Wrapf (''error reading '' @ stream_name cl @ '' response stream: %w'') [])
                 (failure (Response.Body resp))"
proof -
  have m: "List.map_filter (record_of L cl) (Lines (bytes (Response.Body resp))) = rs"
    using dec by (rule map_filter_all)
  have n: "length (Lines (bytes (Response.Body resp))) = length rs"
    using dec by (metis length_map)
  have nc': "reports_done cl \<Longrightarrow> \<forall>k < length (Lines (bytes (Response.Body resp))). ctx k = None"
    using nc n by simp
  have nt': "reports_done cl \<Longrightarrow>
      \<forall>r \<in> set (List.map_filter (record_of L cl) (Lines (bytes (Response.Body resp)))).
        \<not> terminal r"
    using nt m by simp
  from perform_all_lines [OF j nr v en t ok st sh nc' nt'] m n show ?thesis by simp
qed

theorem C1_stream_ordering_witness:
  \<open>delivered (perform example_lib
      (example_server 200
         (lines_body [''{"status":"downloading","completed":100,"total":1000}'',
                      ''{"status":"downloading","completed":500,"total":1000}'',
                      ''{"status":"success"}'']) None)
      background example_stores (CallPull ''llama2'' True))
   = [PullEvent \<lparr>PullProgress.Status = ''downloading'', Digest = [], Total = 1000, Completed = 100\<rparr>,
      PullEvent \<lparr>PullProgress.Status = ''downloading'', Digest = [], Total = 1000, Completed = 500\<rparr>,
      PullEvent \<lparr>PullProgress.Status = ''success'', Digest = [], Total = 0, Completed = 0\<rparr>]
   \<and> failed (perform example_lib
      (example_server 200
         (lines_body [''{"status":"downloading","completed":100,"total":1000}'',
                      ''{"status":"downloading","completed":500,"total":1000}'',
                      ''{"status":"success"}'']) None)
      background example_stores (CallPull ''llama2'' True)) = None\<close>
proof -
  let ?ls = \<open>[''{"status":"downloading","completed":100,"total":1000}'',
              ''{"status":"downloading","completed":500,"total":1000}'',
              ''{"status":"success"}'']\<close>
  let ?rs = \<open>[PullEvent \<lparr>PullProgress.Status = ''downloading'', Digest = [], Total = 1000, Completed = 100\<rparr>,
      PullEvent \<lparr>PullProgress.Status = ''downloading'', Digest = [], Total = 1000, Completed = 500\<rparr>,
      PullEvent \<lparr>PullProgress.Status = ''success'', Digest = [], Total = 0, Completed = 0\<rparr>]\<close>
  let ?resp = "\<lparr>StatusCode = 200, Body = \<lparr>bytes = lines_body ?ls, failure = None\<rparr>\<rparr>"
  have L: "Lines (bytes (Response.Body ?resp)) = ?ls"
    unfolding example_body by (rule Lines_of_lines_body) simp
  have v: "\<not> missing_required example_stores (CallPull ''llama2'' True)" by simp
  have ok: "200 \<le> StatusCode ?resp" "StatusCode ?resp < 300" by simp_all
  have sh: "\<forall>l \<in> set (Lines (bytes (Response.Body ?resp))). length l < MaxScanTokenSize"
    unfolding L by (simp add: MaxScanTokenSize_def)
  have r1: \<open>record_of example_lib (CallPull ''llama2'' True)
              ''{"status":"downloading","completed":100,"total":1000}''
            = Some (PullEvent \<lparr>PullProgress.Status = ''downloading'', Digest = [], Total = 1000,
                               Completed = 100\<rparr>)\<close>
    by code_simp
  have r2: \<open>record_of example_lib (CallPull ''llama2'' True)
              ''{"status":"downloading","completed":500,"total":1000}''
            = Some (PullEvent \<lparr>PullProgress.Status = ''downloading'', Digest = [], Total = 1000,
                               Completed = 500\<rparr>)\<close>
    by code_simp
  have r3: \<open>record_of example_lib (CallPull ''llama2'' True) ''{"status":"success"}''
            = Some (PullEvent \<lparr>PullProgress.Status = ''success'', Digest = [], Total = 0, Completed = 0\<rparr>)\<close>
    by code_simp
  have dec: "map (record_of example_lib (CallPull ''llama2'' True))
               (Lines (bytes (Response.Body ?resp))) = map Some ?rs"
    unfolding L using r1 r2 r3 by simp
  have nt: "\<forall>r \<in> set ?rs. \<not> terminal r" by simp
  have nc: "reports_done (CallPull ''llama2'' True) \<longrightarrow> (\<forall>k < length ?rs. background k = None)"
    by simp
  from C1_stream_ordering [OF example_lib_builds v _ _ example_server_answers ok sh dec nt nc]
  show ?thesis by simp
qed

lemma lines_body_last: "ls \<noteq> [] \<Longrightarrow> last (lines_body ls) = CHR 0x0A"
  by (cases ls rule: rev_cases) (simp_all add: lines_body_def)

lemma example_all_lines:
  assumes v: "\<not> missing_required H cl" and en: "encodable H cl" and st: "streaming cl"
    and ok: "200 \<le> code" "code < 300"
    and nl: "\<forall>l \<in> set ls. CHR 0x0A \<notin> set l"
    and sh: "\<forall>l \<in> set ls. length l < MaxScanTokenSize"
    and nc: "reports_done cl \<Longrightarrow> \<forall>k < length ls. ctx k = None"
    and nt: "reports_done cl \<Longrightarrow>
             \<forall>r \<in> set (List.map_filter (record_of example_lib cl) ls). \<not> terminal r"
  shows "failed (perform example_lib (example_server code (lines_body ls) e) ctx H cl)
           = map_option (Wrapf (''error reading '' @ stream_name cl @ '' response stream: %w'') []) e
         \<and> delivered (perform example_lib (example_server code (lines_body ls) e) ctx H cl)
           = List.map_filter (record_of example_lib cl) ls"
proof -
  let ?resp = "\<lparr>StatusCode = code, Body = \<lparr>bytes = lines_body ls, failure = e\<rparr>\<rparr>"
  have L: "Lines (bytes (Response.Body ?resp)) = ls"
    unfolding example_body by (rule Lines_of_lines_body [OF nl])
  have ok': "200 \<le> StatusCode ?resp" "StatusCode ?resp < 300" using ok by simp_all
  have sh': "\<forall>l \<in> set (Lines (bytes (Response.Body ?resp))). length l < MaxScanTokenSize"
    unfolding L by (rule sh)
  have nc': "reports_done cl \<Longrightarrow> \<forall>k < length (Lines (bytes (Response.Body ?resp))). ctx k = None"
    unfolding L by (rule nc)
  have nt': "reports_done cl \<Longrightarrow>
      \<forall>r \<in> set (List.map_filter (record_of example_lib cl) (Lines (bytes (Response.Body ?resp)))).
        \<not> terminal r"
    unfolding L by (rule nt)
  from perform_all_lines [OF example_lib_builds v en example_server_answers ok' st sh' nc' nt']
  show ?thesis unfolding L by simp
qed

lemma example_long_line:
  assumes v: "\<not> missing_required H cl" and en: "encodable H cl" and st: "streaming cl"
    and rd: "\<not> reports_done cl"
    and ok: "200 \<le> code" "code < 300"
    and nl: "\<forall>l \<in> set (pre @ l # post). CHR 0x0A \<notin> set l"
    and sh: "\<forall>l \<in> set pre. length l < MaxScanTokenSize"
    and lg: "MaxScanTokenSize \<le> length l"
  shows "failed (perform example_lib (example_server code (lines_body (pre @ l # post)) e) ctx H cl)
           = Some (Wrapf (''error reading '' @ stream_name cl @ '' response stream: %w'') []
                     ErrTooLong)
         \<and> delivered (perform example_lib (example_server code (lines_body (pre @ l # post)) e)
              ctx H cl)
           = List.map_filter (record_of example_lib cl) pre"
proof -
  let ?resp = "\<lparr>StatusCode = code, Body = \<lparr>bytes = lines_body (pre @ l # post), failure = e\<rparr>\<rparr>"
  have L: "Lines (bytes (Response.Body ?resp)) = pre @ l # post"
    unfolding example_body by (rule Lines_of_lines_body [OF nl])
  have ok': "200 \<le> StatusCode ?resp" "StatusCode ?resp < 300" using ok by simp_all
  from perform_long_line [OF example_lib_builds v en example_server_answers ok' st rd L sh lg]
  show ?thesis .
qed

lemma example_done_line:
  assumes v: "\<not> missing_required H cl" and en: "encodable H cl" and rd: "reports_done cl"
    and ok: "200 \<le> code" "code < 300"
    and nl: "\<forall>l \<in> set (pre @ dl # post). CHR 0x0A \<notin> set l"
    and sh: "\<forall>l \<in> set pre. length l < MaxScanTokenSize" "length dl < MaxScanTokenSize"
    and nc: "\<forall>k \<le> length pre. ctx k = None"
    and nt: "\<forall>r \<in> set (List.map_filter (record_of example_lib cl) pre). \<not> terminal r"
    and dn: "record_of example_lib cl dl = Some x" "terminal x"
  shows "failed (perform example_lib (example_server code (lines_body (pre @ dl # post)) e) ctx H cl)
           = None
         \<and> delivered (perform example_lib (example_server code (lines_body (pre @ dl # post)) e)
              ctx H cl)
           = List.map_filter (record_of example_lib cl) pre @ [x]"
proof -
  let ?b = "lines_body (pre @ dl # post)"
  let ?resp = "\<lparr>StatusCode = code, Body = \<lparr>bytes = ?b, failure = e\<rparr>\<rparr>"
  have L: "Lines (bytes (Response.Body ?resp)) = pre @ dl # post"
    unfolding example_body by (rule Lines_of_lines_body [OF nl])
  have ok': "200 \<le> StatusCode ?resp" "StatusCode ?resp < 300" using ok by simp_all
  have "last ?b = CHR 0x0A" by (rule lines_body_last) simp
  with perform_done_line
    [OF example_lib_builds v en example_server_answers ok' rd L sh nc nt dn]
  show ?thesis by simp
qed

lemma example_cancel_line:
  assumes v: "\<not> missing_required H cl" and en: "encodable H cl" and rd: "reports_done cl"
    and ok: "200 \<le> code" "code < 300"
    and nl: "\<forall>l \<in> set (pre @ l # post). CHR 0x0A \<notin> set l"
    and sh: "\<forall>l \<in> set pre. length l < MaxScanTokenSize" "length l < MaxScanTokenSize"
    and nc: "\<forall>k < length pre. ctx k = None"
    and nt: "\<forall>r \<in> set (List.map_filter (record_of example_lib cl) pre). \<not> terminal r"
    and cn: "ctx (length pre) = Some err"
  shows "failed (perform example_lib (example_server code (lines_body (pre @ l # post)) e) ctx H cl)
           = Some err
         \<and> delivered (perform example_lib (example_server code (lines_body (pre @ l # post)) e)
              ctx H cl)
           = List.map_filter (record_of example_lib cl) pre"
proof -
  let ?resp = "\<lparr>StatusCode = code, Body = \<lparr>bytes = lines_body (pre @ l # post), failure = e\<rparr>\<rparr>"
  have L: "Lines (bytes (Response.Body ?resp)) = pre @ l # post"
    unfolding example_body by (rule Lines_of_lines_body [OF nl])
  have ok': "200 \<le> StatusCode ?resp" "StatusCode ?resp < 300" using ok by simp_all
  from perform_cancel_line
    [OF example_lib_builds v en example_server_answers ok' rd L sh nc nt cn]
  show ?thesis .
qed

lemma padded_line_facts:
  "CHR 0x0A \<notin> set padded_line" "MaxScanTokenSize \<le> length padded_line"
  \<open>text_of padded_line = ''{"status":"ok"}''\<close>
proof -
  show "CHR 0x0A \<notin> set padded_line" "MaxScanTokenSize \<le> length padded_line"
    by (simp_all add: padded_line_def)
  show \<open>text_of padded_line = ''{"status":"ok"}''\<close>
    unfolding padded_line_def by (rule text_of_padded)
qed

lemma garbage_line_facts:
  "CHR 0x0A \<notin> set garbage_line" "MaxScanTokenSize \<le> length garbage_line"
  "text_of garbage_line = garbage_line" "garbage_line \<noteq> []"
  "Unmarshal field zero garbage_line = Inl SyntaxError"
proof -
  obtain n where n: "MaxScanTokenSize = Suc (Suc (Suc n))"
    using MaxScanTokenSize_Suc by blast
  show "CHR 0x0A \<notin> set garbage_line" "MaxScanTokenSize \<le> length garbage_line"
    "text_of garbage_line = garbage_line"
    by (simp_all add: garbage_line_def text_of_xs)
  show "garbage_line \<noteq> []" by (simp add: garbage_line_def n)
  show "Unmarshal field zero garbage_line = Inl SyntaxError"
    unfolding garbage_line_def n by (simp add: Unmarshal_x)
qed

text \<open>The claim gives one callback to each valid JSON line. A line of a record and
  64 KiB of spaces is valid JSON, and the call ends with the error of the scanner and
  no callback. The line \<^verbatim>\<open>[1]\<close> is valid JSON and no record of \<^verbatim>\<open>Pull\<close>: it is skipped.
  And \<^verbatim>\<open>GenerateStream\<close> with a canceled context returns the error of the context
  before the first callback.\<close>

theorem C1_stream_ordering_counterexample:
  \<open>record_of example_lib (CallPull ''llama2'' True) padded_line
     = Some (PullEvent \<lparr>PullProgress.Status = ''ok'', Digest = [], Total = 0, Completed = 0\<rparr>)
   \<and> delivered (perform example_lib (example_server 200 (lines_body [padded_line]) None)
                  background example_stores (CallPull ''llama2'' True)) = []
   \<and> failed (perform example_lib (example_server 200 (lines_body [padded_line]) None)
               background example_stores (CallPull ''llama2'' True))
     = Some (Wrapf ''error reading pull response stream: %w'' [] ErrTooLong)
   \<and> json_parse ''[1]'' = Some (JArray [JNumber ''1''])
   \<and> delivered (perform example_lib (example_server 200 (lines_body [''[1]'']) None)
                  background example_stores (CallPull ''llama2'' True)) = []
   \<and> failed (perform example_lib (example_server 200 (lines_body [''[1]'']) None)
               background example_stores (CallPull ''llama2'' True)) = None
   \<and> record_of example_lib (CallGenerateStream (Some 0) True) ''{"response":"a"}''
     = Some (GenerateEvent (GenerateResponse_zero\<lparr>Response := ''a''\<rparr>))
   \<and> delivered (perform example_lib
                  (example_server 200 (lines_body [''{"response":"a"}'']) None)
                  canceled example_stores (CallGenerateStream (Some 0) True)) = []
   \<and> failed (perform example_lib
               (example_server 200 (lines_body [''{"response":"a"}'']) None)
               canceled example_stores (CallGenerateStream (Some 0) True))
     = Some Canceled\<close>
proof -
  let ?pull = "CallPull ''llama2'' True"
  let ?gen = "CallGenerateStream (Some 0) True"
  have d: \<open>decode_line example_lib ?pull ''{"status":"ok"}''
           = Some (PullEvent \<lparr>PullProgress.Status = ''ok'', Digest = [], Total = 0,
                              Completed = 0\<rparr>)\<close>
    by code_simp
  have 1: \<open>record_of example_lib ?pull padded_line
     = Some (PullEvent \<lparr>PullProgress.Status = ''ok'', Digest = [], Total = 0, Completed = 0\<rparr>)\<close>
    using d by (simp add: record_of_def padded_line_facts del: decode_line.simps)
  have 2: "failed (perform example_lib (example_server 200 (lines_body ([] @ padded_line # []))
                     None) background example_stores ?pull)
           = Some (Wrapf (''error reading '' @ stream_name ?pull @ '' response stream: %w'') []
                     ErrTooLong)
         \<and> delivered (perform example_lib (example_server 200
                         (lines_body ([] @ padded_line # [])) None)
                        background example_stores ?pull)
           = List.map_filter (record_of example_lib ?pull) []"
    by (rule example_long_line) (simp_all add: padded_line_facts)
  have p: "json_parse ''[1]'' = Some (JArray [JNumber ''1''])" by code_simp
  have r: "record_of example_lib ?pull ''[1]'' = None" by code_simp
  have 3: "failed (perform example_lib (example_server 200 (lines_body [''[1]'']) None)
                     background example_stores ?pull)
           = map_option (Wrapf (''error reading '' @ stream_name ?pull @ '' response stream: %w'')
                           []) None
         \<and> delivered (perform example_lib (example_server 200 (lines_body [''[1]'']) None)
                        background example_stores ?pull)
           = List.map_filter (record_of example_lib ?pull) [''[1]'']"
    by (rule example_all_lines) (simp_all add: MaxScanTokenSize_def)
  have g: \<open>record_of example_lib ?gen ''{"response":"a"}''
     = Some (GenerateEvent (GenerateResponse_zero\<lparr>Response := ''a''\<rparr>))\<close>
    by code_simp
  have 4: \<open>failed (perform example_lib
               (example_server 200 (lines_body ([] @ ''{"response":"a"}'' # [])) None)
               canceled example_stores ?gen) = Some Canceled
         \<and> delivered (perform example_lib
               (example_server 200 (lines_body ([] @ ''{"response":"a"}'' # [])) None)
               canceled example_stores ?gen)
           = List.map_filter (record_of example_lib ?gen) []\<close>
    by (rule example_cancel_line)
       (simp_all add: example_stores_def MaxScanTokenSize_def canceled_def
          List.map_filter_simps)
  from 1 2 p r 3 g 4 show ?thesis by (simp add: List.map_filter_simps)
qed

end
